theory Spec2Isabelle
  imports Main "HOL-Library.Sublist" "HOL-Library.Word"
begin

section \<open>JavaScript values used by the leaderboard code\<close>

text \<open>
  The leaderboard document is parsed JSON. A JSON object is modelled by the list of its
  own properties in enumeration order, which is the order \<^verbatim>\<open>Object.values\<close>,
  \<^verbatim>\<open>Object.keys\<close> and \<^verbatim>\<open>Object.entries\<close> walk through; a property read
  \<^verbatim>\<open>o[k]\<close> is \<open>map_of o k\<close>, with \<open>None\<close> for \<^verbatim>\<open>undefined\<close>.
  Numbers are integers (identifiers, epoch seconds, day numbers, milliseconds).
\<close>

type_synonym 'a obj = "(string \<times> 'a) list"

definition Object_values :: "'a obj \<Rightarrow> 'a list" where
  "Object_values ob = map snd ob"

definition Object_keys :: "'a obj \<Rightarrow> string list" where
  "Object_keys ob = map fst ob"

text \<open>
  A property read also finds what an object inherits. The objects of a parsed document
  inherit from \<^verbatim>\<open>Object.prototype\<close>, whose properties have the names listed in
  \<open>proto_names\<close>. For every other key a read finds an own property or nothing, which
  is what \<open>map_of\<close> gives; such a key is a \<open>plain_key\<close>. The field names of the
  document, the part keys \<^verbatim>\<open>"1"\<close> and \<^verbatim>\<open>"2"\<close> and all decimal numerals are plain.
  Reads with a key of \<open>proto_names\<close> are not followed, and the statements about reads
  with a key that comes from outside are made for plain keys.
\<close>

definition proto_names :: "string list" where
  "proto_names =
     [''constructor'', ''__defineGetter__'', ''__defineSetter__'', ''hasOwnProperty'',
      ''__lookupGetter__'', ''__lookupSetter__'', ''isPrototypeOf'', ''propertyIsEnumerable'',
      ''toString'', ''valueOf'', ''__proto__'', ''toLocaleString'']"

definition plain_key :: "string \<Rightarrow> bool" where
  "plain_key k \<longleftrightarrow> k \<notin> set proto_names"

text \<open>
  A JavaScript number is a double. The integers \<open>i\<close> with \<open>safe i\<close>
  (\<^verbatim>\<open>Number.isSafeInteger\<close>) are the ones on which doubles and integers agree: each is a
  double, the difference of two of them has the sign of the exact difference,
  \<^verbatim>\<open>String\<close> prints all their digits, and \<^verbatim>\<open>Number\<close> reads a decimal numeral of such a
  value exactly. Beyond them a numeral is rounded when it is read, and a number is
  printed in the shortest form that reads back, with an exponent from \<open>10 ^ 21\<close> on;
  this is not followed, and the statements that depend on the text of a number are made
  for safe integers.
\<close>

definition safe :: "int \<Rightarrow> bool" where
  "safe i \<longleftrightarrow> - 9007199254740991 \<le> i \<and> i \<le> 9007199254740991"

text \<open>Decimal rendering of an integer, as \<^verbatim>\<open>String(n)\<close>, \<^verbatim>\<open>n.toString()\<close> and a
  template literal do for a safe integer.\<close>

fun digits_of :: "nat \<Rightarrow> string" where
  "digits_of n =
     (if n < 10 then [''0123456789'' ! n]
      else digits_of (n div 10) @ [''0123456789'' ! (n mod 10)])"

declare digits_of.simps [simp del]

definition toString :: "int \<Rightarrow> string" where
  "toString i = (if i < 0 then CHR ''-'' # digits_of (nat (- i)) else digits_of (nat i))"

text \<open>\<^verbatim>\<open>Number(s)\<close> on a string of decimal digits that denotes a safe integer. Day keys are
  such strings; on any other string JavaScript yields \<^verbatim>\<open>NaN\<close>, reads another numeral
  syntax or rounds, which this function does not follow.\<close>

definition digit_val :: "char \<Rightarrow> int" where
  "digit_val c = int (of_char c) - 48"

definition Number :: "string \<Rightarrow> int" where
  "Number s = fold (\<lambda>c n. 10 * n + digit_val c) s 0"

text \<open>
  Dynamically typed values, for the body of a request to the proxy and for the heap
  further down: \<^verbatim>\<open>undefined\<close>, \<^verbatim>\<open>null\<close>, booleans, integral numbers, \<^verbatim>\<open>NaN\<close>,
  strings, and references to objects and arrays. \<open>truthy\<close> is the test \<^verbatim>\<open>!v\<close>
  negated; \<open>interpolate\<close> is the string that \<^verbatim>\<open>String(v)\<close> and a template literal make
  of a value (every object is rendered as a plain object is).
\<close>

datatype jsval = JUndefined | JNull | JBool bool | JNum int | JNaN | JStr string | JRef nat

fun truthy :: "jsval \<Rightarrow> bool" where
  "truthy JUndefined = False"
| "truthy JNull = False"
| "truthy (JBool b) = b"
| "truthy (JNum n) = (n \<noteq> 0)"
| "truthy JNaN = False"
| "truthy (JStr s) = (s \<noteq> [])"
| "truthy (JRef a) = True"

fun interpolate :: "jsval \<Rightarrow> string" where
  "interpolate JUndefined = ''undefined''"
| "interpolate JNull = ''null''"
| "interpolate (JBool b) = (if b then ''true'' else ''false'')"
| "interpolate (JNum n) = toString n"
| "interpolate JNaN = ''NaN''"
| "interpolate (JStr s) = s"
| "interpolate (JRef a) = ''[object Object]''"

text \<open>
  \<^verbatim>\<open>Array.prototype.sort(compare)\<close>: the sort is stable and orders \<open>a\<close> before \<open>b\<close>
  when \<open>compare a b < 0\<close>. For a consistent comparator the result of a stable sort is
  unique, so insertion from the right end stands for the engine's algorithm.
\<close>

fun insert_by :: "('a \<Rightarrow> 'a \<Rightarrow> int) \<Rightarrow> 'a \<Rightarrow> 'a list \<Rightarrow> 'a list" where
  "insert_by cmp x [] = [x]"
| "insert_by cmp x (y # ys) =
     (if cmp x y \<le> 0 then x # y # ys else y # insert_by cmp x ys)"

definition Array_sort :: "('a \<Rightarrow> 'a \<Rightarrow> int) \<Rightarrow> 'a list \<Rightarrow> 'a list" where
  "Array_sort cmp xs = foldr (insert_by cmp) xs []"

section \<open>Data model\<close>

text \<open>The document with the types its data model gives it: a completion, a member, the
  leaderboard. A leaderboard that is not loaded (\<^verbatim>\<open>null\<close>) is \<open>None\<close>, and so is an
  optional field that is absent.\<close>

record completion =
  get_star_ts :: int

text \<open>A member: \<^verbatim>\<open>id\<close>, the optional \<^verbatim>\<open>name\<close>, and \<^verbatim>\<open>completion_day_level\<close>, an object
  from day keys to objects from part keys to completions.\<close>

record member =
  m_id :: int
  m_name :: "string option"
  completion_day_level :: "completion obj obj option"

record leaderboard =
  members :: "member obj option"

text \<open>The rows pushed by \<^verbatim>\<open>buildLeaderboard\<close>, and the rows it returns, which spread a
  pushed row and add \<^verbatim>\<open>rank\<close>.\<close>

record row =
  r_id :: int
  r_name :: string
  r_completedAt :: string
  r_timestamp :: int

record ranked_row = row +
  rank :: nat

section \<open>Transformation layer\<close>

text \<open>\<^verbatim>\<open>leaderboard?.members ?? {}\<close>, for a leaderboard that may be \<^verbatim>\<open>null\<close>.\<close>

definition members_or_empty :: "leaderboard option \<Rightarrow> member obj" where
  "members_or_empty lb =
     (case lb of None \<Rightarrow> []
      | Some d \<Rightarrow> (case members d of None \<Rightarrow> [] | Some ms \<Rightarrow> ms))"

text \<open>\<^verbatim>\<open>member.completion_day_level?.[day]?.[part]\<close>.\<close>

definition completion_at :: "member \<Rightarrow> string \<Rightarrow> string \<Rightarrow> completion option" where
  "completion_at m day part =
     (case completion_day_level m of None \<Rightarrow> None
      | Some days \<Rightarrow> (case map_of days day of None \<Rightarrow> None
                      | Some parts \<Rightarrow> map_of parts part))"

text \<open>
  The words of the specification: the source document has the completion entry \<open>c\<close> of
  a member for a day and a part when the member's \<^verbatim>\<open>completion_day_level\<close> maps the
  day to a mapping that maps the part to \<open>c\<close>; the entry is absent when the member has
  no \<^verbatim>\<open>completion_day_level\<close>, or it has no such day, or the day has no such part.
  These two say what the document holds, and the statements about the derived rows are
  made with them.
\<close>

definition has_entry :: "member \<Rightarrow> string \<Rightarrow> string \<Rightarrow> completion \<Rightarrow> bool" where
  "has_entry m day part c \<longleftrightarrow>
     (case completion_day_level m of None \<Rightarrow> False
      | Some days \<Rightarrow> (case map_of days day of None \<Rightarrow> False
                      | Some parts \<Rightarrow> map_of parts part = Some c))"

definition lacks_entry :: "member \<Rightarrow> string \<Rightarrow> string \<Rightarrow> bool" where
  "lacks_entry m day part \<longleftrightarrow>
     (case completion_day_level m of None \<Rightarrow> True
      | Some days \<Rightarrow> (case map_of days day of None \<Rightarrow> True
                      | Some parts \<Rightarrow> map_of parts part = None))"

text \<open>\<^verbatim>\<open>member.name || `Anonymous #${member.id}`\<close>: an absent and an empty name are both
  falsy.\<close>

definition display_name :: "member \<Rightarrow> string" where
  "display_name m =
     (case m_name m of None \<Rightarrow> ''Anonymous #'' @ toString (m_id m)
      | Some n \<Rightarrow> if n = [] then ''Anonymous #'' @ toString (m_id m) else n)"

text \<open>
  \<^verbatim>\<open>formatCompletionTime\<close>. The text \<^verbatim>\<open>toLocaleString\<close> produces depends on the
  locale and time zone of the browser; it is the parameter \<open>L\<close>, a function of the
  milliseconds given to \<^verbatim>\<open>new Date\<close>. The version of \<^verbatim>\<open>src/src/App.jsx\<close> returns the
  empty string for a falsy timestamp; the earlier file has no such test. The product
  \<open>ts * 1000\<close> is exact as long as it is a safe integer, and beyond that the date is
  invalid whatever the product is rounded to: a date holds at most 8640000000000000
  milliseconds.
\<close>

definition formatCompletionTime :: "(int \<Rightarrow> string) \<Rightarrow> int \<Rightarrow> string" where
  "formatCompletionTime L ts = (if ts = 0 then [] else L (ts * 1000))"

definition formatCompletionTime_v0 :: "(int \<Rightarrow> string) \<Rightarrow> int \<Rightarrow> string" where
  "formatCompletionTime_v0 L ts = L (ts * 1000)"

text \<open>The body of the \<^verbatim>\<open>members.forEach\<close> callback of \<^verbatim>\<open>buildLeaderboard\<close>, with the
  array \<^verbatim>\<open>rows\<close> passed through: nothing is pushed for a member without the completion.\<close>

definition push_row :: "(int \<Rightarrow> string) \<Rightarrow> string \<Rightarrow> string \<Rightarrow> member \<Rightarrow> row list \<Rightarrow> row list" where
  "push_row fmt day part m rows =
     (case completion_at m day part of None \<Rightarrow> rows
      | Some c \<Rightarrow> rows @ [\<lparr>r_id = m_id m, r_name = display_name m,
                           r_completedAt = fmt (get_star_ts c),
                           r_timestamp = get_star_ts c\<rparr>])"

text \<open>\<^verbatim>\<open>rows.sort((a, b) => a.timestamp - b.timestamp).map((row, index) => ({ ...row, rank: index + 1 }))\<close>.\<close>

definition with_rank :: "nat \<times> row \<Rightarrow> ranked_row" where
  "with_rank p = row.extend (snd p) (ranked_row.fields (fst p + 1))"

definition rank_rows :: "row list \<Rightarrow> ranked_row list" where
  "rank_rows rows =
     map with_rank (enumerate 0 (Array_sort (\<lambda>a b. r_timestamp a - r_timestamp b) rows))"

text \<open>\<^verbatim>\<open>buildLeaderboard\<close> of \<^verbatim>\<open>src/src/App.jsx\<close>.\<close>

definition buildLeaderboard ::
  "(int \<Rightarrow> string) \<Rightarrow> leaderboard option \<Rightarrow> string \<Rightarrow> string \<Rightarrow> ranked_row list" where
  "buildLeaderboard L lb day part =
     (case lb of None \<Rightarrow> []
      | Some d \<Rightarrow>
          (let ms = Object_values (case members d of None \<Rightarrow> [] | Some ob \<Rightarrow> ob);
               rows = fold (push_row (formatCompletionTime L) day part) ms []
           in rank_rows rows))"

text \<open>\<^verbatim>\<open>buildLeaderboard\<close> of the earlier file, \<^verbatim>\<open>src/unnamed/part_000\<close>.\<close>

definition buildLeaderboard_v0 ::
  "(int \<Rightarrow> string) \<Rightarrow> leaderboard option \<Rightarrow> string \<Rightarrow> string \<Rightarrow> ranked_row list" where
  "buildLeaderboard_v0 L lb day part =
     (case lb of None \<Rightarrow> []
      | Some d \<Rightarrow>
          (let ms = Object_values (case members d of None \<Rightarrow> [] | Some ob \<Rightarrow> ob);
               rows = fold (push_row (formatCompletionTime_v0 L) day part) ms []
           in rank_rows rows))"

record selection =
  sel_day :: string
  sel_part :: string

text \<open>\<^verbatim>\<open>findDefaultSelection\<close> of \<^verbatim>\<open>src/src/App.jsx\<close>. The first element of the sorted
  array is \<^verbatim>\<open>undefined\<close> when there is no day key, and the default \<^verbatim>\<open>"1"\<close> is taken.
  A completion is an object, so it is truthy exactly when it is there.\<close>

definition findDefaultSelection :: "leaderboard option \<Rightarrow> selection" where
  "findDefaultSelection lb =
     (let ms = Object_values (members_or_empty lb);
          allDays = concat (map (\<lambda>m. Object_keys
                      (case completion_day_level m of None \<Rightarrow> [] | Some ds \<Rightarrow> ds)) ms);
          firstDay = (case Array_sort (\<lambda>a b. a - b) (map Number allDays) of
                        [] \<Rightarrow> ''1'' | n # _ \<Rightarrow> toString n);
          hasPart2 = list_ex (\<lambda>m. completion_at m firstDay ''2'' \<noteq> None) ms;
          hasPart1 = list_ex (\<lambda>m. completion_at m firstDay ''1'' \<noteq> None) ms
      in \<lparr>sel_day = firstDay,
          sel_part = (if hasPart2 then ''2'' else if hasPart1 then ''1'' else ''1'')\<rparr>)"

text \<open>\<^verbatim>\<open>findDefaultSelection\<close> of \<^verbatim>\<open>src/unnamed/part_000\<close>.\<close>

definition findDefaultSelection_v0 :: "leaderboard option \<Rightarrow> selection" where
  "findDefaultSelection_v0 lb =
     (let ms = Object_values (members_or_empty lb);
          allDays = concat (map (\<lambda>m. Object_keys
                      (case completion_day_level m of None \<Rightarrow> [] | Some ds \<Rightarrow> ds)) ms);
          firstDay = (case Array_sort (\<lambda>a b. a - b) (map Number allDays) of
                        [] \<Rightarrow> ''1'' | n # _ \<Rightarrow> toString n);
          hasPart2 = list_ex (\<lambda>m. completion_at m firstDay ''2'' \<noteq> None) ms;
          hasPart1 = list_ex (\<lambda>m. completion_at m firstDay ''1'' \<noteq> None) ms
      in \<lparr>sel_day = firstDay,
          sel_part = (if hasPart2 then ''2'' else if hasPart1 then ''1'' else ''1'')\<rparr>)"

text \<open>\<^verbatim>\<open>findDefaultPlayerId\<close>. The order of \<^verbatim>\<open>localeCompare\<close> depends on the browser's
  locale and is the parameter \<open>localeCompare\<close>.\<close>

record player =
  p_id :: string
  p_name :: string

definition findDefaultPlayerId :: "(string \<Rightarrow> string \<Rightarrow> int) \<Rightarrow> leaderboard option \<Rightarrow> string" where
  "findDefaultPlayerId localeCompare lb =
     (let players = map (\<lambda>m. \<lparr>p_id = toString (m_id m), p_name = display_name m\<rparr>)
                      (Object_values (members_or_empty lb))
      in case Array_sort (\<lambda>a b. localeCompare (p_name a) (p_name b)) players of
           [] \<Rightarrow> [] | p # _ \<Rightarrow> p_id p)"

text \<open>\<^verbatim>\<open>buildPlayerSubmissions\<close>: the two nested \<^verbatim>\<open>forEach\<close> loops push one row for every
  day of \<^verbatim>\<open>dayNumbers\<close> and every part of \<^verbatim>\<open>[1, 2]\<close>.\<close>

record submission =
  s_day :: string
  s_part :: string
  s_completedAt :: string

definition push_submission ::
  "(int \<Rightarrow> string) \<Rightarrow> member \<Rightarrow> string \<Rightarrow> int \<Rightarrow> submission list \<Rightarrow> submission list" where
  "push_submission L player day part rows =
     rows @ [\<lparr>s_day = day, s_part = toString part,
              s_completedAt =
                (case completion_at player day (toString part) of
                   Some c \<Rightarrow> formatCompletionTime L (get_star_ts c)
                 | None \<Rightarrow> ''Not completed'')\<rparr>]"

definition buildPlayerSubmissions ::
  "(int \<Rightarrow> string) \<Rightarrow> leaderboard option \<Rightarrow> string \<Rightarrow> string list \<Rightarrow> submission list" where
  "buildPlayerSubmissions L lb playerId dayNumbers =
     (case lb of None \<Rightarrow> []
      | Some d \<Rightarrow>
          if playerId = [] then []
          else
            (case find (\<lambda>m. toString (m_id m) = playerId)
                    (Object_values (case members d of None \<Rightarrow> [] | Some ob \<Rightarrow> ob)) of
               None \<Rightarrow> []
             | Some player \<Rightarrow>
                 fold (\<lambda>day rows. fold (push_submission L player day) [1, 2] rows)
                   dayNumbers []))"

text \<open>\<^verbatim>\<open>computePartAvailability\<close>. The object \<^verbatim>\<open>availability\<close> is only read by key, so it is
  a map from day keys; its values are the objects \<^verbatim>\<open>{ 1: ..., 2: ... }\<close>. \<open>mark_day\<close> is
  the body of the inner \<^verbatim>\<open>forEach\<close>, for one entry \<^verbatim>\<open>[day, parts]\<close>.\<close>

record avail =
  part1 :: bool
  part2 :: bool

definition mark_day :: "string \<times> completion obj \<Rightarrow> (string \<rightharpoonup> avail) \<Rightarrow> (string \<rightharpoonup> avail)" where
  "mark_day e availability =
     (let day = fst e; parts = snd e;
          a0 = (case availability day of
                  None \<Rightarrow> \<lparr>part1 = False, part2 = False\<rparr> | Some a \<Rightarrow> a);
          a1 = (if map_of parts ''1'' \<noteq> None then a0\<lparr>part1 := True\<rparr> else a0);
          a2 = (if map_of parts ''2'' \<noteq> None then a1\<lparr>part2 := True\<rparr> else a1)
      in availability(day \<mapsto> a2))"

text \<open>\<^verbatim>\<open>computePartAvailability\<close> of \<^verbatim>\<open>src/src/App.jsx\<close>.\<close>

definition computePartAvailability :: "leaderboard option \<Rightarrow> (string \<rightharpoonup> avail)" where
  "computePartAvailability lb =
     fold (\<lambda>m availability.
             fold mark_day (case completion_day_level m of None \<Rightarrow> [] | Some ds \<Rightarrow> ds)
               availability)
       (Object_values (members_or_empty lb)) Map.empty"

text \<open>\<^verbatim>\<open>computePartAvailability\<close> of \<^verbatim>\<open>src/unnamed/part_000\<close>.\<close>

definition computePartAvailability_v0 :: "leaderboard option \<Rightarrow> (string \<rightharpoonup> avail)" where
  "computePartAvailability_v0 lb =
     fold (\<lambda>m availability.
             fold mark_day (case completion_day_level m of None \<Rightarrow> [] | Some ds \<Rightarrow> ds)
               availability)
       (Object_values (members_or_empty lb)) Map.empty"

text \<open>
  Day keys. The keys of \<^verbatim>\<open>completion_day_level\<close> are day numbers written in decimal: a
  non-empty string of digits that does not start with \<^verbatim>\<open>0\<close>. \<open>all_day_keys\<close> lists the
  day keys of all members.
\<close>

definition is_digit :: "char \<Rightarrow> bool" where
  "is_digit c \<longleftrightarrow> c \<in> set ''0123456789''"

definition day_key :: "string \<Rightarrow> bool" where
  "day_key s \<longleftrightarrow> s \<noteq> [] \<and> list_all is_digit s \<and> hd s \<noteq> CHR ''0''"

definition all_day_keys :: "leaderboard option \<Rightarrow> string list" where
  "all_day_keys lb =
     concat (map (\<lambda>m. Object_keys (case completion_day_level m of None \<Rightarrow> [] | Some ds \<Rightarrow> ds))
               (Object_values (members_or_empty lb)))"

text \<open>A day number is a day key that denotes a safe integer, and \<open>wf_days\<close> says that
  every day key of the document is a day number.\<close>

definition day_number :: "string \<Rightarrow> bool" where
  "day_number s \<longleftrightarrow> day_key s \<and> safe (Number s)"

definition wf_days :: "leaderboard option \<Rightarrow> bool" where
  "wf_days lb \<longleftrightarrow> list_all day_number (all_day_keys lb)"

text \<open>The ids of the members are safe integers.\<close>

definition wf_ids :: "leaderboard option \<Rightarrow> bool" where
  "wf_ids lb \<longleftrightarrow> list_all (\<lambda>m. safe (m_id m)) (Object_values (members_or_empty lb))"

section \<open>Loading a leaderboard: \<^verbatim>\<open>handleSubmit\<close>\<close>

text \<open>
  The values of the three form fields are what the user types: JavaScript strings, which
  are sequences of UTF-16 code units. \<open>units\<close> gives the code units of a literal.
\<close>

type_synonym code_unit = "16 word"

type_synonym ustring = "code_unit list"

definition units :: "string \<Rightarrow> ustring" where
  "units s = map (\<lambda>c. of_nat (of_char c)) s"

text \<open>
  \<^verbatim>\<open>String.prototype.trim\<close> removes white space and line terminators from both ends:
  tab, line feed, vertical tab, form feed, carriage return, space, no-break space,
  U+1680, U+2000 to U+200A, the line and paragraph separators U+2028 and U+2029, U+202F,
  U+205F, U+3000 and the byte order mark U+FEFF.
\<close>

definition is_space :: "code_unit \<Rightarrow> bool" where
  "is_space c \<longleftrightarrow>
     c \<in> set [0x0009, 0x000A, 0x000B, 0x000C, 0x000D, 0x0020, 0x00A0, 0x1680,
              0x2028, 0x2029, 0x202F, 0x205F, 0x3000, 0xFEFF] \<or>
     (0x2000 \<le> c \<and> c \<le> 0x200A)"

definition trim :: "ustring \<Rightarrow> ustring" where
  "trim s = rev (dropWhile is_space (rev (dropWhile is_space s)))"

text \<open>A field is blank when it is empty or holds white space only.\<close>

definition blank :: "ustring \<Rightarrow> bool" where
  "blank s \<longleftrightarrow> list_all is_space s"

text \<open>An entry of the cache \<^verbatim>\<open>cacheRef.current\<close>, and the state of the component: the
  values of its \<^verbatim>\<open>useState\<close> variables (\<open>loaded\<close> is the variable \<^verbatim>\<open>leaderboard\<close>) and
  the cache, an object read and written by the key \<^verbatim>\<open>`${year}:${leaderboardCode}`\<close>. A
  key has a colon in it, and no inherited property has such a name, so the cache is the
  map of its own properties.\<close>

record cache_entry =
  data :: leaderboard
  fetchedAt :: int

record app_state =
  year :: ustring
  leaderboardCode :: ustring
  sessionToken :: ustring
  selectedDay :: string
  selectedPart :: string
  selectedPlayerId :: string
  viewMode :: string
  loaded :: "leaderboard option"
  loading :: bool
  error :: string
  cache :: "ustring \<rightharpoonup> cache_entry"

text \<open>
  What one run of \<^verbatim>\<open>handleSubmit\<close> gets from outside, if it asks: the answer of
  \<^verbatim>\<open>window.confirm\<close>, the reading of \<^verbatim>\<open>Date.now()\<close> at the freshness test, the outcome of
  \<^verbatim>\<open>fetch\<close>, and the reading of \<^verbatim>\<open>Date.now()\<close> when the entry is stored. A fetch is
  rejected with a message, or answers with a status and a body; \<^verbatim>\<open>response.json()\<close> gives
  the parsed document or throws with a message.
\<close>

datatype fetch_outcome = Rejected string | Responded int "string + leaderboard"

record world =
  confirmed :: bool
  now_check :: int
  outcome :: fetch_outcome
  now_store :: int

text \<open>A network call: the \<^verbatim>\<open>POST\<close> to \<^verbatim>\<open>/api/leaderboard\<close> with the three fields of its
  body.\<close>

record api_call =
  call_year :: ustring
  call_leaderboardCode :: ustring
  call_sessionToken :: ustring

text \<open>The \<^verbatim>\<open>catch\<close> block followed by the \<^verbatim>\<open>finally\<close> block.\<close>

definition fail_with :: "string \<Rightarrow> app_state \<Rightarrow> app_state" where
  "fail_with msg s =
     s\<lparr>error := (if msg = [] then ''Something went wrong while loading data.'' else msg),
       loading := False\<rparr>"

text \<open>\<^verbatim>\<open>handleSubmit\<close> of \<^verbatim>\<open>src/src/App.jsx\<close>: the state after the handler has run, and the
  network calls it made.\<close>

definition handleSubmit ::
  "(string \<Rightarrow> string \<Rightarrow> int) \<Rightarrow> world \<Rightarrow> app_state \<Rightarrow> app_state \<times> api_call list" where
  "handleSubmit localeCompare w s0 =
     (let s1 = s0\<lparr>error := []\<rparr> in
      if trim (leaderboardCode s1) = [] \<or> trim (sessionToken s1) = [] then
        (s1\<lparr>error :=
           ''Please enter both the private leaderboard code and your AoC session token.''\<rparr>, [])
      else if \<not> confirmed w then (s1, [])
      else
        let s2 = s1\<lparr>loading := True, loaded := None\<rparr>;
            cacheKey = year s2 @ units '':'' @ leaderboardCode s2;
            cached = cache s2 cacheKey;
            FIFTEEN_MIN = 15 * 60 * 1000
        in case (case cached of None \<Rightarrow> None
                 | Some e \<Rightarrow> if now_check w - fetchedAt e < FIFTEEN_MIN then Some e else None) of
             Some e \<Rightarrow>
               (let defaults = findDefaultSelection (Some (data e)) in
                (s2\<lparr>loaded := Some (data e),
                    selectedDay := sel_day defaults,
                    selectedPart := sel_part defaults,
                    selectedPlayerId := findDefaultPlayerId localeCompare (Some (data e)),
                    loading := False\<rparr>, []))
           | None \<Rightarrow>
               (let call = \<lparr>call_year = year s2, call_leaderboardCode = leaderboardCode s2,
                            call_sessionToken = sessionToken s2\<rparr> in
                case outcome w of
                  Rejected msg \<Rightarrow> (fail_with msg s2, [call])
                | Responded status body \<Rightarrow>
                    if \<not> (200 \<le> status \<and> status \<le> 299) then
                      (fail_with (''Unable to load leaderboard (status '' @ toString status @
                         ''). '' @
                         ''Ensure you are signed in to Advent of Code and have access to this board.'')
                         s2, [call])
                    else
                      (case body of
                         Inl msg \<Rightarrow> (fail_with msg s2, [call])
                       | Inr json \<Rightarrow>
                           (let defaults = findDefaultSelection (Some json);
                                s3 = s2\<lparr>cache := (cache s2)(cacheKey \<mapsto>
                                        \<lparr>data = json, fetchedAt = now_store w\<rparr>)\<rparr>
                            in (s3\<lparr>loaded := Some json,
                                   selectedDay := sel_day defaults,
                                   selectedPart := sel_part defaults,
                                   selectedPlayerId := findDefaultPlayerId localeCompare (Some json),
                                   loading := False\<rparr>, [call])))))"

text \<open>
  \<^verbatim>\<open>handleSubmit\<close> is the \<^verbatim>\<open>onSubmit\<close> handler of the form, and runs when the form is
  submitted. The three inputs of the form are \<^verbatim>\<open>required\<close>, and the form does not switch
  validation off: when the user asks for the submit (through the button, which is
  disabled while \<open>loading\<close> holds), the browser first checks the constraints of the
  controls. If a control is invalid, no submit event is sent, the handler does not run
  and the browser reports the invalid controls at their fields. A required control is
  invalid when its value is empty. The year is a number input with \<^verbatim>\<open>min\<close>, \<^verbatim>\<open>max\<close> (the
  current year) and the default step; what the browser makes of these for a value that is
  not empty is the parameter \<open>year_ok\<close>.
\<close>

datatype control = Year_input | Code_input | Token_input

datatype submit_outcome = Blocked "control list" | Handled "app_state \<times> api_call list"

definition invalid_controls :: "(ustring \<Rightarrow> bool) \<Rightarrow> app_state \<Rightarrow> control list" where
  "invalid_controls year_ok s =
     (if year s = [] \<or> \<not> year_ok (year s) then [Year_input] else []) @
     (if leaderboardCode s = [] then [Code_input] else []) @
     (if sessionToken s = [] then [Token_input] else [])"

definition submit ::
  "(ustring \<Rightarrow> bool) \<Rightarrow> (string \<Rightarrow> string \<Rightarrow> int) \<Rightarrow> world \<Rightarrow> app_state \<Rightarrow> submit_outcome" where
  "submit year_ok localeCompare w s =
     (if invalid_controls year_ok s = [] then Handled (handleSubmit localeCompare w s)
      else Blocked (invalid_controls year_ok s))"

text \<open>The network calls of a submit, the state after it, and the validation error it
  reports: the controls the browser reports, or the message the handler has set.\<close>

definition calls_of :: "submit_outcome \<Rightarrow> api_call list" where
  "calls_of out = (case out of Blocked cs \<Rightarrow> [] | Handled r \<Rightarrow> snd r)"

definition state_of :: "app_state \<Rightarrow> submit_outcome \<Rightarrow> app_state" where
  "state_of s out = (case out of Blocked cs \<Rightarrow> s | Handled r \<Rightarrow> fst r)"

datatype report = Browser_reports "control list" | Page_shows string

definition reported :: "submit_outcome \<Rightarrow> report" where
  "reported out = (case out of Blocked cs \<Rightarrow> Browser_reports cs
                   | Handled r \<Rightarrow> Page_shows (error (fst r)))"

section \<open>The proxy: \<^verbatim>\<open>handler\<close>\<close>

text \<open>
  The fields of the request body are JavaScript values; a field that is missing is
  \<^verbatim>\<open>undefined\<close>.
\<close>

record proxy_body =
  b_year :: jsval
  b_leaderboardCode :: jsval
  b_sessionToken :: jsval

record proxy_request =
  req_method :: string
  req_body :: "proxy_body option"

text \<open>The upstream \<^verbatim>\<open>fetch\<close> throws with a message, or answers with a status and a body
  that \<^verbatim>\<open>upstream.json()\<close> parses or throws on. The response is what the handler makes of
  \<^verbatim>\<open>res\<close>: the status, the headers set, and the body sent by \<^verbatim>\<open>end()\<close> or \<^verbatim>\<open>json(...)\<close>.\<close>

datatype 'j upstream_outcome = Fetch_throws string | Upstream int "string + 'j"

datatype 'j sent_body = No_body | Error_json string | Data_json 'j

record 'j proxy_response =
  res_status :: int
  res_headers :: "(string \<times> string) list"
  res_body :: "'j sent_body"

record upstream_call =
  up_url :: string
  up_headers :: "(string \<times> string) list"

text \<open>\<^verbatim>\<open>req.body || {}\<close>: without a body every field is \<^verbatim>\<open>undefined\<close>.\<close>

definition body_or_empty :: "proxy_request \<Rightarrow> proxy_body" where
  "body_or_empty req =
     (case req_body req of
        None \<Rightarrow> \<lparr>b_year = JUndefined, b_leaderboardCode = JUndefined,
                  b_sessionToken = JUndefined\<rparr>
      | Some b \<Rightarrow> b)"

definition handler ::
  "'j upstream_outcome \<Rightarrow> proxy_request \<Rightarrow> 'j proxy_response \<times> upstream_call list" where
  "handler up req =
     (if req_method req = ''OPTIONS'' then
        (\<lparr>res_status = 204,
          res_headers = [(''Access-Control-Allow-Origin'', ''*''),
                         (''Access-Control-Allow-Methods'', ''POST, OPTIONS''),
                         (''Access-Control-Allow-Headers'', ''Content-Type'')],
          res_body = No_body\<rparr>, [])
      else if req_method req \<noteq> ''POST'' then
        (\<lparr>res_status = 405, res_headers = [], res_body = No_body\<rparr>, [])
      else
        let b = body_or_empty req
        in
          if \<not> truthy (b_year b) \<or> \<not> truthy (b_leaderboardCode b) \<or>
             \<not> truthy (b_sessionToken b) then
            (\<lparr>res_status = 400, res_headers = [],
              res_body = Error_json ''Missing required fields''\<rparr>, [])
          else
            let call = \<lparr>up_url = ''https://adventofcode.com/'' @ interpolate (b_year b) @
                           ''/leaderboard/private/view/'' @ interpolate (b_leaderboardCode b) @
                           ''.json'',
                         up_headers = [(''cookie'', ''session='' @ interpolate (b_sessionToken b)),
                                       (''accept'', ''application/json''),
                                       (''user-agent'', ''Aoclytic (Vercel proxy)'')]\<rparr>
            in
              (case up of
                 Fetch_throws msg \<Rightarrow>
                   (\<lparr>res_status = 500, res_headers = [],
                     res_body = Error_json (if msg = [] then ''Fetch failed'' else msg)\<rparr>, [call])
               | Upstream status body \<Rightarrow>
                   if \<not> (200 \<le> status \<and> status \<le> 299) then
                     (\<lparr>res_status = status, res_headers = [],
                       res_body = Error_json (''Upstream status '' @ toString status)\<rparr>, [call])
                   else
                     (case body of
                        Inl msg \<Rightarrow>
                          (\<lparr>res_status = 500, res_headers = [],
                            res_body = Error_json (if msg = [] then ''Fetch failed'' else msg)\<rparr>,
                           [call])
                      | Inr d \<Rightarrow>
                          (\<lparr>res_status = 200,
                            res_headers = [(''Access-Control-Allow-Origin'', ''*'')],
                            res_body = Data_json d\<rparr>, [call]))))"

text \<open>The three fields of the body are all there (and truthy), as the handler tests it.\<close>

definition fields_present :: "proxy_request \<Rightarrow> bool" where
  "fields_present req \<longleftrightarrow>
     truthy (b_year (body_or_empty req)) \<and> truthy (b_leaderboardCode (body_or_empty req)) \<and>
     truthy (b_sessionToken (body_or_empty req))"

section \<open>The transformation layer on the heap\<close>

text \<open>
  Whether a function changes the document it is given depends on where the arrays it
  sorts and pushes to live. Here the functions of the transformation layer are written
  once more over a store: a heap is a list of cells, the address of a cell is its index,
  a reference is \<open>JRef\<close> of an address, and an allocation appends a cell. An object
  cell holds its own properties in the order they were added, an array cell its
  elements. A function takes the heap and returns the heap after it has run, or the
  error it throws. Reads find own properties only, and a key is made of a value by
  \<open>interpolate\<close>: this is what the code does when the requested day and part, the player
  id and the elements of the day array are strings that are plain keys.
\<close>

datatype cell = Object "(string \<times> jsval) list" | Array "jsval list"

type_synonym heap = "cell list"

datatype error = TypeError

definition new :: "cell \<Rightarrow> heap \<Rightarrow> jsval \<times> heap" where
  "new c h = (JRef (length h), h @ [c])"

definition cell_at :: "heap \<Rightarrow> jsval \<Rightarrow> cell option" where
  "cell_at h v = (case v of JRef a \<Rightarrow> (if a < length h then Some (h ! a) else None) | _ \<Rightarrow> None)"

text \<open>
  Reading. \<open>props\<close> lists the own properties of a value (the elements of an array under
  their indices, nothing for a primitive value), \<open>elems\<close> the elements of an array.
  \<open>get\<close> is the property read \<^verbatim>\<open>v.k\<close> or \<^verbatim>\<open>v[k]\<close>, which throws on
  \<^verbatim>\<open>undefined\<close> and \<^verbatim>\<open>null\<close>; \<open>get_opt\<close> is \<^verbatim>\<open>v?.[k]\<close>. \<open>attempt\<close> passes the
  value of a step that may throw on to the rest.
\<close>

definition props :: "heap \<Rightarrow> jsval \<Rightarrow> (string \<times> jsval) list" where
  "props h v =
     (case cell_at h v of
        Some (Object ps) \<Rightarrow> ps
      | Some (Array xs) \<Rightarrow> zip (map (\<lambda>i. toString (int i)) [0..<length xs]) xs
      | None \<Rightarrow> [])"

definition elems :: "heap \<Rightarrow> jsval \<Rightarrow> jsval list option" where
  "elems h v = (case cell_at h v of Some (Array xs) \<Rightarrow> Some xs | _ \<Rightarrow> None)"

definition nullish :: "jsval \<Rightarrow> bool" where
  "nullish v \<longleftrightarrow> v = JUndefined \<or> v = JNull"

definition own_prop :: "heap \<Rightarrow> jsval \<Rightarrow> string \<Rightarrow> jsval" where
  "own_prop h v k = (case map_of (props h v) k of None \<Rightarrow> JUndefined | Some x \<Rightarrow> x)"

definition get :: "heap \<Rightarrow> jsval \<Rightarrow> string \<Rightarrow> error + jsval" where
  "get h v k = (if nullish v then Inl TypeError else Inr (own_prop h v k))"

definition get_opt :: "heap \<Rightarrow> jsval \<Rightarrow> string \<Rightarrow> jsval" where
  "get_opt h v k = (if nullish v then JUndefined else own_prop h v k)"

definition attempt :: "error + 'a \<Rightarrow> ('a \<Rightarrow> error + 'b) \<Rightarrow> error + 'b" where
  "attempt r f = (case r of Inl e \<Rightarrow> Inl e | Inr x \<Rightarrow> f x)"

text \<open>
  Writing: the assignment \<^verbatim>\<open>v[k] = x\<close> to an object and \<^verbatim>\<open>arr.push(x)\<close> change
  the cell they are applied to, in place.
\<close>

fun set_key :: "string \<Rightarrow> jsval \<Rightarrow> (string \<times> jsval) list \<Rightarrow> (string \<times> jsval) list" where
  "set_key k x [] = [(k, x)]"
| "set_key k x (p # ps) = (if fst p = k then (k, x) # ps else p # set_key k x ps)"

definition set_prop :: "jsval \<Rightarrow> string \<Rightarrow> jsval \<Rightarrow> heap \<Rightarrow> error + heap" where
  "set_prop v k x h =
     (case v of
        JRef a \<Rightarrow> (case cell_at h v of
                     Some (Object ps) \<Rightarrow> Inr (h[a := Object (set_key k x ps)])
                   | _ \<Rightarrow> Inl TypeError)
      | _ \<Rightarrow> Inl TypeError)"

definition push :: "jsval \<Rightarrow> jsval \<Rightarrow> heap \<Rightarrow> error + heap" where
  "push arr x h =
     (case arr of
        JRef a \<Rightarrow> (case elems h arr of
                     Some xs \<Rightarrow> Inr (h[a := Array (xs @ [x])])
                   | None \<Rightarrow> Inl TypeError)
      | _ \<Rightarrow> Inl TypeError)"

text \<open>\<^verbatim>\<open>v ?? {}\<close>, \<^verbatim>\<open>Object.values\<close>, \<^verbatim>\<open>Object.keys\<close> and
  \<^verbatim>\<open>Object.entries\<close>; each of the last three allocates the array it returns, and
  \<^verbatim>\<open>Object.entries\<close> one more array \<^verbatim>\<open>[key, value]\<close> for every property.\<close>

definition or_empty_object :: "jsval \<Rightarrow> heap \<Rightarrow> jsval \<times> heap" where
  "or_empty_object v h = (if nullish v then new (Object []) h else (v, h))"

definition Object_values_js :: "jsval \<Rightarrow> heap \<Rightarrow> error + jsval \<times> heap" where
  "Object_values_js v h =
     (if nullish v then Inl TypeError else Inr (new (Array (map snd (props h v))) h))"

definition Object_keys_js :: "jsval \<Rightarrow> heap \<Rightarrow> error + jsval \<times> heap" where
  "Object_keys_js v h =
     (if nullish v then Inl TypeError else Inr (new (Array (map (\<lambda>p. JStr (fst p)) (props h v))) h))"

fun entry_arrays :: "(string \<times> jsval) list \<Rightarrow> heap \<Rightarrow> jsval list \<times> heap" where
  "entry_arrays [] h = ([], h)"
| "entry_arrays (p # ps) h =
     (let (r, h1) = new (Array [JStr (fst p), snd p]) h;
          (rs, h2) = entry_arrays ps h1
      in (r # rs, h2))"

definition Object_entries_js :: "jsval \<Rightarrow> heap \<Rightarrow> error + jsval \<times> heap" where
  "Object_entries_js v h =
     (if nullish v then Inl TypeError
      else let (rs, h1) = entry_arrays (props h v) h in Inr (new (Array rs) h1))"

text \<open>
  The array methods. \<^verbatim>\<open>forEach\<close>, \<^verbatim>\<open>map\<close>, \<^verbatim>\<open>flatMap\<close>, \<^verbatim>\<open>some\<close> and
  \<^verbatim>\<open>find\<close> visit the elements the array has when the call starts (no callback of this
  code touches the array it is called from) and stop at the first callback that throws;
  \<^verbatim>\<open>some\<close> and \<^verbatim>\<open>find\<close> also stop at the first hit. \<^verbatim>\<open>map\<close> and \<^verbatim>\<open>flatMap\<close>
  allocate their result. \<^verbatim>\<open>sort\<close> works in place: it replaces the elements of the cell
  it is called on; insertion from the right end stands for the engine's algorithm, as in
  \<open>Array_sort\<close>, and a comparator that throws ends it.
\<close>

fun each :: "(jsval \<Rightarrow> heap \<Rightarrow> error + heap) \<Rightarrow> jsval list \<Rightarrow> heap \<Rightarrow> error + heap" where
  "each f [] h = Inr h"
| "each f (x # xs) h = (case f x h of Inl e \<Rightarrow> Inl e | Inr h1 \<Rightarrow> each f xs h1)"

definition forEach :: "jsval \<Rightarrow> (jsval \<Rightarrow> heap \<Rightarrow> error + heap) \<Rightarrow> heap \<Rightarrow> error + heap" where
  "forEach arr f h = (case elems h arr of None \<Rightarrow> Inl TypeError | Some xs \<Rightarrow> each f xs h)"

fun map_list ::
  "(jsval \<Rightarrow> nat \<Rightarrow> heap \<Rightarrow> error + jsval \<times> heap) \<Rightarrow> jsval list \<Rightarrow> nat \<Rightarrow> heap \<Rightarrow>
     error + jsval list \<times> heap" where
  "map_list f [] i h = Inr ([], h)"
| "map_list f (x # xs) i h =
     (case f x i h of Inl e \<Rightarrow> Inl e
      | Inr (y, h1) \<Rightarrow>
          (case map_list f xs (Suc i) h1 of Inl e \<Rightarrow> Inl e
           | Inr (ys, h2) \<Rightarrow> Inr (y # ys, h2)))"

definition map_js ::
  "jsval \<Rightarrow> (jsval \<Rightarrow> nat \<Rightarrow> heap \<Rightarrow> error + jsval \<times> heap) \<Rightarrow> heap \<Rightarrow> error + jsval \<times> heap" where
  "map_js arr f h =
     (case elems h arr of None \<Rightarrow> Inl TypeError
      | Some xs \<Rightarrow>
          (case map_list f xs 0 h of Inl e \<Rightarrow> Inl e
           | Inr (ys, h1) \<Rightarrow> Inr (new (Array ys) h1)))"

definition flatMap_js ::
  "jsval \<Rightarrow> (jsval \<Rightarrow> nat \<Rightarrow> heap \<Rightarrow> error + jsval \<times> heap) \<Rightarrow> heap \<Rightarrow> error + jsval \<times> heap" where
  "flatMap_js arr f h =
     (case elems h arr of None \<Rightarrow> Inl TypeError
      | Some xs \<Rightarrow>
          (case map_list f xs 0 h of Inl e \<Rightarrow> Inl e
           | Inr (ys, h1) \<Rightarrow>
               Inr (new (Array (concat (map (\<lambda>y. case elems h1 y of Some zs \<Rightarrow> zs
                                                  | None \<Rightarrow> [y]) ys))) h1)))"

fun insert_js ::
  "(jsval \<Rightarrow> jsval \<Rightarrow> error + int) \<Rightarrow> jsval \<Rightarrow> jsval list \<Rightarrow> error + jsval list" where
  "insert_js cmp x [] = Inr [x]"
| "insert_js cmp x (y # ys) =
     (case cmp x y of Inl e \<Rightarrow> Inl e
      | Inr c \<Rightarrow> if c \<le> 0 then Inr (x # y # ys)
                 else (case insert_js cmp x ys of Inl e \<Rightarrow> Inl e | Inr zs \<Rightarrow> Inr (y # zs)))"

fun sort_list :: "(jsval \<Rightarrow> jsval \<Rightarrow> error + int) \<Rightarrow> jsval list \<Rightarrow> error + jsval list" where
  "sort_list cmp [] = Inr []"
| "sort_list cmp (x # xs) =
     (case sort_list cmp xs of Inl e \<Rightarrow> Inl e | Inr ys \<Rightarrow> insert_js cmp x ys)"

definition sort_js ::
  "jsval \<Rightarrow> (heap \<Rightarrow> jsval \<Rightarrow> jsval \<Rightarrow> error + int) \<Rightarrow> heap \<Rightarrow> error + heap" where
  "sort_js arr cmp h =
     (case arr of
        JRef a \<Rightarrow> (case elems h arr of None \<Rightarrow> Inl TypeError
                   | Some xs \<Rightarrow> (case sort_list (cmp h) xs of Inl e \<Rightarrow> Inl e
                                  | Inr ys \<Rightarrow> Inr (h[a := Array ys])))
      | _ \<Rightarrow> Inl TypeError)"

fun some_list :: "(jsval \<Rightarrow> error + bool) \<Rightarrow> jsval list \<Rightarrow> error + bool" where
  "some_list f [] = Inr False"
| "some_list f (x # xs) =
     (case f x of Inl e \<Rightarrow> Inl e | Inr b \<Rightarrow> if b then Inr True else some_list f xs)"

fun find_list :: "(jsval \<Rightarrow> error + bool) \<Rightarrow> jsval list \<Rightarrow> error + jsval" where
  "find_list f [] = Inr JUndefined"
| "find_list f (x # xs) =
     (case f x of Inl e \<Rightarrow> Inl e | Inr b \<Rightarrow> if b then Inr x else find_list f xs)"

definition some_js :: "jsval \<Rightarrow> (heap \<Rightarrow> jsval \<Rightarrow> error + bool) \<Rightarrow> heap \<Rightarrow> error + bool" where
  "some_js arr f h = (case elems h arr of None \<Rightarrow> Inl TypeError | Some xs \<Rightarrow> some_list (f h) xs)"

definition find_js :: "jsval \<Rightarrow> (heap \<Rightarrow> jsval \<Rightarrow> error + bool) \<Rightarrow> heap \<Rightarrow> error + jsval" where
  "find_js arr f h = (case elems h arr of None \<Rightarrow> Inl TypeError | Some xs \<Rightarrow> find_list (f h) xs)"

definition first_elem :: "heap \<Rightarrow> jsval \<Rightarrow> jsval" where
  "first_elem h arr = (case elems h arr of Some (x # _) \<Rightarrow> x | _ \<Rightarrow> JUndefined)"

text \<open>
  Numbers. \<^verbatim>\<open>Number(v)\<close> reads strings of decimal digits and gives \<^verbatim>\<open>NaN\<close> for every
  other string (the further numeral forms of JavaScript are not followed); \<open>minus_js\<close> is
  the subtraction of a comparator, and \<open>compare_result\<close> the number \<^verbatim>\<open>sort\<close> makes of
  what the comparator returns, with 0 for \<^verbatim>\<open>NaN\<close>.
\<close>

definition js_Number :: "jsval \<Rightarrow> jsval" where
  "js_Number v =
     (case v of
        JUndefined \<Rightarrow> JNaN | JNull \<Rightarrow> JNum 0 | JBool b \<Rightarrow> JNum (if b then 1 else 0)
      | JNum n \<Rightarrow> JNum n | JNaN \<Rightarrow> JNaN
      | JStr s \<Rightarrow> if list_all is_digit s then JNum (Number s) else JNaN
      | JRef a \<Rightarrow> JNaN)"

definition minus_js :: "jsval \<Rightarrow> jsval \<Rightarrow> jsval" where
  "minus_js a b =
     (case (js_Number a, js_Number b) of (JNum x, JNum y) \<Rightarrow> JNum (x - y) | _ \<Rightarrow> JNaN)"

definition compare_result :: "jsval \<Rightarrow> int" where
  "compare_result v = (case js_Number v of JNum n \<Rightarrow> n | _ \<Rightarrow> 0)"

text \<open>\<^verbatim>\<open>formatCompletionTime\<close> and \<^verbatim>\<open>member.name || `Anonymous #${member.id}`\<close> on
  values. A date made from \<^verbatim>\<open>NaN\<close> prints as \<^verbatim>\<open>Invalid Date\<close>.\<close>

definition formatCompletionTime_js :: "(int \<Rightarrow> string) \<Rightarrow> jsval \<Rightarrow> jsval" where
  "formatCompletionTime_js L ts =
     (if \<not> truthy ts then JStr []
      else JStr (case js_Number ts of JNum n \<Rightarrow> L (n * 1000) | _ \<Rightarrow> ''Invalid Date''))"

definition name_or_anonymous :: "jsval \<Rightarrow> jsval \<Rightarrow> jsval" where
  "name_or_anonymous name ident =
     (if truthy name then name else JStr (''Anonymous #'' @ interpolate ident))"

text \<open>\<^verbatim>\<open>buildLeaderboard\<close> of \<^verbatim>\<open>src/src/App.jsx\<close>: the callback of
  \<^verbatim>\<open>members.forEach\<close>, which pushes to the array \<open>rows\<close>; the comparator of the sort;
  the callback of the final \<^verbatim>\<open>map\<close>, which spreads a row into a new object with its
  rank.\<close>

definition row_callback ::
  "(int \<Rightarrow> string) \<Rightarrow> jsval \<Rightarrow> jsval \<Rightarrow> jsval \<Rightarrow> jsval \<Rightarrow> heap \<Rightarrow> error + heap" where
  "row_callback L day part rows member h =
     attempt (get h member ''completion_day_level'') (\<lambda>cdl.
       let completion = get_opt h (get_opt h cdl (interpolate day)) (interpolate part) in
       if \<not> truthy completion then Inr h
       else
         attempt (get h member ''id'') (\<lambda>ident.
         attempt (get h member ''name'') (\<lambda>name.
         attempt (get h completion ''get_star_ts'') (\<lambda>ts.
           let (row, h1) = new (Object [(''id'', ident),
                                        (''name'', name_or_anonymous name ident),
                                        (''completedAt'', formatCompletionTime_js L ts),
                                        (''timestamp'', ts)]) h
           in push rows row h1))))"

definition by_timestamp :: "heap \<Rightarrow> jsval \<Rightarrow> jsval \<Rightarrow> error + int" where
  "by_timestamp h a b =
     attempt (get h a ''timestamp'') (\<lambda>x.
     attempt (get h b ''timestamp'') (\<lambda>y. Inr (compare_result (minus_js x y))))"

definition rank_callback :: "jsval \<Rightarrow> nat \<Rightarrow> heap \<Rightarrow> error + jsval \<times> heap" where
  "rank_callback row index h =
     Inr (new (Object (set_key ''rank'' (JNum (int index + 1)) (props h row))) h)"

definition buildLeaderboard_js ::
  "(int \<Rightarrow> string) \<Rightarrow> jsval \<Rightarrow> jsval \<Rightarrow> jsval \<Rightarrow> heap \<Rightarrow> error + jsval \<times> heap" where
  "buildLeaderboard_js L leaderboard day part h =
     (if \<not> truthy leaderboard then Inr (new (Array []) h)
      else
        attempt (get h leaderboard ''members'') (\<lambda>m.
          let (ob, h1) = or_empty_object m h in
          attempt (Object_values_js ob h1) (\<lambda>(members, h2).
            let (rows, h3) = new (Array []) h2 in
            attempt (forEach members (row_callback L day part rows) h3) (\<lambda>h4.
            attempt (sort_js rows by_timestamp h4) (\<lambda>h5.
              map_js rows rank_callback h5)))))"

text \<open>\<^verbatim>\<open>findDefaultSelection\<close>.\<close>

definition keys_callback :: "jsval \<Rightarrow> nat \<Rightarrow> heap \<Rightarrow> error + jsval \<times> heap" where
  "keys_callback member index h =
     attempt (get h member ''completion_day_level'') (\<lambda>cdl.
       let (ob, h1) = or_empty_object cdl h in Object_keys_js ob h1)"

definition has_part :: "string \<Rightarrow> string \<Rightarrow> heap \<Rightarrow> jsval \<Rightarrow> error + bool" where
  "has_part firstDay part h member =
     attempt (get h member ''completion_day_level'') (\<lambda>cdl.
       Inr (truthy (get_opt h (get_opt h cdl firstDay) part)))"

definition findDefaultSelection_js :: "jsval \<Rightarrow> heap \<Rightarrow> error + jsval \<times> heap" where
  "findDefaultSelection_js leaderboard h =
     (let (ob, h1) = or_empty_object (get_opt h leaderboard ''members'') h in
      attempt (Object_values_js ob h1) (\<lambda>(members, h2).
      attempt (flatMap_js members keys_callback h2) (\<lambda>(allDays, h3).
      attempt (map_js allDays (\<lambda>d i h. Inr (js_Number d, h)) h3) (\<lambda>(nums, h4).
      attempt (sort_js nums (\<lambda>h a b. Inr (compare_result (minus_js a b))) h4) (\<lambda>h5.
        let first = first_elem h5 nums;
            firstDay = (if nullish first then ''1'' else interpolate first) in
        attempt (some_js members (has_part firstDay ''2'') h5) (\<lambda>hasPart2.
        attempt (some_js members (has_part firstDay ''1'') h5) (\<lambda>hasPart1.
          Inr (new (Object [(''day'', JStr firstDay),
                            (''part'', JStr (if hasPart2 then ''2''
                                             else if hasPart1 then ''1'' else ''1''))]) h5))))))))"

text \<open>\<^verbatim>\<open>findDefaultPlayerId\<close>. \<^verbatim>\<open>a.name.localeCompare(b.name)\<close> throws when
  \<^verbatim>\<open>a.name\<close> is not a string.\<close>

definition player_callback :: "jsval \<Rightarrow> nat \<Rightarrow> heap \<Rightarrow> error + jsval \<times> heap" where
  "player_callback member index h =
     attempt (get h member ''id'') (\<lambda>ident.
     attempt (get h member ''name'') (\<lambda>name.
       Inr (new (Object [(''id'', JStr (interpolate ident)),
                         (''name'', name_or_anonymous name ident)]) h)))"

definition by_name :: "(string \<Rightarrow> string \<Rightarrow> int) \<Rightarrow> heap \<Rightarrow> jsval \<Rightarrow> jsval \<Rightarrow> error + int" where
  "by_name localeCompare h a b =
     attempt (get h a ''name'') (\<lambda>an.
       case an of
         JStr s \<Rightarrow> attempt (get h b ''name'') (\<lambda>bn. Inr (localeCompare s (interpolate bn)))
       | _ \<Rightarrow> Inl TypeError)"

definition findDefaultPlayerId_js ::
  "(string \<Rightarrow> string \<Rightarrow> int) \<Rightarrow> jsval \<Rightarrow> heap \<Rightarrow> error + jsval \<times> heap" where
  "findDefaultPlayerId_js localeCompare leaderboard h =
     (let (ob, h1) = or_empty_object (get_opt h leaderboard ''members'') h in
      attempt (Object_values_js ob h1) (\<lambda>(members, h2).
      attempt (map_js members player_callback h2) (\<lambda>(players, h3).
      attempt (sort_js players (by_name localeCompare) h3) (\<lambda>h4.
        let ident = get_opt h4 (first_elem h4 players) ''id''
        in Inr (if nullish ident then JStr [] else ident, h4)))))"

text \<open>\<^verbatim>\<open>buildPlayerSubmissions\<close>; \<open>dayNumbers\<close> is a reference to the array of day
  keys.\<close>

definition same_id :: "jsval \<Rightarrow> heap \<Rightarrow> jsval \<Rightarrow> error + bool" where
  "same_id playerId h member =
     attempt (get h member ''id'') (\<lambda>ident. Inr (interpolate ident = interpolate playerId))"

definition submission_callback ::
  "(int \<Rightarrow> string) \<Rightarrow> jsval \<Rightarrow> jsval \<Rightarrow> jsval \<Rightarrow> jsval \<Rightarrow> heap \<Rightarrow> error + heap" where
  "submission_callback L player rows day part h =
     attempt (get h player ''completion_day_level'') (\<lambda>cdl.
       let completion = get_opt h (get_opt h cdl (interpolate day)) (interpolate part) in
       attempt (if truthy completion
                then attempt (get h completion ''get_star_ts'') (\<lambda>ts.
                       Inr (formatCompletionTime_js L ts))
                else Inr (JStr ''Not completed'')) (\<lambda>completedAt.
         let (row, h1) = new (Object [(''day'', day),
                                      (''part'', JStr (interpolate part)),
                                      (''completedAt'', completedAt)]) h
         in push rows row h1))"

definition day_callback ::
  "(int \<Rightarrow> string) \<Rightarrow> jsval \<Rightarrow> jsval \<Rightarrow> jsval \<Rightarrow> heap \<Rightarrow> error + heap" where
  "day_callback L player rows day h =
     (let (parts, h1) = new (Array [JNum 1, JNum 2]) h
      in forEach parts (submission_callback L player rows day) h1)"

definition buildPlayerSubmissions_js ::
  "(int \<Rightarrow> string) \<Rightarrow> jsval \<Rightarrow> jsval \<Rightarrow> jsval \<Rightarrow> heap \<Rightarrow> error + jsval \<times> heap" where
  "buildPlayerSubmissions_js L leaderboard playerId dayNumbers h =
     (if \<not> truthy leaderboard \<or> \<not> truthy playerId then Inr (new (Array []) h)
      else
        attempt (get h leaderboard ''members'') (\<lambda>m.
          let (ob, h1) = or_empty_object m h in
          attempt (Object_values_js ob h1) (\<lambda>(members, h2).
          attempt (find_js members (same_id playerId) h2) (\<lambda>player.
            if \<not> truthy player then Inr (new (Array []) h2)
            else
              let (rows, h3) = new (Array []) h2 in
              attempt (forEach dayNumbers (day_callback L player rows) h3) (\<lambda>h4.
                Inr (rows, h4))))))"

text \<open>\<^verbatim>\<open>computePartAvailability\<close>: \<open>ensure_day\<close> is
  \<^verbatim>\<open>availability[day] ??= { 1: false, 2: false }\<close>, and \<open>mark_part\<close> is
  \<^verbatim>\<open>if (parts[k]) availability[day][k] = true\<close>.\<close>

definition ensure_day :: "jsval \<Rightarrow> string \<Rightarrow> heap \<Rightarrow> error + heap" where
  "ensure_day availability day h =
     attempt (get h availability day) (\<lambda>current.
       if nullish current
       then (let (fresh, h1) = new (Object [(''1'', JBool False), (''2'', JBool False)]) h
             in set_prop availability day fresh h1)
       else Inr h)"

definition mark_part :: "jsval \<Rightarrow> string \<Rightarrow> jsval \<Rightarrow> string \<Rightarrow> heap \<Rightarrow> error + heap" where
  "mark_part availability day parts k h =
     attempt (get h parts k) (\<lambda>p.
       if truthy p
       then attempt (get h availability day) (\<lambda>d. set_prop d k (JBool True) h)
       else Inr h)"

definition entry_callback :: "jsval \<Rightarrow> jsval \<Rightarrow> heap \<Rightarrow> error + heap" where
  "entry_callback availability entry h =
     (let day = interpolate (own_prop h entry ''0'');
          parts = own_prop h entry ''1''
      in
        attempt (ensure_day availability day h) (\<lambda>h1.
        attempt (mark_part availability day parts ''1'' h1) (\<lambda>h2.
          mark_part availability day parts ''2'' h2)))"

definition member_callback :: "jsval \<Rightarrow> jsval \<Rightarrow> heap \<Rightarrow> error + heap" where
  "member_callback availability member h =
     attempt (get h member ''completion_day_level'') (\<lambda>cdl.
       let (ob, h1) = or_empty_object cdl h in
       attempt (Object_entries_js ob h1) (\<lambda>(entries, h2).
         forEach entries (entry_callback availability) h2))"

definition computePartAvailability_js :: "jsval \<Rightarrow> heap \<Rightarrow> error + jsval \<times> heap" where
  "computePartAvailability_js leaderboard h =
     (let (availability, h1) = new (Object []) h;
          (ob, h2) = or_empty_object (get_opt h1 leaderboard ''members'') h1
      in
        attempt (Object_values_js ob h2) (\<lambda>(members, h3).
        attempt (forEach members (member_callback availability) h3) (\<lambda>h4.
          Inr (availability, h4))))"

text \<open>
  A well-formed leaderboard in a heap: \<^verbatim>\<open>null\<close> (nothing loaded), or an object whose
  \<^verbatim>\<open>members\<close>, if there, is an object of members. A member is an object with a number as
  \<^verbatim>\<open>id\<close>, with no \<^verbatim>\<open>name\<close>, \<^verbatim>\<open>null\<close> or a string as \<^verbatim>\<open>name\<close>, and with
  \<^verbatim>\<open>completion_day_level\<close>, if there, an object from day keys to objects of completions;
  a completion is an object with a number as \<^verbatim>\<open>get_star_ts\<close>. Further properties are
  allowed everywhere.
\<close>

definition is_completion :: "heap \<Rightarrow> jsval \<Rightarrow> bool" where
  "is_completion h v =
     (case cell_at h v of
        Some (Object ps) \<Rightarrow> (case map_of ps ''get_star_ts'' of Some (JNum n) \<Rightarrow> True | _ \<Rightarrow> False)
      | _ \<Rightarrow> False)"

definition is_parts :: "heap \<Rightarrow> jsval \<Rightarrow> bool" where
  "is_parts h v =
     (case cell_at h v of
        Some (Object ps) \<Rightarrow> list_all (\<lambda>p. is_completion h (snd p)) ps
      | _ \<Rightarrow> False)"

definition is_days :: "heap \<Rightarrow> jsval \<Rightarrow> bool" where
  "is_days h v =
     (case cell_at h v of
        Some (Object ps) \<Rightarrow> list_all (\<lambda>p. day_key (fst p) \<and> is_parts h (snd p)) ps
      | _ \<Rightarrow> False)"

definition is_member :: "heap \<Rightarrow> jsval \<Rightarrow> bool" where
  "is_member h v =
     (case cell_at h v of
        Some (Object ps) \<Rightarrow>
          (case map_of ps ''id'' of Some (JNum n) \<Rightarrow> True | _ \<Rightarrow> False) \<and>
          (case map_of ps ''name'' of
             None \<Rightarrow> True | Some JNull \<Rightarrow> True | Some (JStr s) \<Rightarrow> True | _ \<Rightarrow> False) \<and>
          (case map_of ps ''completion_day_level'' of None \<Rightarrow> True | Some d \<Rightarrow> is_days h d)
      | _ \<Rightarrow> False)"

definition is_leaderboard :: "heap \<Rightarrow> jsval \<Rightarrow> bool" where
  "is_leaderboard h v =
     (v = JNull \<or>
      (case cell_at h v of
         Some (Object ps) \<Rightarrow>
           (case map_of ps ''members'' of
              None \<Rightarrow> True
            | Some m \<Rightarrow> (case cell_at h m of
                           Some (Object ms) \<Rightarrow> list_all (\<lambda>p. is_member h (snd p)) ms
                         | _ \<Rightarrow> False))
       | _ \<Rightarrow> False))"

text \<open>
  Invariants of the loops. \<open>rows_inv h0 a h\<close>: the heap \<open>h\<close> still begins with \<open>h0\<close>, and
  the cell at \<open>a\<close> is an array allocated after \<open>h0\<close>. \<open>player_ok\<close>: an object made by
  the callback of \<^verbatim>\<open>findDefaultPlayerId\<close>, whose name is a string. \<open>avail_inv h0 av h\<close>:
  \<open>h\<close> still begins with \<open>h0\<close>, and the object at \<open>av\<close> and the objects it refers to
  were allocated after \<open>h0\<close>. \<open>pair_ok\<close>: an array \<^verbatim>\<open>[key, value]\<close> of
  \<^verbatim>\<open>Object.entries\<close> whose value is an object.
\<close>

definition rows_inv :: "heap \<Rightarrow> nat \<Rightarrow> heap \<Rightarrow> bool" where
  "rows_inv h0 a h \<longleftrightarrow>
     prefix h0 h \<and> length h0 \<le> a \<and>
     (\<exists>xs. cell_at h (JRef a) = Some (Array xs) \<and> (\<forall>x \<in> set xs. \<not> nullish x))"

definition player_ok :: "heap \<Rightarrow> jsval \<Rightarrow> bool" where
  "player_ok h y \<longleftrightarrow> (\<exists>i s. cell_at h y = Some (Object [(''id'', i), (''name'', JStr s)]))"

definition avail_inv :: "heap \<Rightarrow> nat \<Rightarrow> heap \<Rightarrow> bool" where
  "avail_inv h0 av h \<longleftrightarrow>
     prefix h0 h \<and> length h0 \<le> av \<and>
     (\<exists>ps. cell_at h (JRef av) = Some (Object ps) \<and>
        (\<forall>p \<in> set ps. \<exists>b cs. snd p = JRef b \<and> length h0 \<le> b \<and> b \<noteq> av \<and>
                               cell_at h (JRef b) = Some (Object cs)))"

definition pair_ok :: "heap \<Rightarrow> jsval \<Rightarrow> bool" where
  "pair_ok h e \<longleftrightarrow> (\<exists>k x. cell_at h e = Some (Array [JStr k, x]) \<and> \<not> nullish x)"

section \<open>Example documents\<close>

text \<open>The document of the specification's example.\<close>

definition example_members :: "member obj" where
  "example_members =
     [(''1'', \<lparr>m_id = 1, m_name = Some ''Ann'',
              completion_day_level = Some
                [(''1'', [(''1'', \<lparr>get_star_ts = 1000\<rparr>), (''2'', \<lparr>get_star_ts = 2000\<rparr>)])]\<rparr>),
      (''2'', \<lparr>m_id = 2, m_name = None,
              completion_day_level = Some
                [(''1'', [(''1'', \<lparr>get_star_ts = 500\<rparr>)])]\<rparr>)]"

definition example_doc :: leaderboard where
  "example_doc = \<lparr>members = Some example_members\<rparr>"

text \<open>A document in which two members have a completion of day 1, part 1, both with
  timestamp 0.\<close>

definition tie_members :: "member obj" where
  "tie_members =
     [(''1'', \<lparr>m_id = 1, m_name = Some ''Ann'',
              completion_day_level = Some [(''1'', [(''1'', \<lparr>get_star_ts = 0\<rparr>)])]\<rparr>),
      (''2'', \<lparr>m_id = 2, m_name = Some ''Bob'',
              completion_day_level = Some [(''1'', [(''1'', \<lparr>get_star_ts = 0\<rparr>)])]\<rparr>)]"

definition tie_doc :: leaderboard where
  "tie_doc = \<lparr>members = Some tie_members\<rparr>"

text \<open>A document whose earliest day is 3, where nobody has solved part 2 of day 3.\<close>

definition day3_doc :: leaderboard where
  "day3_doc = \<lparr>members = Some
     [(''7'', \<lparr>m_id = 7, m_name = Some ''Cy'',
              completion_day_level = Some
                [(''3'', [(''1'', \<lparr>get_star_ts = 100\<rparr>)]),
                 (''10'', [(''1'', \<lparr>get_star_ts = 300\<rparr>), (''2'', \<lparr>get_star_ts = 400\<rparr>)])]\<rparr>),
      (''8'', \<lparr>m_id = 8, m_name = None, completion_day_level = Some
                [(''4'', [(''1'', \<lparr>get_star_ts = 100\<rparr>), (''2'', \<lparr>get_star_ts = 150\<rparr>)])]\<rparr>)]\<rparr>"

text \<open>
  A session: the form filled in, nothing loaded, an empty cache. \<open>first_load\<close> is a
  confirmed submit whose fetch succeeds and is stored at time 1000 (milliseconds);
  \<open>within_window\<close> a confirmed submit 899999 ms later, one millisecond short of 15
  minutes, when the network is down; \<open>after_window\<close> a confirmed submit exactly 15 minutes
  after the entry was stored, whose fetch succeeds again; \<open>declined\<close> a submit in which
  the user answers the dialog with Cancel.
\<close>

definition start_state :: app_state where
  "start_state =
     \<lparr>year = units ''2024'', leaderboardCode = units ''123456'',
      sessionToken = units ''tok'',
      selectedDay = ''1'', selectedPart = ''1'', selectedPlayerId = [], viewMode = ''days'',
      loaded = None, loading = False, error = [], cache = Map.empty\<rparr>"

definition first_load :: world where
  "first_load = \<lparr>confirmed = True, now_check = 400,
                  outcome = Responded 200 (Inr example_doc), now_store = 1000\<rparr>"

definition within_window :: world where
  "within_window = \<lparr>confirmed = True, now_check = 900999,
                     outcome = Rejected ''Failed to fetch'', now_store = 901000\<rparr>"

definition after_window :: world where
  "after_window = \<lparr>confirmed = True, now_check = 901000,
                    outcome = Responded 200 (Inr day3_doc), now_store = 901500\<rparr>"

definition declined :: world where
  "declined = \<lparr>confirmed = False, now_check = 400,
                outcome = Responded 200 (Inr example_doc), now_store = 1000\<rparr>"

text \<open>The form with the year field emptied; the form with a leaderboard code of a space,
  a no-break space and an em space; and a year check that lets the numerals 2015 to 2025
  pass.\<close>

definition no_year_state :: app_state where
  "no_year_state = start_state\<lparr>year := []\<rparr>"

definition blank_code_state :: app_state where
  "blank_code_state = start_state\<lparr>leaderboardCode := [0x0020, 0x00A0, 0x2003]\<rparr>"

definition year_2015_2025 :: "ustring \<Rightarrow> bool" where
  "year_2015_2025 y \<longleftrightarrow>
     y \<in> set (map units [''2015'', ''2016'', ''2017'', ''2018'', ''2019'', ''2020'',
                          ''2021'', ''2022'', ''2023'', ''2024'', ''2025''])"

text \<open>A request to the proxy with the three fields, as the page sends it.\<close>

definition good_post :: proxy_request where
  "good_post =
     \<lparr>req_method = ''POST'',
      req_body = Some \<lparr>b_year = JStr ''2024'', b_leaderboardCode = JStr ''123456'',
                       b_sessionToken = JStr ''tok''\<rparr>\<rparr>"

text \<open>The example document in a heap, at address 10, and the array of the day keys
  \<^verbatim>\<open>"1"\<close> and \<^verbatim>\<open>"2"\<close> at address 11.\<close>

definition example_heap :: heap where
  "example_heap =
     [Object [(''get_star_ts'', JNum 1000)],
      Object [(''get_star_ts'', JNum 2000)],
      Object [(''1'', JRef 0), (''2'', JRef 1)],
      Object [(''1'', JRef 2)],
      Object [(''id'', JNum 1), (''name'', JStr ''Ann''), (''completion_day_level'', JRef 3)],
      Object [(''get_star_ts'', JNum 500)],
      Object [(''1'', JRef 5)],
      Object [(''1'', JRef 6)],
      Object [(''id'', JNum 2), (''completion_day_level'', JRef 7)],
      Object [(''1'', JRef 4), (''2'', JRef 8)],
      Object [(''members'', JRef 9)],
      Array [JStr ''1'', JStr ''2'']]"

section \<open>Decimal numerals\<close>

lemma toString_small:
  "toString 0 = ''0''" "toString 1 = ''1''" "toString 2 = ''2''" "toString 3 = ''3''"
  "toString 400 = ''400''" "toString 404 = ''404''"
  "toString 500000 = ''500000''" "toString 1000000 = ''1000000''"
  "toString 2000000 = ''2000000''"
  by (simp_all add: toString_def digits_of.simps)

section \<open>Sorting\<close>

lemma set_insert_by: "set (insert_by cmp x ys) = insert x (set ys)"
  by (induction ys) auto

lemma length_insert_by: "length (insert_by cmp x ys) = Suc (length ys)"
  by (induction ys) auto

lemma set_Array_sort: "set (Array_sort cmp xs) = set xs"
  by (induction xs) (simp_all add: Array_sort_def set_insert_by)

lemma length_Array_sort: "length (Array_sort cmp xs) = length xs"
  by (induction xs) (simp_all add: Array_sort_def length_insert_by)

lemma sorted_insert_by_key:
  "sorted (map f ys) \<Longrightarrow> sorted (map f (insert_by (\<lambda>a b. f a - f b) x ys))"
  for f :: "'a \<Rightarrow> int"
proof (induction ys)
  case Nil
  show ?case by simp
next
  case (Cons y ys)
  show ?case
  proof (cases "f x - f y \<le> 0")
    case True
    with Cons.prems show ?thesis by auto
  next
    case False
    with Cons show ?thesis by (auto simp: set_insert_by)
  qed
qed

lemma sorted_Array_sort_key:
  "sorted (map f (Array_sort (\<lambda>a b. f a - f b) xs))"
  for f :: "'a \<Rightarrow> int"
  by (induction xs) (simp_all add: Array_sort_def sorted_insert_by_key)

text \<open>The sort is stable: the elements with one key keep their order.\<close>

lemma filter_insert_by_key:
  fixes f :: "'a \<Rightarrow> int"
  assumes "sorted (map f ys)"
  shows "filter (\<lambda>y. f y = k) (insert_by (\<lambda>a b. f a - f b) x ys) =
         (if f x = k then x # filter (\<lambda>y. f y = k) ys else filter (\<lambda>y. f y = k) ys)"
  using assms
proof (induction ys)
  case Nil
  show ?case by simp
next
  case (Cons y ys)
  show ?case
  proof (cases "f x - f y \<le> 0")
    case True
    then show ?thesis by simp
  next
    case False
    with Cons show ?thesis by auto
  qed
qed

lemma filter_Array_sort_key:
  fixes f :: "'a \<Rightarrow> int"
  shows "filter (\<lambda>y. f y = k) (Array_sort (\<lambda>a b. f a - f b) xs) = filter (\<lambda>y. f y = k) xs"
proof (induction xs)
  case Nil
  show ?case by (simp add: Array_sort_def)
next
  case (Cons x xs)
  have "Array_sort (\<lambda>a b. f a - f b) (x # xs) =
        insert_by (\<lambda>a b. f a - f b) x (Array_sort (\<lambda>a b. f a - f b) xs)"
    by (simp add: Array_sort_def)
  with Cons show ?case
    by (simp add: filter_insert_by_key sorted_Array_sort_key)
qed

section \<open>Ranked rows\<close>

lemma r_timestamp_with_rank: "r_timestamp (with_rank p) = r_timestamp (snd p)"
  by (simp add: with_rank_def row.defs ranked_row.defs)

lemma rank_with_rank: "rank (with_rank p) = fst p + 1"
  by (simp add: with_rank_def row.defs ranked_row.defs)

lemma length_rank_rows: "length (rank_rows rows) = length rows"
  by (simp add: rank_rows_def length_Array_sort)

lemma timestamps_rank_rows:
  "map r_timestamp (rank_rows rows) =
   map r_timestamp (Array_sort (\<lambda>a b. r_timestamp a - r_timestamp b) rows)"
proof -
  have "map r_timestamp (map with_rank (enumerate 0 ys)) = map r_timestamp ys" for ys
  proof -
    have "map r_timestamp (map with_rank (enumerate n ys)) = map r_timestamp ys" for n
      by (induction ys arbitrary: n) (simp_all add: r_timestamp_with_rank)
    then show ?thesis .
  qed
  then show ?thesis by (simp only: rank_rows_def)
qed

lemma sorted_rank_rows: "sorted (map r_timestamp (rank_rows rows))"
  by (simp only: timestamps_rank_rows sorted_Array_sort_key)

lemma ranks_rank_rows: "map rank (rank_rows rows) = [1..<Suc (length rows)]"
proof -
  have "map rank (map with_rank (enumerate 0 ys)) = map Suc [0..<length ys]" for ys
  proof -
    have a: "map rank (map with_rank (enumerate n ys)) = map (\<lambda>p. Suc (fst p)) (enumerate n ys)"
      for n
      by (induction ys arbitrary: n) (simp_all add: rank_with_rank)
    have b: "map (\<lambda>p. Suc (fst p)) (enumerate n ys) = map Suc (map fst (enumerate n ys))" for n
      by (simp only: map_map comp_def)
    show ?thesis
      by (simp only: a b map_fst_enumerate add_0)
  qed
  then show ?thesis
    by (simp add: rank_rows_def length_Array_sort map_Suc_upt)
qed

section \<open>Rows and their sources\<close>

lemma fold_push_row:
  "fold (push_row fmt day part) ms acc =
   acc @ concat (map (\<lambda>m. case completion_at m day part of None \<Rightarrow> []
        | Some c \<Rightarrow> [\<lparr>r_id = m_id m, r_name = display_name m,
                       r_completedAt = fmt (get_star_ts c), r_timestamp = get_star_ts c\<rparr>]) ms)"
  by (induction ms arbitrary: acc) (simp_all add: push_row_def split: option.splits)

lemma in_fold_push_row:
  "r \<in> set (fold (push_row fmt day part) ms []) \<longleftrightarrow>
   (\<exists>m \<in> set ms. \<exists>c. completion_at m day part = Some c \<and>
      r = \<lparr>r_id = m_id m, r_name = display_name m,
            r_completedAt = fmt (get_star_ts c), r_timestamp = get_star_ts c\<rparr>)"
  by (auto simp: fold_push_row split: option.splits) (metis+)

lemma in_rank_rows:
  "r \<in> set (rank_rows rows) \<Longrightarrow> \<exists>r0 \<in> set rows.
     r_id r = r_id r0 \<and> r_name r = r_name r0 \<and> r_completedAt r = r_completedAt r0 \<and> r_timestamp r = r_timestamp r0"
  apply (auto simp: rank_rows_def with_rank_def in_set_enumerate_eq  row.defs ranked_row.defs)
  by (metis nth_mem set_Array_sort)


lemma fold_push_submission:
  "fold (\<lambda>day rows. fold (push_submission L p day) [1, 2] rows) days acc =
   acc @ concat (map (\<lambda>day. [\<lparr>s_day = day, s_part = ''1'',
              s_completedAt = (case completion_at p day ''1'' of
                   Some c \<Rightarrow> formatCompletionTime L (get_star_ts c)
                 | None \<Rightarrow> ''Not completed'')\<rparr>, \<lparr>s_day = day, s_part = ''2'',
              s_completedAt = (case completion_at p day ''2'' of
                   Some c \<Rightarrow> formatCompletionTime L (get_star_ts c)
                 | None \<Rightarrow> ''Not completed'')\<rparr>]) days)"
  by (induction days arbitrary: acc) (simp_all add: push_submission_def toString_small)



lemma rank_rows_Nil: "rank_rows [] = []"
  by (simp add: rank_rows_def Array_sort_def enumerate_eq_zip)

lemma buildLeaderboard_unfold:
  "buildLeaderboard L lb day part =
     rank_rows (fold (push_row (formatCompletionTime L) day part)
                  (Object_values (members_or_empty lb)) [])"
  by (cases lb)
    (simp_all add: buildLeaderboard_def members_or_empty_def Object_values_def rank_rows_Nil)

lemma ids_of_ranked:
  "map r_id (filter (\<lambda>r. r_timestamp r = k) (map with_rank (enumerate n ys))) =
   map r_id (filter (\<lambda>r. r_timestamp r = k) ys)"
  by (induction ys arbitrary: n)
    (simp_all add: r_timestamp_with_rank with_rank_def row.defs ranked_row.defs)

lemma ids_of_rows:
  "map r_id (filter (\<lambda>r. r_timestamp r = k) (fold (push_row fmt day part) ms acc)) =
   map r_id (filter (\<lambda>r. r_timestamp r = k) acc) @
   map m_id (filter (\<lambda>m. case completion_at m day part of
                             Some c \<Rightarrow> get_star_ts c = k | None \<Rightarrow> False) ms)"
  by (induction ms arbitrary: acc) (simp_all add: push_row_def split: option.splits)

lemma buildLeaderboard_stable:
  "map r_id (filter (\<lambda>r. r_timestamp r = k) (buildLeaderboard L lb day part)) =
   map m_id (filter (\<lambda>m. case completion_at m day part of
                             Some c \<Rightarrow> get_star_ts c = k | None \<Rightarrow> False)
               (Object_values (members_or_empty lb)))"
  unfolding buildLeaderboard_unfold rank_rows_def
  by (simp only: ids_of_ranked filter_Array_sort_key ids_of_rows) simp


lemma ranked_row_source:
  assumes "r \<in> set (rank_rows (fold (push_row fmt day part) ms []))"
  shows "\<exists>m \<in> set ms. \<exists>c.
           completion_at m day part = Some c \<and> r_id r = m_id m \<and> r_name r = display_name m \<and>
           r_timestamp r = get_star_ts c \<and> r_completedAt r = fmt (get_star_ts c)"
proof -
  from assms obtain r0 where r0: "r0 \<in> set (fold (push_row fmt day part) ms [])"
    and eq: "r_id r = r_id r0" "r_name r = r_name r0" "r_completedAt r = r_completedAt r0"
      "r_timestamp r = r_timestamp r0"
    using in_rank_rows by blast
  from r0 obtain m c where "m \<in> set ms" "completion_at m day part = Some c"
    "r0 = \<lparr>r_id = m_id m, r_name = display_name m,
            r_completedAt = fmt (get_star_ts c), r_timestamp = get_star_ts c\<rparr>"
    unfolding in_fold_push_row by blast
  with eq show ?thesis by auto
qed

lemma buildPlayerSubmissions_found:
  assumes "lb = Some d" "playerId \<noteq> []"
    "find (\<lambda>m. toString (m_id m) = playerId) (Object_values (members_or_empty lb)) = Some p"
  shows "buildPlayerSubmissions L lb playerId dayNumbers =
     concat (map (\<lambda>day. [\<lparr>s_day = day, s_part = ''1'',
              s_completedAt = (case completion_at p day ''1'' of
                   Some c \<Rightarrow> formatCompletionTime L (get_star_ts c)
                 | None \<Rightarrow> ''Not completed'')\<rparr>, \<lparr>s_day = day, s_part = ''2'',
              s_completedAt = (case completion_at p day ''2'' of
                   Some c \<Rightarrow> formatCompletionTime L (get_star_ts c)
                 | None \<Rightarrow> ''Not completed'')\<rparr>]) dayNumbers)"
  using assms fold_push_submission [of L p dayNumbers "[]"]
  by (simp add: buildPlayerSubmissions_def members_or_empty_def comp_def)

lemma buildPlayerSubmissions_empty:
  assumes "lb = None \<or> playerId = [] \<or>
    find (\<lambda>m. toString (m_id m) = playerId) (Object_values (members_or_empty lb)) = None"
  shows "buildPlayerSubmissions L lb playerId dayNumbers = []"
  using assms by (cases lb) (auto simp add: buildPlayerSubmissions_def members_or_empty_def)

lemma submission_source:
  assumes "r \<in> set (buildPlayerSubmissions L lb playerId dayNumbers)"
  shows "\<exists>p. find (\<lambda>m. toString (m_id m) = playerId) (Object_values (members_or_empty lb)) = Some p \<and>
          s_day r \<in> set dayNumbers \<and> (s_part r = ''1'' \<or> s_part r = ''2'') \<and>
          s_completedAt r = (case completion_at p (s_day r) (s_part r) of
               Some c \<Rightarrow> formatCompletionTime L (get_star_ts c) | None \<Rightarrow> ''Not completed'')"
proof (cases "lb = None \<or> playerId = [] \<or>
    find (\<lambda>m. toString (m_id m) = playerId) (Object_values (members_or_empty lb)) = None")
  case True
  from buildPlayerSubmissions_empty [OF this] assms show ?thesis by simp
next
  case False
  then obtain d p where *: "lb = Some d" "playerId \<noteq> []"
    "find (\<lambda>m. toString (m_id m) = playerId) (Object_values (members_or_empty lb)) = Some p"
    by auto
  from assms show ?thesis
    unfolding buildPlayerSubmissions_found [OF *] using *(3) by auto
qed

lemma rank_rows_complete:
  assumes "r0 \<in> set rows"
  shows "\<exists>r \<in> set (rank_rows rows). r_id r = r_id r0 \<and> r_name r = r_name r0 \<and>
           r_completedAt r = r_completedAt r0 \<and> r_timestamp r = r_timestamp r0"
proof -
  let ?s = "Array_sort (\<lambda>a b. r_timestamp a - r_timestamp b) rows"
  from assms have "r0 \<in> set ?s" by (simp add: set_Array_sort)
  then obtain i where i: "i < length ?s" "?s ! i = r0" by (auto simp: in_set_conv_nth)
  then have "(i, r0) \<in> set (enumerate 0 ?s)" by (simp add: in_set_enumerate_eq)
  then have "with_rank (i, r0) \<in> set (rank_rows rows)" by (auto simp: rank_rows_def)
  then show ?thesis
    by (rule bexI [rotated]) (simp add: with_rank_def row.defs ranked_row.defs)
qed

lemma buildLeaderboard_row_source:
  assumes "r \<in> set (buildLeaderboard L lb day part)"
  shows "\<exists>m \<in> set (Object_values (members_or_empty lb)). \<exists>c.
           completion_at m day part = Some c \<and> r_id r = m_id m \<and> r_name r = display_name m \<and>
           r_timestamp r = get_star_ts c \<and>
           r_completedAt r = formatCompletionTime L (get_star_ts c)"
  using assms unfolding buildLeaderboard_unfold by (rule ranked_row_source)

section \<open>Entries of the document\<close>

lemma has_not_lacks: "has_entry m day part c \<Longrightarrow> \<not> lacks_entry m day part"
  by (auto simp add: has_entry_def lacks_entry_def split: option.splits)

lemma has_or_lacks: "lacks_entry m day part \<or> (\<exists>c. has_entry m day part c)"
  by (auto simp add: has_entry_def lacks_entry_def split: option.splits)

lemma has_entry_unique: "has_entry m day part c \<Longrightarrow> has_entry m day part c' \<Longrightarrow> c = c'"
  by (auto simp add: has_entry_def split: option.splits)


lemma day_key_plain: "day_key k \<Longrightarrow> plain_key k"
  by (auto simp add: day_key_def plain_key_def proto_names_def is_digit_def)

section \<open>The ranking of \<^verbatim>\<open>buildLeaderboard\<close>\<close>

lemma example_rows:
  "fold (push_row fmt ''1'' ''1'') (Object_values example_members) [] =
     [\<lparr>r_id = 1, r_name = ''Ann'', r_completedAt = fmt 1000, r_timestamp = 1000\<rparr>,
      \<lparr>r_id = 2, r_name = ''Anonymous #2'', r_completedAt = fmt 500, r_timestamp = 500\<rparr>]"
  by (simp add: example_members_def Object_values_def push_row_def completion_at_def
      display_name_def toString_small)

lemma example_ranked:
  "rank_rows
     [\<lparr>r_id = 1, r_name = ''Ann'', r_completedAt = a, r_timestamp = 1000\<rparr>,
      \<lparr>r_id = 2, r_name = ''Anonymous #2'', r_completedAt = b, r_timestamp = 500\<rparr>] =
     [\<lparr>r_id = 2, r_name = ''Anonymous #2'', r_completedAt = b, r_timestamp = 500, rank = 1\<rparr>,
      \<lparr>r_id = 1, r_name = ''Ann'', r_completedAt = a, r_timestamp = 1000, rank = 2\<rparr>]"
  by (simp add: rank_rows_def Array_sort_def enumerate_eq_zip with_rank_def
      row.defs ranked_row.defs)

lemma buildLeaderboard_example:
  "buildLeaderboard L (Some example_doc) ''1'' ''1'' =
     [\<lparr>r_id = 2, r_name = ''Anonymous #2'', r_completedAt = L 500000, r_timestamp = 500,
        rank = 1\<rparr>,
      \<lparr>r_id = 1, r_name = ''Ann'', r_completedAt = L 1000000, r_timestamp = 1000,
        rank = 2\<rparr>]"
proof -
  have "buildLeaderboard L (Some example_doc) ''1'' ''1'' =
        rank_rows (fold (push_row (formatCompletionTime L) ''1'' ''1'')
                     (Object_values example_members) [])"
    by (simp add: buildLeaderboard_def Let_def example_doc_def)
  then show ?thesis
    by (simp only: example_rows example_ranked) (simp add: formatCompletionTime_def)
qed

lemma buildLeaderboard_v0_example:
  "buildLeaderboard_v0 L (Some example_doc) ''1'' ''1'' =
     [\<lparr>r_id = 2, r_name = ''Anonymous #2'', r_completedAt = L 500000, r_timestamp = 500,
        rank = 1\<rparr>,
      \<lparr>r_id = 1, r_name = ''Ann'', r_completedAt = L 1000000, r_timestamp = 1000,
        rank = 2\<rparr>]"
proof -
  have "buildLeaderboard_v0 L (Some example_doc) ''1'' ''1'' =
        rank_rows (fold (push_row (formatCompletionTime_v0 L) ''1'' ''1'')
                     (Object_values example_members) [])"
    by (simp add: buildLeaderboard_v0_def Let_def example_doc_def)
  then show ?thesis
    by (simp only: example_rows example_ranked) (simp add: formatCompletionTime_v0_def)
qed

lemma buildLeaderboard_sorted:
  "sorted (map r_timestamp (buildLeaderboard L lb day part))"
  by (cases lb) (simp_all add: buildLeaderboard_def Let_def sorted_rank_rows)

lemma buildLeaderboard_ranks:
  "map rank (buildLeaderboard L lb day part) =
     [1..<Suc (length (buildLeaderboard L lb day part))]"
  by (cases lb) (simp_all add: buildLeaderboard_def Let_def ranks_rank_rows length_rank_rows)

lemma buildLeaderboard_v0_sorted:
  "sorted (map r_timestamp (buildLeaderboard_v0 L lb day part))"
  by (cases lb) (simp_all add: buildLeaderboard_v0_def Let_def sorted_rank_rows)

lemma buildLeaderboard_v0_ranks:
  "map rank (buildLeaderboard_v0 L lb day part) =
     [1..<Suc (length (buildLeaderboard_v0 L lb day part))]"
  by (cases lb) (simp_all add: buildLeaderboard_v0_def Let_def ranks_rank_rows length_rank_rows)

text \<open>
  Claim C1. For every leaderboard (loaded or not), day and part, the rows returned by
  \<^verbatim>\<open>buildLeaderboard\<close>, in either file, have non-decreasing timestamps, and the ranks of
  the rows read in order are \<open>1, 2, ..., n\<close>: the rank of a row is its 1-based position.
  On the example document, day \<^verbatim>\<open>"1"\<close> and part \<^verbatim>\<open>"1"\<close> give member 2 as
  \<^verbatim>\<open>Anonymous #2\<close> at rank 1, then member 1 as \<^verbatim>\<open>Ann\<close> at rank 2.
\<close>

theorem buildLeaderboard_sorted_ranked:
  "sorted (map r_timestamp (buildLeaderboard L lb day part)) \<and>
   map rank (buildLeaderboard L lb day part) =
     [1..<Suc (length (buildLeaderboard L lb day part))] \<and>
   sorted (map r_timestamp (buildLeaderboard_v0 L lb day part)) \<and>
   map rank (buildLeaderboard_v0 L lb day part) =
     [1..<Suc (length (buildLeaderboard_v0 L lb day part))] \<and>
   map (\<lambda>r. (r_id r, r_name r, rank r)) (buildLeaderboard L (Some example_doc) ''1'' ''1'') =
     [(2, ''Anonymous #2'', 1), (1, ''Ann'', 2)] \<and>
   map (\<lambda>r. (r_id r, r_name r, rank r)) (buildLeaderboard_v0 L (Some example_doc) ''1'' ''1'') =
     [(2, ''Anonymous #2'', 1), (1, ''Ann'', 2)]"
  by (simp only: buildLeaderboard_sorted buildLeaderboard_ranks buildLeaderboard_v0_sorted
      buildLeaderboard_v0_ranks buildLeaderboard_example buildLeaderboard_v0_example) simp

theorem buildLeaderboard_sorted_ranked_witness:
  "map r_timestamp (buildLeaderboard toString (Some example_doc) ''1'' ''1'') = [500, 1000] \<and>
   sorted [500, 1000 :: int] \<and>
   map rank (buildLeaderboard toString (Some example_doc) ''1'' ''1'') = [1, 2]"
  using buildLeaderboard_sorted_ranked [of toString "Some example_doc" "''1''" "''1''"]
  by (simp add: buildLeaderboard_example)

section \<open>Derived rows and the completions of the document\<close>


lemma example_plain_keys: "plain_key ''1''" "plain_key ''2''" "plain_key ''3''"
  by (simp_all add: plain_key_def proto_names_def)

lemma example_wf_ids: "wf_ids (Some example_doc)"
  by (simp add: wf_ids_def safe_def example_doc_def example_members_def members_or_empty_def
      Object_values_def)


section \<open>The submissions of a player\<close>

text \<open>
  Claim C5. The ids of the members are safe integers and the days of \<open>dayNumbers\<close> are
  plain keys. If the player id is empty or no member's id, as a string, equals it,
  \<^verbatim>\<open>buildPlayerSubmissions\<close> returns no row. Otherwise a member is found, the first one
  whose id equals the player id, and the result has \<open>length dayNumbers * 2\<close> rows: for
  each day of \<open>dayNumbers\<close> in order, the row of part \<^verbatim>\<open>"1"\<close> and then the row of part
  \<^verbatim>\<open>"2"\<close>. A row shows the formatted time of the completion entry that the document has
  for the found member and the row's day and part, and \<^verbatim>\<open>Not completed\<close> when the
  document has no such entry.
\<close>

theorem buildPlayerSubmissions_rows:
  assumes "wf_ids lb" and "list_all plain_key dayNumbers"
  shows "((playerId = [] \<or>
           (\<forall>m \<in> set (Object_values (members_or_empty lb)). toString (m_id m) \<noteq> playerId)) \<longrightarrow>
            buildPlayerSubmissions L lb playerId dayNumbers = []) \<and>
         (playerId \<noteq> [] \<and>
           (\<exists>m \<in> set (Object_values (members_or_empty lb)). toString (m_id m) = playerId) \<longrightarrow>
            (\<exists>p. find (\<lambda>m. toString (m_id m) = playerId)
                    (Object_values (members_or_empty lb)) = Some p \<and>
               length (buildPlayerSubmissions L lb playerId dayNumbers) =
                 length dayNumbers * 2 \<and>
               map (\<lambda>r. (s_day r, s_part r))
                   (buildPlayerSubmissions L lb playerId dayNumbers) =
                 concat (map (\<lambda>day. [(day, ''1''), (day, ''2'')]) dayNumbers) \<and>
               (\<forall>r \<in> set (buildPlayerSubmissions L lb playerId dayNumbers).
                  (lacks_entry p (s_day r) (s_part r) \<longrightarrow>
                     s_completedAt r = ''Not completed'') \<and>
                  (\<forall>c. has_entry p (s_day r) (s_part r) c \<longrightarrow>
                     s_completedAt r = formatCompletionTime L (get_star_ts c)))))"
proof (intro conjI impI)
  assume "playerId = [] \<or>
     (\<forall>m \<in> set (Object_values (members_or_empty lb)). toString (m_id m) \<noteq> playerId)"
  then have "lb = None \<or> playerId = [] \<or>
    find (\<lambda>m. toString (m_id m) = playerId) (Object_values (members_or_empty lb)) = None"
    by (auto simp: find_None_iff)
  then show "buildPlayerSubmissions L lb playerId dayNumbers = []"
    by (rule buildPlayerSubmissions_empty)
next
  assume a: "playerId \<noteq> [] \<and>
     (\<exists>m \<in> set (Object_values (members_or_empty lb)). toString (m_id m) = playerId)"
  then obtain p where p:
    "find (\<lambda>m. toString (m_id m) = playerId) (Object_values (members_or_empty lb)) = Some p"
    by (cases "find (\<lambda>m. toString (m_id m) = playerId) (Object_values (members_or_empty lb))")
      (auto simp: find_None_iff)
  from a obtain d where d: "lb = Some d"
    by (cases lb) (auto simp: members_or_empty_def Object_values_def)
  from a have n: "playerId \<noteq> []" by simp
  note eq = buildPlayerSubmissions_found [OF d n p, of L dayNumbers]
  have len: "length (buildPlayerSubmissions L lb playerId dayNumbers) = length dayNumbers * 2"
    unfolding eq by (induction dayNumbers) simp_all
  have keys: "map (\<lambda>r. (s_day r, s_part r)) (buildPlayerSubmissions L lb playerId dayNumbers) =
           concat (map (\<lambda>day. [(day, ''1''), (day, ''2'')]) dayNumbers)"
    unfolding eq by (induction dayNumbers) simp_all
  have cells: "\<forall>r \<in> set (buildPlayerSubmissions L lb playerId dayNumbers).
      (lacks_entry p (s_day r) (s_part r) \<longrightarrow> s_completedAt r = ''Not completed'') \<and>
      (\<forall>c. has_entry p (s_day r) (s_part r) c \<longrightarrow>
         s_completedAt r = formatCompletionTime L (get_star_ts c))"
  proof
    fix r assume "r \<in> set (buildPlayerSubmissions L lb playerId dayNumbers)"
    from submission_source [OF this] p
    have t: "s_completedAt r = (case completion_at p (s_day r) (s_part r) of
               Some c \<Rightarrow> formatCompletionTime L (get_star_ts c) | None \<Rightarrow> ''Not completed'')"
      by simp
    have look: "(completion_at p (s_day r) (s_part r) = Some c) = has_entry p (s_day r) (s_part r) c"
      for c
      by (simp add: completion_at_def has_entry_def split: option.splits)
    have none: "(completion_at p (s_day r) (s_part r) = None) = lacks_entry p (s_day r) (s_part r)"
      by (simp add: completion_at_def lacks_entry_def split: option.splits)
    have x: "s_completedAt r = ''Not completed''" if "lacks_entry p (s_day r) (s_part r)"
      using that t by (simp add: none [symmetric])
    have y: "s_completedAt r = formatCompletionTime L (get_star_ts c)"
      if "has_entry p (s_day r) (s_part r) c" for c
      using that t by (simp add: look [symmetric])
    from x y
    show "(lacks_entry p (s_day r) (s_part r) \<longrightarrow> s_completedAt r = ''Not completed'') \<and>
      (\<forall>c. has_entry p (s_day r) (s_part r) c \<longrightarrow>
         s_completedAt r = formatCompletionTime L (get_star_ts c))"
      by blast
  qed
  show "\<exists>p. find (\<lambda>m. toString (m_id m) = playerId)
              (Object_values (members_or_empty lb)) = Some p \<and>
         length (buildPlayerSubmissions L lb playerId dayNumbers) = length dayNumbers * 2 \<and>
         map (\<lambda>r. (s_day r, s_part r)) (buildPlayerSubmissions L lb playerId dayNumbers) =
           concat (map (\<lambda>day. [(day, ''1''), (day, ''2'')]) dayNumbers) \<and>
         (\<forall>r \<in> set (buildPlayerSubmissions L lb playerId dayNumbers).
            (lacks_entry p (s_day r) (s_part r) \<longrightarrow> s_completedAt r = ''Not completed'') \<and>
            (\<forall>c. has_entry p (s_day r) (s_part r) c \<longrightarrow>
               s_completedAt r = formatCompletionTime L (get_star_ts c)))"
    by (rule exI [of _ p]) (rule conjI [OF p conjI [OF len conjI [OF keys cells]]])
qed

text \<open>On the example document, with the milliseconds printed as the formatted time:
  member 1 has both parts of day 1 and nothing of day 2.\<close>

theorem buildPlayerSubmissions_rows_witness:
  "wf_ids (Some example_doc) \<and> list_all plain_key [''1'', ''2''] \<and>
   (\<exists>m \<in> set (Object_values (members_or_empty (Some example_doc))). toString (m_id m) = ''1'') \<and>
   find (\<lambda>m. toString (m_id m) = ''1'')
     (Object_values (members_or_empty (Some example_doc))) = Some (snd (example_members ! 0)) \<and>
   has_entry (snd (example_members ! 0)) ''1'' ''1'' \<lparr>get_star_ts = 1000\<rparr> \<and>
   has_entry (snd (example_members ! 0)) ''1'' ''2'' \<lparr>get_star_ts = 2000\<rparr> \<and>
   lacks_entry (snd (example_members ! 0)) ''2'' ''1'' \<and>
   lacks_entry (snd (example_members ! 0)) ''2'' ''2'' \<and>
   buildPlayerSubmissions toString (Some example_doc) ''1'' [''1'', ''2''] =
     [\<lparr>s_day = ''1'', s_part = ''1'', s_completedAt = ''1000000''\<rparr>,
      \<lparr>s_day = ''1'', s_part = ''2'', s_completedAt = ''2000000''\<rparr>,
      \<lparr>s_day = ''2'', s_part = ''1'', s_completedAt = ''Not completed''\<rparr>,
      \<lparr>s_day = ''2'', s_part = ''2'', s_completedAt = ''Not completed''\<rparr>] \<and>
   length (buildPlayerSubmissions toString (Some example_doc) ''1'' [''1'', ''2'']) = 4 \<and>
   buildPlayerSubmissions toString (Some example_doc) ''3'' [''1'', ''2''] = [] \<and>
   buildPlayerSubmissions toString (Some example_doc) [] [''1'', ''2''] = []"
proof -
  have k: "list_all plain_key [''1'', ''2'']" by (simp add: example_plain_keys)
  have m: "\<exists>m \<in> set (Object_values (members_or_empty (Some example_doc))).
      toString (m_id m) = ''1''"
    by (simp add: example_doc_def example_members_def members_or_empty_def Object_values_def
        toString_small)
  have f: "find (\<lambda>m. toString (m_id m) = ''1'')
     (Object_values (members_or_empty (Some example_doc))) = Some (snd (example_members ! 0))"
    by (simp add: example_doc_def example_members_def members_or_empty_def Object_values_def
        toString_small)
  have e: "has_entry (snd (example_members ! 0)) ''1'' ''1'' \<lparr>get_star_ts = 1000\<rparr>"
    "has_entry (snd (example_members ! 0)) ''1'' ''2'' \<lparr>get_star_ts = 2000\<rparr>"
    "lacks_entry (snd (example_members ! 0)) ''2'' ''1''"
    "lacks_entry (snd (example_members ! 0)) ''2'' ''2''"
    by (simp_all add: example_members_def has_entry_def lacks_entry_def)
  have r: "buildPlayerSubmissions toString (Some example_doc) ''1'' [''1'', ''2''] =
     [\<lparr>s_day = ''1'', s_part = ''1'', s_completedAt = ''1000000''\<rparr>,
      \<lparr>s_day = ''1'', s_part = ''2'', s_completedAt = ''2000000''\<rparr>,
      \<lparr>s_day = ''2'', s_part = ''1'', s_completedAt = ''Not completed''\<rparr>,
      \<lparr>s_day = ''2'', s_part = ''2'', s_completedAt = ''Not completed''\<rparr>]"
    by (simp add: buildPlayerSubmissions_def example_doc_def example_members_def
        Object_values_def push_submission_def completion_at_def formatCompletionTime_def
        toString_small)
  have n3: "\<forall>m \<in> set (Object_values (members_or_empty (Some example_doc))).
      toString (m_id m) \<noteq> ''3''"
    by (simp add: example_doc_def example_members_def members_or_empty_def Object_values_def
        toString_small)
  note t = buildPlayerSubmissions_rows [OF example_wf_ids k, where L = toString]
  from t [of "''1''"] m have len:
    "length (buildPlayerSubmissions toString (Some example_doc) ''1'' [''1'', ''2'']) = 4"
    by auto
  from t [of "''3''"] n3
  have r3: "buildPlayerSubmissions toString (Some example_doc) ''3'' [''1'', ''2''] = []"
    by blast
  from t [of "[]"]
  have r0: "buildPlayerSubmissions toString (Some example_doc) [] [''1'', ''2''] = []"
    by blast
  from example_wf_ids k m f e r len r3 r0 show ?thesis by (intro conjI)
qed

section \<open>A completion with timestamp 0\<close>

text \<open>
  Claim C9, as amended. For a member whose completion for the requested day and part has
  \<^verbatim>\<open>get_star_ts\<close> equal to 0, \<^verbatim>\<open>buildLeaderboard\<close> of \<^verbatim>\<open>src/src/App.jsx\<close> returns a row
  with that member's id and name, the empty string as \<^verbatim>\<open>completedAt\<close> and 0 as
  \<^verbatim>\<open>timestamp\<close>. Every row with timestamp 0 stands before every row with a positive
  timestamp, and when no row has a negative timestamp the row at rank 1 has timestamp 0
  and an empty \<^verbatim>\<open>completedAt\<close>. The rows with timestamp 0 stand in the order in which
  \<^verbatim>\<open>Object.values\<close> enumerates their members (the sort is stable), so the row of the
  member need not be the first one.
\<close>

theorem zero_timestamp_row:
  assumes "m \<in> set (Object_values (members_or_empty lb))"
    and "completion_at m day part = Some c" and "get_star_ts c = 0"
  shows "(\<exists>r \<in> set (buildLeaderboard L lb day part).
            r_id r = m_id m \<and> r_name r = display_name m \<and> r_completedAt r = [] \<and>
            r_timestamp r = 0) \<and>
         (\<forall>i j. i < length (buildLeaderboard L lb day part) \<and>
                j < length (buildLeaderboard L lb day part) \<and>
                r_timestamp (buildLeaderboard L lb day part ! i) = 0 \<and>
                0 < r_timestamp (buildLeaderboard L lb day part ! j) \<longrightarrow> i < j) \<and>
         ((\<forall>r \<in> set (buildLeaderboard L lb day part). 0 \<le> r_timestamp r) \<longrightarrow>
            r_timestamp (hd (buildLeaderboard L lb day part)) = 0 \<and>
            r_completedAt (hd (buildLeaderboard L lb day part)) = [] \<and>
            rank (hd (buildLeaderboard L lb day part)) = 1) \<and>
         map r_id (filter (\<lambda>r. r_timestamp r = 0) (buildLeaderboard L lb day part)) =
           map m_id (filter (\<lambda>m. case completion_at m day part of
                                     Some c \<Rightarrow> get_star_ts c = 0 | None \<Rightarrow> False)
                       (Object_values (members_or_empty lb)))"
proof -
  let ?rs = "buildLeaderboard L lb day part"
  let ?r0 = "\<lparr>r_id = m_id m, r_name = display_name m,
      r_completedAt = formatCompletionTime L (get_star_ts c), r_timestamp = get_star_ts c\<rparr>"
  from assms(1,2) have "?r0 \<in> set (fold (push_row (formatCompletionTime L) day part)
      (Object_values (members_or_empty lb)) [])"
    unfolding in_fold_push_row by blast
  from rank_rows_complete [OF this] assms(3)
  have a: "\<exists>r \<in> set ?rs. r_id r = m_id m \<and> r_name r = display_name m \<and>
      r_completedAt r = [] \<and> r_timestamp r = 0"
    unfolding buildLeaderboard_unfold by (simp add: formatCompletionTime_def)
  have s: "sorted (map r_timestamp ?rs)" by (rule buildLeaderboard_sorted)
  have b: "i < j" if "i < length ?rs" "j < length ?rs" "r_timestamp (?rs ! i) = 0"
    "0 < r_timestamp (?rs ! j)" for i j
  proof (rule ccontr)
    assume "\<not> i < j"
    then have "j \<le> i" by simp
    with s that(1) have "map r_timestamp ?rs ! j \<le> map r_timestamp ?rs ! i"
      by (simp add: sorted_iff_nth_mono del: nth_map)
    with that show False by simp
  qed
  have c: "r_timestamp (hd ?rs) = 0 \<and> r_completedAt (hd ?rs) = [] \<and> rank (hd ?rs) = 1"
    if nn: "\<forall>r \<in> set ?rs. 0 \<le> r_timestamp r"
  proof -
    from a obtain r where r: "r \<in> set ?rs" "r_timestamp r = 0" by blast
    then have ne: "?rs \<noteq> []" by auto
    then have hd_in: "hd ?rs \<in> set ?rs" by simp
    from ne s r have "r_timestamp (hd ?rs) \<le> 0"
      by (cases ?rs) auto
    with nn hd_in have z: "r_timestamp (hd ?rs) = 0" by force
    from buildLeaderboard_row_source [OF hd_in]
    obtain c' :: completion where "r_timestamp (hd ?rs) = get_star_ts c'"
      "r_completedAt (hd ?rs) = formatCompletionTime L (get_star_ts c')"
      by blast
    with z have e: "r_completedAt (hd ?rs) = []" by (simp add: formatCompletionTime_def)
    from ne have "rank (hd ?rs) = hd (map rank ?rs)" by (simp add: hd_map)
    also have "\<dots> = hd [1..<Suc (length ?rs)]"
      by (simp only: buildLeaderboard_ranks [symmetric])
    also have "\<dots> = 1"
    proof (rule hd_upt)
      from ne show "1 < Suc (length ?rs)" by (cases ?rs) simp_all
    qed
    finally have "rank (hd ?rs) = 1" .
    with z e show ?thesis by simp
  qed
  have d: "map r_id (filter (\<lambda>r. r_timestamp r = 0) ?rs) =
           map m_id (filter (\<lambda>m. case completion_at m day part of
                                     Some c \<Rightarrow> get_star_ts c = 0 | None \<Rightarrow> False)
                       (Object_values (members_or_empty lb)))"
    by (rule buildLeaderboard_stable)
  from b have b': "\<forall>i j. i < length ?rs \<and> j < length ?rs \<and> r_timestamp (?rs ! i) = 0 \<and>
      0 < r_timestamp (?rs ! j) \<longrightarrow> i < j"
    by blast
  from c have c': "(\<forall>r \<in> set ?rs. 0 \<le> r_timestamp r) \<longrightarrow>
      r_timestamp (hd ?rs) = 0 \<and> r_completedAt (hd ?rs) = [] \<and> rank (hd ?rs) = 1"
    by blast
  show ?thesis
    by (rule conjI [OF a conjI [OF b' conjI [OF c' d]]])
qed

theorem zero_timestamp_row_witness:
  "snd (tie_members ! 1) \<in> set (Object_values (members_or_empty (Some tie_doc))) \<and>
   completion_at (snd (tie_members ! 1)) ''1'' ''1'' = Some \<lparr>get_star_ts = 0\<rparr> \<and>
   (\<exists>r \<in> set (buildLeaderboard toString (Some tie_doc) ''1'' ''1'').
      r_id r = 2 \<and> r_name r = ''Bob'' \<and> r_completedAt r = [] \<and> r_timestamp r = 0)"
proof -
  have a: "snd (tie_members ! 1) \<in> set (Object_values (members_or_empty (Some tie_doc)))"
    by (simp add: tie_doc_def tie_members_def members_or_empty_def Object_values_def)
  have b: "completion_at (snd (tie_members ! 1)) ''1'' ''1'' = Some \<lparr>get_star_ts = 0\<rparr>"
    by (simp add: tie_members_def completion_at_def)
  have c: "get_star_ts \<lparr>get_star_ts = 0\<rparr> = 0" by simp
  have d: "m_id (snd (tie_members ! 1)) = 2" "display_name (snd (tie_members ! 1)) = ''Bob''"
    by (simp_all add: tie_members_def display_name_def)
  from zero_timestamp_row [OF a b c, of toString, THEN conjunct1] a b show ?thesis
    unfolding d by blast
qed

text \<open>The claim as it is written fails on \<open>tie_doc\<close>: the completion of member 2 has
  timestamp 0, and its row is the second one.\<close>

theorem zero_timestamp_not_first_counterexample:
  "map (\<lambda>r. (r_id r, r_completedAt r, r_timestamp r, rank r))
       (buildLeaderboard toString (Some tie_doc) ''1'' ''1'') =
     [(1, [], 0, 1), (2, [], 0, 2)]"
  by (simp add: buildLeaderboard_unfold members_or_empty_def tie_doc_def tie_members_def
        Object_values_def push_row_def completion_at_def display_name_def
        formatCompletionTime_def rank_rows_def Array_sort_def enumerate_eq_zip with_rank_def
        row.defs ranked_row.defs)

section \<open>The default selection\<close>

text \<open>Decimal numerals: \<^verbatim>\<open>Number\<close> followed by \<^verbatim>\<open>toString\<close> gives a day key back.\<close>

lemma digit_facts:
  assumes "is_digit c"
  shows "0 \<le> digit_val c" "digit_val c < 10" "''0123456789'' ! nat (digit_val c) = c"
    "(digit_val c = 0) = (c = CHR ''0'')"
  using assms by (auto simp: is_digit_def digit_val_def)

lemma Number_snoc: "Number (s @ [c]) = 10 * Number s + digit_val c"
  by (simp add: Number_def)

lemma digits_of_step:
  assumes "0 < n" "d < 10"
  shows "digits_of (10 * n + d) = digits_of n @ [''0123456789'' ! d]"
  using assms by (subst digits_of.simps) simp

lemma day_key_roundtrip: "day_key s \<Longrightarrow> 0 < Number s \<and> digits_of (nat (Number s)) = s"
proof (induction s rule: rev_induct)
  case Nil
  then show ?case by (simp add: day_key_def)
next
  case (snoc c s)
  from snoc.prems have c: "is_digit c" by (simp add: day_key_def)
  show ?case
  proof (cases "s = []")
    case True
    with snoc.prems have "c \<noteq> CHR ''0''" by (simp add: day_key_def)
    with c digit_facts [OF c] have "0 < digit_val c" by simp
    with digit_facts [OF c] True show ?thesis
      by (simp add: Number_def digits_of.simps [of "nat (digit_val c)"])
  next
    case False
    with snoc.prems have "day_key s" by (simp add: day_key_def)
    with snoc.IH have ih: "0 < Number s" "digits_of (nat (Number s)) = s" by simp_all
    have "nat (Number (s @ [c])) = 10 * nat (Number s) + nat (digit_val c)"
      using ih(1) digit_facts(1) [OF c] by (simp add: Number_snoc nat_add_distrib nat_mult_distrib)
    moreover have "digits_of (10 * nat (Number s) + nat (digit_val c)) =
        digits_of (nat (Number s)) @ [''0123456789'' ! nat (digit_val c)]"
      using ih(1) digit_facts(2) [OF c] by (intro digits_of_step) simp_all
    ultimately show ?thesis
      using ih digit_facts [OF c] by (simp add: Number_snoc)
  qed
qed

lemma toString_Number: "day_key s \<Longrightarrow> toString (Number s) = s"
  using day_key_roundtrip [of s] by (simp add: toString_def)

lemma sorted_numeric: "sorted (Array_sort (\<lambda>a b. a - b) (xs :: int list))"
  using sorted_Array_sort_key [of "\<lambda>x. x" xs] by simp

lemma hd_sorted_numeric:
  assumes "Array_sort (\<lambda>a b. a - b) (xs :: int list) = n # rest"
  shows "n \<in> set xs" "\<forall>x \<in> set xs. n \<le> x"
proof -
  have "set (n # rest) = set xs" unfolding assms [symmetric] by (rule set_Array_sort)
  moreover have "sorted (n # rest)" unfolding assms [symmetric] by (rule sorted_numeric)
  ultimately show "n \<in> set xs" "\<forall>x \<in> set xs. n \<le> x" by auto
qed


lemma findDefaultSelection_day:
  "sel_day (findDefaultSelection lb) =
     (case Array_sort (\<lambda>a b. a - b) (map Number (all_day_keys lb)) of
        [] \<Rightarrow> ''1'' | n # _ \<Rightarrow> toString n)"
  by (simp add: findDefaultSelection_def Let_def all_day_keys_def)

lemma findDefaultSelection_part:
  "sel_part (findDefaultSelection lb) =
     (if \<exists>m \<in> set (Object_values (members_or_empty lb)).
           completion_at m (sel_day (findDefaultSelection lb)) ''2'' \<noteq> None
      then ''2'' else ''1'')"
  by (simp add: findDefaultSelection_def Let_def list_ex_iff)

lemma findDefaultSelection_no_days:
  assumes "all_day_keys lb = []"
  shows "sel_day (findDefaultSelection lb) = ''1''"
  using assms by (simp add: findDefaultSelection_day Array_sort_def)

lemma wf_days_key:
  assumes "wf_days lb" "k \<in> set (all_day_keys lb)"
  shows "day_key k"
  using assms by (simp add: wf_days_def day_number_def list_all_iff)

lemma findDefaultSelection_min_day:
  assumes "wf_days lb" "all_day_keys lb \<noteq> []"
  shows "sel_day (findDefaultSelection lb) \<in> set (all_day_keys lb) \<and>
         (\<forall>k \<in> set (all_day_keys lb). Number (sel_day (findDefaultSelection lb)) \<le> Number k)"
proof -
  let ?ns = "map Number (all_day_keys lb)"
  from assms(2) have "length (Array_sort (\<lambda>a b. a - b) ?ns) \<noteq> 0"
    by (simp add: length_Array_sort)
  then obtain n rest where srt: "Array_sort (\<lambda>a b. a - b) ?ns = n # rest"
    by (cases "Array_sort (\<lambda>a b. a - b) ?ns") auto
  from hd_sorted_numeric [OF srt] obtain k where k: "k \<in> set (all_day_keys lb)" "n = Number k"
    and least: "\<forall>x \<in> set ?ns. n \<le> x"
    by auto
  from assms(1) k(1) have "day_key k" by (rule wf_days_key)
  then have "toString n = k" unfolding k(2) by (rule toString_Number)
  moreover have "sel_day (findDefaultSelection lb) = toString n"
    by (simp add: findDefaultSelection_day srt)
  ultimately show ?thesis using k least by simp
qed

lemma findDefaultSelection_day_is:
  assumes "wf_days lb" "k \<in> set (all_day_keys lb)" "day_key k"
    and "\<forall>j \<in> set (all_day_keys lb). Number k \<le> Number j"
  shows "sel_day (findDefaultSelection lb) = k"
proof -
  let ?d = "sel_day (findDefaultSelection lb)"
  from assms(2) have ne: "all_day_keys lb \<noteq> []" by auto
  from findDefaultSelection_min_day [OF assms(1) ne]
  have d: "?d \<in> set (all_day_keys lb)" "\<forall>j \<in> set (all_day_keys lb). Number ?d \<le> Number j"
    by simp_all
  from d(2) assms(2) have "Number ?d \<le> Number k" by simp
  moreover from assms(4) d(1) have "Number k \<le> Number ?d" by simp
  ultimately have "Number ?d = Number k" by simp
  moreover from assms(1) d(1) have "day_key ?d" by (rule wf_days_key)
  ultimately have "?d = toString (Number k)" using toString_Number [of ?d] by simp
  with assms(3) show ?thesis by (simp add: toString_Number)
qed

text \<open>
  Claim C4. On a document whose day keys are day numbers, \<^verbatim>\<open>findDefaultSelection\<close>
  returns \<^verbatim>\<open>"1"\<close> as day when no member has a day key, and otherwise a day key of the
  document whose number is the least of all; the part is \<^verbatim>\<open>"2"\<close> if the document has a
  completion entry of some member for part 2 of that day, and \<^verbatim>\<open>"1"\<close> if not. In
  particular, when \<^verbatim>\<open>"3"\<close> is a day key, no day key is numerically smaller and every
  member lacks the entry for part 2 of day 3, the result is day \<^verbatim>\<open>"3"\<close>, part \<^verbatim>\<open>"1"\<close>;
  and when \<^verbatim>\<open>"1"\<close> is a day key and some member has the entry for part 2 of day 1, the
  result is day \<^verbatim>\<open>"1"\<close>, part \<^verbatim>\<open>"2"\<close>.
\<close>

theorem findDefaultSelection_earliest:
  assumes "wf_days lb"
  shows "(all_day_keys lb = [] \<longrightarrow> sel_day (findDefaultSelection lb) = ''1'') \<and>
         (all_day_keys lb \<noteq> [] \<longrightarrow>
            sel_day (findDefaultSelection lb) \<in> set (all_day_keys lb) \<and>
            (\<forall>k \<in> set (all_day_keys lb).
               Number (sel_day (findDefaultSelection lb)) \<le> Number k)) \<and>
         sel_part (findDefaultSelection lb) =
           (if \<exists>m \<in> set (Object_values (members_or_empty lb)).
                 \<exists>c. has_entry m (sel_day (findDefaultSelection lb)) ''2'' c
            then ''2'' else ''1'') \<and>
         (''3'' \<in> set (all_day_keys lb) \<and> (\<forall>k \<in> set (all_day_keys lb). 3 \<le> Number k) \<and>
          (\<forall>m \<in> set (Object_values (members_or_empty lb)). lacks_entry m ''3'' ''2'') \<longrightarrow>
            findDefaultSelection lb = \<lparr>sel_day = ''3'', sel_part = ''1''\<rparr>) \<and>
         (''1'' \<in> set (all_day_keys lb) \<and>
          (\<exists>m \<in> set (Object_values (members_or_empty lb)). \<exists>c. has_entry m ''1'' ''2'' c) \<longrightarrow>
            findDefaultSelection lb = \<lparr>sel_day = ''1'', sel_part = ''2''\<rparr>)"
proof -
  have look: "(completion_at m d ''2'' \<noteq> None) = (\<exists>c. has_entry m d ''2'' c)" for m d
    by (simp add: completion_at_def has_entry_def split: option.splits)
  have sel: "sel_part (findDefaultSelection lb) =
           (if \<exists>m \<in> set (Object_values (members_or_empty lb)).
                 \<exists>c. has_entry m (sel_day (findDefaultSelection lb)) ''2'' c
            then ''2'' else ''1'')"
    by (simp only: findDefaultSelection_part look)
  show ?thesis
  proof (intro conjI impI)
  assume "all_day_keys lb = []"
  then show "sel_day (findDefaultSelection lb) = ''1''" by (rule findDefaultSelection_no_days)
next
  assume "all_day_keys lb \<noteq> []"
  with assms show "sel_day (findDefaultSelection lb) \<in> set (all_day_keys lb)"
    "\<forall>k \<in> set (all_day_keys lb). Number (sel_day (findDefaultSelection lb)) \<le> Number k"
    using findDefaultSelection_min_day by blast+
next
  show "sel_part (findDefaultSelection lb) =
           (if \<exists>m \<in> set (Object_values (members_or_empty lb)).
                 \<exists>c. has_entry m (sel_day (findDefaultSelection lb)) ''2'' c
            then ''2'' else ''1'')"
    by (rule sel)
next
  assume a: "''3'' \<in> set (all_day_keys lb) \<and> (\<forall>k \<in> set (all_day_keys lb). 3 \<le> Number k) \<and>
          (\<forall>m \<in> set (Object_values (members_or_empty lb)). lacks_entry m ''3'' ''2'')"
  have three: "Number ''3'' = 3" "day_key ''3''"
    by (simp_all add: Number_def digit_val_def day_key_def is_digit_def)
  from a have "\<forall>j \<in> set (all_day_keys lb). Number ''3'' \<le> Number j" by (simp add: three)
  with a have day: "sel_day (findDefaultSelection lb) = ''3''"
    by (intro findDefaultSelection_day_is assms three) simp_all
  from a have "\<not> (\<exists>m \<in> set (Object_values (members_or_empty lb)). \<exists>c. has_entry m ''3'' ''2'' c)"
    using has_not_lacks by blast
  then have "sel_part (findDefaultSelection lb) = ''1''"
    by (simp add: sel day)
  with day show "findDefaultSelection lb = \<lparr>sel_day = ''3'', sel_part = ''1''\<rparr>"
    by (cases "findDefaultSelection lb") simp
next
  assume a: "''1'' \<in> set (all_day_keys lb) \<and>
          (\<exists>m \<in> set (Object_values (members_or_empty lb)). \<exists>c. has_entry m ''1'' ''2'' c)"
  have one: "Number ''1'' = 1" "day_key ''1''"
    by (simp_all add: Number_def digit_val_def day_key_def is_digit_def)
  have "Number ''1'' \<le> Number j" if "j \<in> set (all_day_keys lb)" for j
  proof -
    from assms that have "day_key j" by (rule wf_days_key)
    then have "0 < Number j" using day_key_roundtrip by blast
    then show ?thesis by (simp add: one)
  qed
  with a have day: "sel_day (findDefaultSelection lb) = ''1''"
    by (intro findDefaultSelection_day_is assms one) simp_all
  with a have "sel_part (findDefaultSelection lb) = ''2''"
    by (simp add: sel)
  with day show "findDefaultSelection lb = \<lparr>sel_day = ''1'', sel_part = ''2''\<rparr>"
    by (cases "findDefaultSelection lb") simp
qed
qed

text \<open>On the document whose earliest day is 3, and on the example document, where member 1
  has part 2 of day 1.\<close>

theorem findDefaultSelection_earliest_witness:
  "wf_days (Some day3_doc) \<and> all_day_keys (Some day3_doc) = [''3'', ''10'', ''4''] \<and>
   findDefaultSelection (Some day3_doc) = \<lparr>sel_day = ''3'', sel_part = ''1''\<rparr> \<and>
   wf_days (Some example_doc) \<and> all_day_keys (Some example_doc) = [''1'', ''1''] \<and>
   has_entry (snd (example_members ! 0)) ''1'' ''2'' \<lparr>get_star_ts = 2000\<rparr> \<and>
   findDefaultSelection (Some example_doc) = \<lparr>sel_day = ''1'', sel_part = ''2''\<rparr> \<and>
   map (\<lambda>d. sel_part (findDefaultSelection (Some d))) [day3_doc, example_doc] = [''1'', ''2'']"
proof -
  have n: "Number ''3'' = 3" "Number ''10'' = 10" "Number ''4'' = 4" "Number ''1'' = 1"
    by (simp_all add: Number_def digit_val_def)
  have v: "map (\<lambda>d. sel_part (findDefaultSelection (Some d))) [day3_doc, example_doc] =
      [''1'', ''2'']"
    by (simp add: findDefaultSelection_def Let_def day3_doc_def example_doc_def
        example_members_def members_or_empty_def Object_values_def Object_keys_def n
        Array_sort_def toString_small completion_at_def)
  have k: "all_day_keys (Some day3_doc) = [''3'', ''10'', ''4'']"
    by (simp add: all_day_keys_def day3_doc_def members_or_empty_def Object_values_def
        Object_keys_def)
  have wf: "wf_days (Some day3_doc)"
    by (simp add: wf_days_def k day_number_def day_key_def is_digit_def safe_def Number_def
        digit_val_def)
  have h: "''3'' \<in> set (all_day_keys (Some day3_doc)) \<and>
      (\<forall>k \<in> set (all_day_keys (Some day3_doc)). 3 \<le> Number k) \<and>
      (\<forall>m \<in> set (Object_values (members_or_empty (Some day3_doc))).
         lacks_entry m ''3'' ''2'')"
    unfolding k
    by (simp add: Number_def digit_val_def day3_doc_def members_or_empty_def Object_values_def
        lacks_entry_def)
  have k1: "all_day_keys (Some example_doc) = [''1'', ''1'']"
    by (simp add: all_day_keys_def example_doc_def example_members_def members_or_empty_def
        Object_values_def Object_keys_def)
  have wf1: "wf_days (Some example_doc)"
    by (simp add: wf_days_def k1 day_number_def day_key_def is_digit_def safe_def Number_def
        digit_val_def)
  have e: "has_entry (snd (example_members ! 0)) ''1'' ''2'' \<lparr>get_star_ts = 2000\<rparr>"
    by (simp add: example_members_def has_entry_def)
  have h1: "''1'' \<in> set (all_day_keys (Some example_doc)) \<and>
      (\<exists>m \<in> set (Object_values (members_or_empty (Some example_doc))).
         \<exists>c. has_entry m ''1'' ''2'' c)"
    unfolding k1
    by (simp add: example_doc_def example_members_def members_or_empty_def Object_values_def
        has_entry_def)
  from findDefaultSelection_earliest [OF wf] h
  have r: "findDefaultSelection (Some day3_doc) = \<lparr>sel_day = ''3'', sel_part = ''1''\<rparr>"
    by blast
  from findDefaultSelection_earliest [OF wf1] h1
  have r1: "findDefaultSelection (Some example_doc) = \<lparr>sel_day = ''1'', sel_part = ''2''\<rparr>"
    by blast
  from wf k r wf1 k1 e r1 v show ?thesis by (intro conjI)
qed

section \<open>The two files agree\<close>

text \<open>
  Claim C10. \<^verbatim>\<open>findDefaultSelection\<close> of \<^verbatim>\<open>src/unnamed/part_000\<close> and of
  \<^verbatim>\<open>src/src/App.jsx\<close> return the same day and part for every leaderboard, and
  \<^verbatim>\<open>computePartAvailability\<close> of the two files return the same availability map.
\<close>

theorem earlier_file_agrees:
  "findDefaultSelection_v0 lb = findDefaultSelection lb \<and>
   computePartAvailability_v0 lb = computePartAvailability lb"
  by (simp add: findDefaultSelection_v0_def findDefaultSelection_def
      computePartAvailability_v0_def computePartAvailability_def)

section \<open>The cache and the validation of \<^verbatim>\<open>handleSubmit\<close>\<close>

lemma handleSubmit_fresh:
  assumes "trim (leaderboardCode s) \<noteq> []" "trim (sessionToken s) \<noteq> []" "confirmed w"
    and "cache s (year s @ units '':'' @ leaderboardCode s) = Some e"
    and "now_check w - fetchedAt e < 15 * 60 * 1000"
  shows "snd (handleSubmit lc w s) = []"
    "loaded (fst (handleSubmit lc w s)) = Some (data e)"
    "cache (fst (handleSubmit lc w s)) = cache s"
  using assms by (simp_all add: handleSubmit_def Let_def)

lemma handleSubmit_miss:
  assumes "trim (leaderboardCode s) \<noteq> []" "trim (sessionToken s) \<noteq> []" "confirmed w"
    and "cache s (year s @ units '':'' @ leaderboardCode s) = None \<or>
         (\<exists>e. cache s (year s @ units '':'' @ leaderboardCode s) = Some e \<and>
              15 * 60 * 1000 \<le> now_check w - fetchedAt e)"
  shows "snd (handleSubmit lc w s) =
           [\<lparr>call_year = year s, call_leaderboardCode = leaderboardCode s,
             call_sessionToken = sessionToken s\<rparr>]"
  using assms
  by (auto simp add: handleSubmit_def Let_def split: fetch_outcome.splits sum.splits)

lemma handleSubmit_store:
  assumes "trim (leaderboardCode s) \<noteq> []" "trim (sessionToken s) \<noteq> []" "confirmed w"
    and "cache s (year s @ units '':'' @ leaderboardCode s) = None \<or>
         (\<exists>e. cache s (year s @ units '':'' @ leaderboardCode s) = Some e \<and>
              15 * 60 * 1000 \<le> now_check w - fetchedAt e)"
    and "outcome w = Responded status (Inr json)" "200 \<le> status" "status \<le> 299"
  shows "cache (fst (handleSubmit lc w s)) =
           (cache s)(year s @ units '':'' @ leaderboardCode s \<mapsto>
              \<lparr>data = json, fetchedAt = now_store w\<rparr>)"
    "loaded (fst (handleSubmit lc w s)) = Some json"
  using assms
  by (auto simp add: handleSubmit_def Let_def)

lemma handleSubmit_invalid:
  assumes "trim (leaderboardCode s) = [] \<or> trim (sessionToken s) = []"
  shows "handleSubmit lc w s =
           (s\<lparr>error :=
              ''Please enter both the private leaderboard code and your AoC session token.''\<rparr>,
            [])"
  using assms by (auto simp add: handleSubmit_def Let_def)

lemma handleSubmit_declined:
  assumes "\<not> confirmed w"
  shows "snd (handleSubmit lc w s) = []" "cache (fst (handleSubmit lc w s)) = cache s"
    "loaded (fst (handleSubmit lc w s)) = loaded s"
  using assms by (auto simp add: handleSubmit_def Let_def)

lemma example_fields:
  "trim (units ''123456'') \<noteq> []" "trim (units ''tok'') \<noteq> []"
  "trim [0x0020, 0x00A0, 0x2003] = []"
  "units ''2024'' @ units '':'' @ units ''123456'' = units ''2024:123456''"
  "units ''2024'' \<noteq> []" "units ''123456'' \<noteq> []" "units ''tok'' \<noteq> []"
  by (simp_all add: units_def trim_def is_space_def)

lemma after_first_load:
  "year (fst (handleSubmit lc first_load start_state)) = units ''2024''"
  "leaderboardCode (fst (handleSubmit lc first_load start_state)) = units ''123456''"
  "sessionToken (fst (handleSubmit lc first_load start_state)) = units ''tok''"
  "cache (fst (handleSubmit lc first_load start_state)) (units ''2024:123456'') =
     Some \<lparr>data = example_doc, fetchedAt = 1000\<rparr>"
  by (simp_all add: handleSubmit_def start_state_def first_load_def example_fields Let_def)

text \<open>
  Claim C3, as amended. Take a submit that passes the validation of the handler (the
  leaderboard code and the session token are not blank) and that the user confirms in the
  dialog, read at time \<open>now_check\<close>, for the key \<^verbatim>\<open>year:leaderboardCode\<close>. If the cache
  holds an entry for the key with \<open>now_check - fetchedAt < 15 * 60 * 1000\<close> milliseconds,
  no network call is made, the cached document is shown and the cache is left as it is.
  If there is no entry, or the entry is 15 minutes old or older, exactly one call is made;
  and when it succeeds (a 2xx status and a body that parses), the entry of the key becomes
  the new document with the time read when it is stored. A submit that fails the
  validation, or that the user declines in the dialog, makes no call and leaves the cache
  as it is, whatever the cache holds.
\<close>

theorem cache_window:
  "(\<not> blank (leaderboardCode s) \<and> \<not> blank (sessionToken s) \<and> confirmed w \<longrightarrow>
      (\<forall>e. cache s (year s @ units '':'' @ leaderboardCode s) = Some e \<and>
            now_check w - fetchedAt e < 15 * 60 * 1000 \<longrightarrow>
          snd (handleSubmit lc w s) = [] \<and>
          loaded (fst (handleSubmit lc w s)) = Some (data e) \<and>
          cache (fst (handleSubmit lc w s)) = cache s) \<and>
      (cache s (year s @ units '':'' @ leaderboardCode s) = None \<or>
       (\<exists>e. cache s (year s @ units '':'' @ leaderboardCode s) = Some e \<and>
            15 * 60 * 1000 \<le> now_check w - fetchedAt e) \<longrightarrow>
          snd (handleSubmit lc w s) =
            [\<lparr>call_year = year s, call_leaderboardCode = leaderboardCode s,
              call_sessionToken = sessionToken s\<rparr>] \<and>
          (\<forall>status json. outcome w = Responded status (Inr json) \<and>
               200 \<le> status \<and> status \<le> 299 \<longrightarrow>
             cache (fst (handleSubmit lc w s)) =
               (cache s)(year s @ units '':'' @ leaderboardCode s \<mapsto>
                  \<lparr>data = json, fetchedAt = now_store w\<rparr>) \<and>
             loaded (fst (handleSubmit lc w s)) = Some json))) \<and>
   (blank (leaderboardCode s) \<or> blank (sessionToken s) \<or> \<not> confirmed w \<longrightarrow>
      snd (handleSubmit lc w s) = [] \<and> cache (fst (handleSubmit lc w s)) = cache s)"
proof -
  have t: "(trim x = []) = blank x" for x
    by (induction x)
      (auto simp: trim_def blank_def list_all_iff dropWhile_eq_Nil_conv split: if_splits)
  show ?thesis
  proof (intro conjI allI impI)
    fix e
    assume v: "\<not> blank (leaderboardCode s) \<and> \<not> blank (sessionToken s) \<and> confirmed w"
    assume "cache s (year s @ units '':'' @ leaderboardCode s) = Some e \<and>
            now_check w - fetchedAt e < 15 * 60 * 1000"
    then have e: "cache s (year s @ units '':'' @ leaderboardCode s) = Some e"
      "now_check w - fetchedAt e < 15 * 60 * 1000" by simp_all
    from v have a: "trim (leaderboardCode s) \<noteq> []" "trim (sessionToken s) \<noteq> []"
      "confirmed w"
      by (simp_all add: t)
    from handleSubmit_fresh [OF a e]
    show "snd (handleSubmit lc w s) = []" "loaded (fst (handleSubmit lc w s)) = Some (data e)"
      "cache (fst (handleSubmit lc w s)) = cache s" by simp_all
  next
    assume v: "\<not> blank (leaderboardCode s) \<and> \<not> blank (sessionToken s) \<and> confirmed w"
    assume m: "cache s (year s @ units '':'' @ leaderboardCode s) = None \<or>
            (\<exists>e. cache s (year s @ units '':'' @ leaderboardCode s) = Some e \<and>
                 15 * 60 * 1000 \<le> now_check w - fetchedAt e)"
    from v have a: "trim (leaderboardCode s) \<noteq> []" "trim (sessionToken s) \<noteq> []"
      "confirmed w"
      by (simp_all add: t)
    from handleSubmit_miss [OF a m]
    show "snd (handleSubmit lc w s) =
                [\<lparr>call_year = year s, call_leaderboardCode = leaderboardCode s,
                  call_sessionToken = sessionToken s\<rparr>]" .
    fix status json
    assume "outcome w = Responded status (Inr json) \<and> 200 \<le> status \<and> status \<le> 299"
    then have r: "outcome w = Responded status (Inr json)" "200 \<le> status" "status \<le> 299"
      by simp_all
    from handleSubmit_store [OF a m r]
    show "cache (fst (handleSubmit lc w s)) =
                   (cache s)(year s @ units '':'' @ leaderboardCode s \<mapsto>
                      \<lparr>data = json, fetchedAt = now_store w\<rparr>)"
      "loaded (fst (handleSubmit lc w s)) = Some json" by simp_all
  next
    assume n: "blank (leaderboardCode s) \<or> blank (sessionToken s) \<or> \<not> confirmed w"
    show "snd (handleSubmit lc w s) = []"
    proof (cases "trim (leaderboardCode s) = [] \<or> trim (sessionToken s) = []")
      case True
      then show ?thesis by (simp add: handleSubmit_invalid)
    next
      case False
      with n have "\<not> confirmed w" by (simp add: t)
      then show ?thesis by (rule handleSubmit_declined)
    qed
    show "cache (fst (handleSubmit lc w s)) = cache s"
    proof (cases "trim (leaderboardCode s) = [] \<or> trim (sessionToken s) = []")
      case True
      then show ?thesis by (simp add: handleSubmit_invalid)
    next
      case False
      with n have "\<not> confirmed w" by (simp add: t)
      then show ?thesis by (rule handleSubmit_declined)
    qed
  qed
qed

theorem cache_window_witness:
  "\<not> blank (units ''123456'') \<and> \<not> blank (units ''tok'') \<and>
   cache (fst (handleSubmit (\<lambda>a b. 0) first_load start_state)) (units ''2024:123456'') =
     Some \<lparr>data = example_doc, fetchedAt = 1000\<rparr> \<and>
   snd (handleSubmit (\<lambda>a b. 0) within_window
          (fst (handleSubmit (\<lambda>a b. 0) first_load start_state))) = [] \<and>
   loaded (fst (handleSubmit (\<lambda>a b. 0) within_window
          (fst (handleSubmit (\<lambda>a b. 0) first_load start_state)))) = Some example_doc \<and>
   snd (handleSubmit (\<lambda>a b. 0) after_window
          (fst (handleSubmit (\<lambda>a b. 0) first_load start_state))) =
     [\<lparr>call_year = units ''2024'', call_leaderboardCode = units ''123456'',
       call_sessionToken = units ''tok''\<rparr>] \<and>
   cache (fst (handleSubmit (\<lambda>a b. 0) after_window
          (fst (handleSubmit (\<lambda>a b. 0) first_load start_state)))) (units ''2024:123456'') =
     Some \<lparr>data = day3_doc, fetchedAt = 901500\<rparr>"
proof -
  let ?s1 = "fst (handleSubmit (\<lambda>a b. 0) first_load start_state)"
  note s1 = after_first_load [of "\<lambda>a b. 0"]
  have nb: "\<not> blank (units ''123456'')" "\<not> blank (units ''tok'')"
    by (simp_all add: blank_def units_def is_space_def)
  then have v: "\<not> blank (leaderboardCode ?s1)" "\<not> blank (sessionToken ?s1)"
    by (simp_all add: s1)
  have c2: "confirmed within_window" and c3: "confirmed after_window"
    by (simp_all add: within_window_def after_window_def)
  from cache_window [of ?s1 within_window "\<lambda>a b. 0"] cache_window [of ?s1 after_window "\<lambda>a b. 0"]
    v c2 c3
  have "snd (handleSubmit (\<lambda>a b. 0) within_window ?s1) = [] \<and>
   loaded (fst (handleSubmit (\<lambda>a b. 0) within_window ?s1)) = Some example_doc \<and>
   snd (handleSubmit (\<lambda>a b. 0) after_window ?s1) =
     [\<lparr>call_year = units ''2024'', call_leaderboardCode = units ''123456'',
       call_sessionToken = units ''tok''\<rparr>] \<and>
   cache (fst (handleSubmit (\<lambda>a b. 0) after_window ?s1)) (units ''2024:123456'') =
     Some \<lparr>data = day3_doc, fetchedAt = 901500\<rparr>"
    by (simp add: s1 example_fields within_window_def after_window_def)
  with nb s1(4) show ?thesis by simp
qed

text \<open>The claim as it is written fails for a submit that the user declines: the form is
  filled in and passes the checks of the browser and of the handler, the cache has no
  entry for the key, and no fetch is made.\<close>

theorem declined_submit_no_fetch_counterexample:
  "invalid_controls year_2015_2025 start_state = [] \<and>
   \<not> blank (leaderboardCode start_state) \<and> \<not> blank (sessionToken start_state) \<and>
   cache start_state (year start_state @ units '':'' @ leaderboardCode start_state) = None \<and>
   submit year_2015_2025 (\<lambda>a b. 0) declined start_state = Handled (start_state, []) \<and>
   snd (handleSubmit (\<lambda>a b. 0) declined start_state) = []"
proof -
  have i: "invalid_controls year_2015_2025 start_state = []"
    by (simp add: invalid_controls_def year_2015_2025_def start_state_def units_def)
  have h: "handleSubmit (\<lambda>a b. 0) declined start_state = (start_state, [])"
    by (simp add: handleSubmit_def declined_def start_state_def example_fields Let_def)
  have t: "\<not> blank (leaderboardCode start_state)" "\<not> blank (sessionToken start_state)"
    "cache start_state (year start_state @ units '':'' @ leaderboardCode start_state) = None"
    by (simp_all add: start_state_def blank_def units_def is_space_def)
  from i h t show ?thesis by (simp add: submit_def)
qed

section \<open>Missing fields\<close>

lemma invalid_controls_missing:
  assumes "year s = [] \<or> leaderboardCode s = [] \<or> sessionToken s = []"
  shows "invalid_controls year_ok s \<noteq> []"
    "year s = [] \<Longrightarrow> Year_input \<in> set (invalid_controls year_ok s)"
    "leaderboardCode s = [] \<Longrightarrow> Code_input \<in> set (invalid_controls year_ok s)"
    "sessionToken s = [] \<Longrightarrow> Token_input \<in> set (invalid_controls year_ok s)"
  using assms by (auto simp add: invalid_controls_def)

lemma submit_blocked:
  assumes "invalid_controls year_ok s \<noteq> []"
  shows "submit year_ok lc w s = Blocked (invalid_controls year_ok s)"
  using assms by (simp add: submit_def)

lemma submit_blank:
  assumes "invalid_controls year_ok s = []"
    and "trim (leaderboardCode s) = [] \<or> trim (sessionToken s) = []"
  shows "submit year_ok lc w s =
           Handled (s\<lparr>error :=
              ''Please enter both the private leaderboard code and your AoC session token.''\<rparr>,
            [])"
  using assms by (simp add: submit_def handleSubmit_invalid)

text \<open>
  Claim C7. A field is missing when it is empty; the leaderboard code and the session
  token are also missing when they are blank. When the year, the leaderboard code or the
  session token is empty at submit time, the browser does not send the submit event: it
  reports the invalid controls, the empty ones among them, the handler does not run, and
  no network call is made. When the fields are filled in and the leaderboard code or the
  session token is blank, the handler sets its validation message, which the page shows,
  and makes no network call. In both cases the cache and the loaded leaderboard stay as
  they were.
\<close>

theorem missing_field_rejected:
  "(year s = [] \<or> leaderboardCode s = [] \<or> sessionToken s = [] \<longrightarrow>
      submit year_ok lc w s = Blocked (invalid_controls year_ok s) \<and>
      invalid_controls year_ok s \<noteq> [] \<and>
      (year s = [] \<longrightarrow> Year_input \<in> set (invalid_controls year_ok s)) \<and>
      (leaderboardCode s = [] \<longrightarrow> Code_input \<in> set (invalid_controls year_ok s)) \<and>
      (sessionToken s = [] \<longrightarrow> Token_input \<in> set (invalid_controls year_ok s))) \<and>
   (invalid_controls year_ok s = [] \<and>
    (blank (leaderboardCode s) \<or> blank (sessionToken s)) \<longrightarrow>
      submit year_ok lc w s =
        Handled (s\<lparr>error :=
           ''Please enter both the private leaderboard code and your AoC session token.''\<rparr>,
         [])) \<and>
   (year s = [] \<or> blank (leaderboardCode s) \<or> blank (sessionToken s) \<longrightarrow>
      calls_of (submit year_ok lc w s) = [] \<and>
      cache (state_of s (submit year_ok lc w s)) = cache s \<and>
      loaded (state_of s (submit year_ok lc w s)) = loaded s \<and>
      (reported (submit year_ok lc w s) = Browser_reports (invalid_controls year_ok s) \<and>
         invalid_controls year_ok s \<noteq> [] \<or>
       reported (submit year_ok lc w s) = Page_shows
         ''Please enter both the private leaderboard code and your AoC session token.''))"
proof -
  have t: "(trim x = []) = blank x" for x
    by (induction x)
      (auto simp: trim_def blank_def list_all_iff dropWhile_eq_Nil_conv split: if_splits)
  show ?thesis
  proof (intro conjI impI)
    assume m: "year s = [] \<or> leaderboardCode s = [] \<or> sessionToken s = []"
    from invalid_controls_missing(1) [OF m]
    show "invalid_controls year_ok s \<noteq> []" .
    then show "submit year_ok lc w s = Blocked (invalid_controls year_ok s)"
      by (rule submit_blocked)
    show "Year_input \<in> set (invalid_controls year_ok s)" if "year s = []"
      using that by (rule invalid_controls_missing(2) [OF m])
    show "Code_input \<in> set (invalid_controls year_ok s)" if "leaderboardCode s = []"
      using that by (rule invalid_controls_missing(3) [OF m])
    show "Token_input \<in> set (invalid_controls year_ok s)" if "sessionToken s = []"
      using that by (rule invalid_controls_missing(4) [OF m])
  next
    assume "invalid_controls year_ok s = [] \<and>
      (blank (leaderboardCode s) \<or> blank (sessionToken s))"
    then show "submit year_ok lc w s =
          Handled (s\<lparr>error :=
             ''Please enter both the private leaderboard code and your AoC session token.''\<rparr>,
           [])"
      by (simp add: submit_blank t)
  next
    assume m: "year s = [] \<or> blank (leaderboardCode s) \<or> blank (sessionToken s)"
    have *: "calls_of (submit year_ok lc w s) = [] \<and>
        cache (state_of s (submit year_ok lc w s)) = cache s \<and>
        loaded (state_of s (submit year_ok lc w s)) = loaded s \<and>
        (reported (submit year_ok lc w s) = Browser_reports (invalid_controls year_ok s) \<and>
           invalid_controls year_ok s \<noteq> [] \<or>
         reported (submit year_ok lc w s) = Page_shows
           ''Please enter both the private leaderboard code and your AoC session token.'')"
    proof (cases "invalid_controls year_ok s = []")
      case False
      then show ?thesis
        by (simp add: submit_blocked calls_of_def state_of_def reported_def)
    next
      case True
      then have "year s \<noteq> []" by (auto simp add: invalid_controls_def split: if_splits)
      with m have "trim (leaderboardCode s) = [] \<or> trim (sessionToken s) = []"
        by (simp add: t)
      from submit_blank [OF True this] show ?thesis
        by (simp add: calls_of_def state_of_def reported_def)
    qed
    from * show "calls_of (submit year_ok lc w s) = []" by simp
    from * show "cache (state_of s (submit year_ok lc w s)) = cache s" by simp
    from * show "loaded (state_of s (submit year_ok lc w s)) = loaded s" by simp
    from * show "reported (submit year_ok lc w s) = Browser_reports (invalid_controls year_ok s) \<and>
           invalid_controls year_ok s \<noteq> [] \<or>
         reported (submit year_ok lc w s) = Page_shows
           ''Please enter both the private leaderboard code and your AoC session token.''"
      by simp
  qed
qed

text \<open>With the year field emptied the browser reports the year input; with a leaderboard
  code of three white space characters the page shows the message of the handler.\<close>

theorem missing_field_rejected_witness:
  "year no_year_state = [] \<and>
   submit year_2015_2025 (\<lambda>a b. 0) first_load no_year_state = Blocked [Year_input] \<and>
   calls_of (submit year_2015_2025 (\<lambda>a b. 0) first_load no_year_state) = [] \<and>
   invalid_controls year_2015_2025 blank_code_state = [] \<and>
   leaderboardCode blank_code_state = [0x0020, 0x00A0, 0x2003] \<and>
   blank (leaderboardCode blank_code_state) \<and>
   submit year_2015_2025 (\<lambda>a b. 0) first_load blank_code_state =
     Handled (blank_code_state\<lparr>error :=
        ''Please enter both the private leaderboard code and your AoC session token.''\<rparr>, []) \<and>
   calls_of (submit year_2015_2025 (\<lambda>a b. 0) first_load blank_code_state) = [] \<and>
   reported (submit year_2015_2025 (\<lambda>a b. 0) first_load blank_code_state) =
     Page_shows ''Please enter both the private leaderboard code and your AoC session token.''"
proof -
  have y: "year no_year_state = []" by (simp add: no_year_state_def)
  have iy: "invalid_controls year_2015_2025 no_year_state = [Year_input]"
    by (simp add: invalid_controls_def no_year_state_def start_state_def units_def)
  have ib: "invalid_controls year_2015_2025 blank_code_state = []"
    by (simp add: invalid_controls_def year_2015_2025_def blank_code_state_def start_state_def
        units_def)
  have l: "leaderboardCode blank_code_state = [0x0020, 0x00A0, 0x2003]"
    by (simp add: blank_code_state_def)
  have b: "blank (leaderboardCode blank_code_state)"
    by (simp add: l blank_def is_space_def)
  note t1 = missing_field_rejected [of no_year_state year_2015_2025 "\<lambda>a b. 0" first_load]
  note t2 = missing_field_rejected [of blank_code_state year_2015_2025 "\<lambda>a b. 0" first_load]
  from t1 y have "submit year_2015_2025 (\<lambda>a b. 0) first_load no_year_state =
      Blocked (invalid_controls year_2015_2025 no_year_state)"
    by blast
  then have r1: "submit year_2015_2025 (\<lambda>a b. 0) first_load no_year_state =
      Blocked [Year_input]"
    by (simp only: iy)
  from t1 y have c1: "calls_of (submit year_2015_2025 (\<lambda>a b. 0) first_load no_year_state) = []"
    by blast
  from t2 ib b have r2: "submit year_2015_2025 (\<lambda>a b. 0) first_load blank_code_state =
      Handled (blank_code_state\<lparr>error :=
         ''Please enter both the private leaderboard code and your AoC session token.''\<rparr>, [])"
    by blast
  from r2 have c2: "calls_of (submit year_2015_2025 (\<lambda>a b. 0) first_load blank_code_state) = []"
    "reported (submit year_2015_2025 (\<lambda>a b. 0) first_load blank_code_state) =
     Page_shows ''Please enter both the private leaderboard code and your AoC session token.''"
    by (simp_all add: calls_of_def reported_def)
  from y r1 c1 ib l b r2 c2 show ?thesis by (intro conjI)
qed

section \<open>The responses of the proxy\<close>

text \<open>
  Claim C6. The proxy answers 204 to \<^verbatim>\<open>OPTIONS\<close> and 405 to any other method that is not
  \<^verbatim>\<open>POST\<close>, both without a body. To a \<^verbatim>\<open>POST\<close> in which one of year, leaderboard code
  and session token is missing it answers 400 with an error body, without calling
  upstream. To a \<^verbatim>\<open>POST\<close> with all three: when upstream answers with a status outside
  200..299, that status with an error body; when upstream answers with a 2xx status and a
  body that parses, 200 with that body; when the fetch throws, or the body of a 2xx answer
  does not parse, 500 with an error body.
\<close>

theorem handler_responses:
  "(req_method req = ''OPTIONS'' \<longrightarrow>
      res_status (fst (handler up req)) = 204 \<and> res_body (fst (handler up req)) = No_body) \<and>
   (req_method req \<noteq> ''OPTIONS'' \<and> req_method req \<noteq> ''POST'' \<longrightarrow>
      res_status (fst (handler up req)) = 405 \<and> res_body (fst (handler up req)) = No_body) \<and>
   (req_method req = ''POST'' \<and> \<not> fields_present req \<longrightarrow>
      res_status (fst (handler up req)) = 400 \<and>
      res_body (fst (handler up req)) = Error_json ''Missing required fields'' \<and>
      snd (handler up req) = []) \<and>
   (req_method req = ''POST'' \<and> fields_present req \<longrightarrow>
      (\<forall>status body. up = Upstream status body \<and> \<not> (200 \<le> status \<and> status \<le> 299) \<longrightarrow>
         res_status (fst (handler up req)) = status \<and>
         res_body (fst (handler up req)) = Error_json (''Upstream status '' @ toString status)) \<and>
      (\<forall>status d. up = Upstream status (Inr d) \<and> 200 \<le> status \<and> status \<le> 299 \<longrightarrow>
         res_status (fst (handler up req)) = 200 \<and>
         res_body (fst (handler up req)) = Data_json d) \<and>
      (\<forall>status msg. up = Fetch_throws msg \<or>
           up = Upstream status (Inl msg) \<and> 200 \<le> status \<and> status \<le> 299 \<longrightarrow>
         res_status (fst (handler up req)) = 500 \<and>
         res_body (fst (handler up req)) =
           Error_json (if msg = [] then ''Fetch failed'' else msg)))"
  by (auto simp add: handler_def fields_present_def body_or_empty_def Let_def)

theorem handler_responses_witness:
  "fields_present good_post \<and>
   res_status (fst (handler (Upstream 404 (Inl ''<html>'') :: leaderboard upstream_outcome)
      good_post)) = 404 \<and>
   res_body (fst (handler (Upstream 404 (Inl ''<html>'') :: leaderboard upstream_outcome)
      good_post)) = Error_json ''Upstream status 404'' \<and>
   res_status (fst (handler (Upstream 200 (Inr example_doc)) good_post)) = 200 \<and>
   res_body (fst (handler (Upstream 200 (Inr example_doc)) good_post)) = Data_json example_doc \<and>
   res_status (fst (handler (Fetch_throws [] :: leaderboard upstream_outcome) good_post)) = 500 \<and>
   res_body (fst (handler (Fetch_throws [] :: leaderboard upstream_outcome) good_post)) =
     Error_json ''Fetch failed'' \<and>
   res_status (fst (handler (Upstream 200 (Inl ''Unexpected token'') :: leaderboard upstream_outcome)
      good_post)) = 500 \<and>
   res_status (fst (handler (Fetch_throws [] :: leaderboard upstream_outcome)
      (good_post\<lparr>req_method := ''OPTIONS''\<rparr>))) = 204 \<and>
   res_status (fst (handler (Fetch_throws [] :: leaderboard upstream_outcome)
      (good_post\<lparr>req_method := ''GET''\<rparr>))) = 405 \<and>
   res_status (fst (handler (Upstream 200 (Inr example_doc))
      (good_post\<lparr>req_body := None\<rparr>))) = 400"
  using
    handler_responses [of good_post "Upstream 404 (Inl ''<html>'') :: leaderboard upstream_outcome"]
    handler_responses [of good_post "Upstream 200 (Inr example_doc)"]
    handler_responses [of good_post "Fetch_throws [] :: leaderboard upstream_outcome"]
    handler_responses [of good_post
      "Upstream 200 (Inl ''Unexpected token'') :: leaderboard upstream_outcome"]
    handler_responses [of "good_post\<lparr>req_method := ''OPTIONS''\<rparr>"
      "Fetch_throws [] :: leaderboard upstream_outcome"]
    handler_responses [of "good_post\<lparr>req_method := ''GET''\<rparr>"
      "Fetch_throws [] :: leaderboard upstream_outcome"]
    handler_responses [of "good_post\<lparr>req_body := None\<rparr>" "Upstream 200 (Inr example_doc)"]
  by (simp add: good_post_def fields_present_def body_or_empty_def toString_small)

section \<open>The heap\<close>

subsection \<open>Cells and prefixes\<close>

lemma attempt_Inr [simp]: "attempt (Inr x) f = f x"
  by (simp add: attempt_def)

lemma attempt_Inl [simp]: "attempt (Inl e) f = Inl e"
  by (simp add: attempt_def)

lemma prefix_new: "prefix h0 h \<Longrightarrow> prefix h0 (snd (new c h))"
  by (simp add: new_def prefix_prefix)

lemma prefix_update: "prefix h0 h \<Longrightarrow> length h0 \<le> a \<Longrightarrow> prefix h0 (h[a := c])"
  by (auto simp: prefix_def list_update_append)

lemma cell_at_prefix: "prefix h0 h \<Longrightarrow> cell_at h0 v = Some c \<Longrightarrow> cell_at h v = Some c"
  by (auto simp: cell_at_def prefix_def nth_append split: jsval.splits if_splits)

lemma cell_at_new_old: "cell_at h v = Some c \<Longrightarrow> cell_at (h @ [d]) v = Some c"
  by (auto simp: cell_at_def nth_append split: jsval.splits if_splits)

lemma cell_at_new: "cell_at (h @ [c]) (JRef (length h)) = Some c"
  by (simp add: cell_at_def)

lemma cell_at_update_other:
  "a \<noteq> b \<Longrightarrow> cell_at (h[a := c]) (JRef b) = cell_at h (JRef b)"
  by (simp add: cell_at_def)

lemma cell_at_update_same:
  "a < length h \<Longrightarrow> cell_at (h[a := c]) (JRef a) = Some c"
  by (simp add: cell_at_def)

lemma cell_at_SomeD: "cell_at h v = Some c \<Longrightarrow> \<exists>a. v = JRef a \<and> a < length h \<and> h ! a = c"
  by (auto simp: cell_at_def split: jsval.splits if_splits)

lemma not_nullish_ref [simp]: "\<not> nullish (JRef a)"
  by (simp add: nullish_def)

lemma truthy_not_nullish: "truthy v \<Longrightarrow> \<not> nullish v"
  by (auto simp: nullish_def)

lemma get_total: "\<not> nullish v \<Longrightarrow> get h v k = Inr (own_prop h v k)"
  by (simp add: get_def)

lemma or_empty_object_cases:
  "or_empty_object v h = (ob, h1) \<Longrightarrow>
     \<not> nullish ob \<and> ((ob = v \<and> h1 = h) \<or> (nullish v \<and> ob = JRef (length h) \<and> h1 = h @ [Object []]))"
  by (auto simp: or_empty_object_def new_def split: if_splits)

subsection \<open>Loops that keep an invariant\<close>

lemma each_inv:
  assumes "\<And>x h. x \<in> set xs \<Longrightarrow> I h \<Longrightarrow> \<exists>h'. f x h = Inr h' \<and> I h'" and "I h"
  shows "\<exists>h'. each f xs h = Inr h' \<and> I h'"
  using assms
proof (induction xs arbitrary: h)
  case Nil
  then show ?case by simp
next
  case (Cons x xs)
  from Cons.prems(1) [of x h] Cons.prems(2) obtain h1 where h1: "f x h = Inr h1" "I h1"
    by auto
  from Cons.IH [of h1] Cons.prems(1) h1(2) obtain h' where "each f xs h1 = Inr h'" "I h'"
    by auto
  with h1 show ?case by simp
qed

lemma map_list_inv:
  assumes "\<And>x i h. x \<in> set xs \<Longrightarrow> I h \<Longrightarrow> \<exists>y h'. f x i h = Inr (y, h') \<and> I h'" and "I h"
  shows "\<exists>ys h'. map_list f xs i h = Inr (ys, h') \<and> I h'"
  using assms
proof (induction xs arbitrary: h i)
  case Nil
  then show ?case by simp
next
  case (Cons x xs)
  from Cons.prems(1) [of x h i] Cons.prems(2) obtain y h1 where h1: "f x i h = Inr (y, h1)" "I h1"
    by auto
  from Cons.IH [of h1 "Suc i"] Cons.prems(1) h1(2)
  obtain ys h' where "map_list f xs (Suc i) h1 = Inr (ys, h')" "I h'"
    by auto
  with h1 show ?case by simp
qed

lemma insert_js_total:
  assumes "\<And>y. y \<in> set ys \<Longrightarrow> \<exists>c. cmp x y = Inr c"
  shows "\<exists>zs. insert_js cmp x ys = Inr zs \<and> set zs = insert x (set ys)"
  using assms
proof (induction ys)
  case Nil
  then show ?case by simp
next
  case (Cons y ys)
  from Cons.prems [of y] obtain c where c: "cmp x y = Inr c" by auto
  from Cons.IH Cons.prems obtain zs where "insert_js cmp x ys = Inr zs" "set zs = insert x (set ys)"
    by auto
  with c show ?case by auto
qed

lemma sort_list_total:
  assumes "\<And>x y. x \<in> set xs \<Longrightarrow> y \<in> set xs \<Longrightarrow> \<exists>c. cmp x y = Inr c"
  shows "\<exists>ys. sort_list cmp xs = Inr ys \<and> set ys = set xs"
  using assms
proof (induction xs)
  case Nil
  then show ?case by simp
next
  case (Cons x xs)
  from Cons.IH Cons.prems obtain ys where ys: "sort_list cmp xs = Inr ys" "set ys = set xs"
    by auto
  have "\<exists>zs. insert_js cmp x ys = Inr zs \<and> set zs = insert x (set ys)"
    by (rule insert_js_total) (use Cons.prems ys(2) in auto)
  with ys show ?case by auto
qed

subsection \<open>\<^verbatim>\<open>buildLeaderboard\<close> on the heap\<close>

lemma elems_cell: "cell_at h v = Some (Array xs) \<Longrightarrow> elems h v = Some xs"
  by (simp add: elems_def)

lemma push_step:
  assumes "rows_inv h0 a h" "\<not> nullish x"
  shows "\<exists>h'. push (JRef a) x (h @ [c]) = Inr h' \<and> rows_inv h0 a h'"
proof -
  from assms(1) obtain xs where p: "prefix h0 h" "length h0 \<le> a"
    and c: "cell_at h (JRef a) = Some (Array xs)" and n: "\<forall>x \<in> set xs. \<not> nullish x"
    by (auto simp: rows_inv_def)
  from c have a: "a < length h" by (auto dest: cell_at_SomeD)
  from c have "cell_at (h @ [c]) (JRef a) = Some (Array xs)" by (rule cell_at_new_old)
  then have "push (JRef a) x (h @ [c]) = Inr ((h @ [c])[a := Array (xs @ [x])])"
    by (simp add: push_def elems_cell)
  moreover have "rows_inv h0 a ((h @ [c])[a := Array (xs @ [x])])"
    unfolding rows_inv_def
  proof (intro conjI exI)
    from p show "prefix h0 ((h @ [c])[a := Array (xs @ [x])])"
      by (intro prefix_update prefix_prefix)
    show "length h0 \<le> a" by fact
    from a show "cell_at ((h @ [c])[a := Array (xs @ [x])]) (JRef a) = Some (Array (xs @ [x]))"
      by (simp add: cell_at_update_same)
    from n assms(2) show "\<forall>x \<in> set (xs @ [x]). \<not> nullish x" by simp
  qed
  ultimately show ?thesis by blast
qed

lemma row_callback_step:
  assumes "\<not> nullish member" "rows_inv h0 a h"
  shows "\<exists>h'. row_callback L day part (JRef a) member h = Inr h' \<and> rows_inv h0 a h'"
proof (cases "truthy (get_opt h (get_opt h (own_prop h member ''completion_day_level'')
    (interpolate day)) (interpolate part))")
  case False
  with assms show ?thesis by (simp add: row_callback_def get_total Let_def)
next
  case True
  then have "\<not> nullish (get_opt h (get_opt h (own_prop h member ''completion_day_level'')
    (interpolate day)) (interpolate part))" by (rule truthy_not_nullish)
  with True assms(1) push_step [OF assms(2), of "JRef (length h)"] show ?thesis
    by (simp add: row_callback_def get_total Let_def new_def)
qed

lemma by_timestamp_total:
  "\<not> nullish a \<Longrightarrow> \<not> nullish b \<Longrightarrow> \<exists>c. by_timestamp h a b = Inr c"
  by (simp add: by_timestamp_def get_total)

lemma rank_steps:
  assumes "prefix h0 h"
  shows "\<exists>ys h'. map_list rank_callback xs i h = Inr (ys, h') \<and> prefix h0 h'"
  by (rule map_list_inv [where I = "prefix h0"])
    (use assms in \<open>auto simp: rank_callback_def new_def prefix_prefix\<close>)

lemma Object_values_js_total:
  assumes "\<not> nullish ob"
  shows "Object_values_js ob h = Inr (JRef (length h), h @ [Array (map snd (props h ob))])"
  using assms by (simp add: Object_values_js_def new_def)

lemma is_member_ref: "is_member h v \<Longrightarrow> \<not> nullish v"
  by (auto simp: is_member_def cell_at_def nullish_def split: jsval.splits)

lemma props_new_old: "cell_at h v = Some c \<Longrightarrow> props (h @ [d]) v = props h v"
  by (simp add: props_def cell_at_new_old)

lemma props_empty_object: "props (h @ [Object []]) (JRef (length h)) = []"
  by (simp add: props_def cell_at_new)

lemma members_of_leaderboard_prefix:
  assumes "is_leaderboard h0 lb" "prefix h0 h"
    and "or_empty_object (get_opt h lb ''members'') h = (ob, h1)"
  shows "\<forall>v \<in> set (map snd (props h1 ob)). is_member h0 v"
proof (cases "nullish (get_opt h lb ''members'')")
  case True
  with assms(3) show ?thesis
    by (auto simp: or_empty_object_def new_def props_empty_object)
next
  case False
  with assms(3) have eq: "ob = get_opt h lb ''members''" "h1 = h"
    by (auto simp: or_empty_object_def)
  from False have nn: "\<not> nullish lb" by (auto simp: get_opt_def nullish_def)
  with assms(1) obtain ps where ps0: "cell_at h0 lb = Some (Object ps)"
    by (auto simp: is_leaderboard_def nullish_def split: option.splits cell.splits)
  with assms(2) have ps: "cell_at h lb = Some (Object ps)" by (rule cell_at_prefix)
  with nn have m: "get_opt h lb ''members'' =
      (case map_of ps ''members'' of None \<Rightarrow> JUndefined | Some x \<Rightarrow> x)"
    by (simp add: get_opt_def own_prop_def props_def)
  with False obtain m where m': "map_of ps ''members'' = Some m" "get_opt h lb ''members'' = m"
    by (cases "map_of ps ''members''") (auto simp: nullish_def)
  with assms(1) ps0 nn obtain ms where ms0: "cell_at h0 m = Some (Object ms)"
    and all: "list_all (\<lambda>p. is_member h0 (snd p)) ms"
    by (auto simp: is_leaderboard_def nullish_def split: option.splits cell.splits)
  from assms(2) ms0 have "cell_at h m = Some (Object ms)" by (rule cell_at_prefix)
  with all show ?thesis
    unfolding eq m'(2) by (auto simp: props_def list_all_iff)
qed

lemma members_of_leaderboard:
  assumes "is_leaderboard h lb" "or_empty_object (get_opt h lb ''members'') h = (ob, h1)"
  shows "\<forall>v \<in> set (map snd (props h1 ob)). is_member h v"
  using assms(1) prefix_order.refl assms(2) by (rule members_of_leaderboard_prefix)

lemma buildLeaderboard_js_total:
  assumes "is_leaderboard h lb"
  shows "\<exists>v h'. buildLeaderboard_js L lb day part h = Inr (v, h') \<and> prefix h h'"
proof (cases "truthy lb")
  case False
  then show ?thesis by (simp add: buildLeaderboard_js_def new_def)
next
  case True
  then have nn: "\<not> nullish lb" by (rule truthy_not_nullish)
  then have g: "get h lb ''members'' = Inr (get_opt h lb ''members'')"
    by (simp add: get_def get_opt_def)
  obtain ob h1 where o: "or_empty_object (get_opt h lb ''members'') h = (ob, h1)"
    by (cases "or_empty_object (get_opt h lb ''members'') h")
  from or_empty_object_cases [OF o] have ob: "\<not> nullish ob" and p1: "prefix h h1"
    by auto
  let ?vs = "map snd (props h1 ob)"
  let ?h2 = "h1 @ [Array ?vs]"
  let ?h3 = "?h2 @ [Array []]"
  let ?a = "length ?h2"
  from members_of_leaderboard [OF assms o] have vs: "\<forall>v \<in> set ?vs. \<not> nullish v"
    by (auto dest: is_member_ref)
  have e3: "elems ?h3 (JRef (length h1)) = Some ?vs"
    by (simp add: elems_def cell_at_def nth_append)
  have i3: "rows_inv h ?a ?h3"
    unfolding rows_inv_def
  proof (intro conjI exI)
    from p1 show "prefix h ?h3" by (intro prefix_prefix)
    from p1 show "length h \<le> ?a" by (auto simp: prefix_def)
    show "cell_at ?h3 (JRef ?a) = Some (Array [])" by (rule cell_at_new)
    show "\<forall>x \<in> set []. \<not> nullish x" by simp
  qed
  have "\<exists>h4. each (row_callback L day part (JRef ?a)) ?vs ?h3 = Inr h4 \<and> rows_inv h ?a h4"
    by (rule each_inv [where I = "rows_inv h ?a"]) (use vs i3 in \<open>auto intro: row_callback_step\<close>)
  then obtain h4 where h4: "each (row_callback L day part (JRef ?a)) ?vs ?h3 = Inr h4"
    "rows_inv h ?a h4" by blast
  from h4(2) obtain xs where p4: "prefix h h4" and la: "length h \<le> ?a"
    and c4: "cell_at h4 (JRef ?a) = Some (Array xs)" and n4: "\<forall>x \<in> set xs. \<not> nullish x"
    by (auto simp: rows_inv_def)
  have "\<exists>ys. sort_list (by_timestamp h4) xs = Inr ys \<and> set ys = set xs"
    by (rule sort_list_total) (use n4 in \<open>auto intro: by_timestamp_total\<close>)
  then obtain ys where ys: "sort_list (by_timestamp h4) xs = Inr ys" by blast
  let ?h5 = "h4[?a := Array ys]"
  from c4 have a4: "?a < length h4" by (auto dest: cell_at_SomeD)
  have s5: "sort_js (JRef ?a) by_timestamp h4 = Inr ?h5"
    using c4 ys by (simp add: sort_js_def elems_cell)
  have p5: "prefix h ?h5" using p4 la by (rule prefix_update)
  have e5: "elems ?h5 (JRef ?a) = Some ys"
    using a4 by (simp add: elems_def cell_at_update_same)
  from rank_steps [OF p5, of ys 0] obtain zs h6 where
    h6: "map_list rank_callback ys 0 ?h5 = Inr (zs, h6)" "prefix h h6" by blast
  have "buildLeaderboard_js L lb day part h = Inr (new (Array zs) h6)"
    using True g o ob e3 h4(1) s5 e5 h6(1)
    by (simp add: buildLeaderboard_js_def Object_values_js_total new_def forEach_def map_js_def)
  moreover have "prefix h (snd (new (Array zs) h6))" using h6(2) by (rule prefix_new)
  ultimately show ?thesis by (cases "new (Array zs) h6") auto
qed

subsection \<open>\<^verbatim>\<open>findDefaultSelection\<close> on the heap\<close>

lemma some_list_total:
  assumes "\<And>x. x \<in> set xs \<Longrightarrow> \<exists>b. f x = Inr b"
  shows "\<exists>b. some_list f xs = Inr b"
  using assms
proof (induction xs)
  case Nil
  have "some_list f [] = Inr False" by simp
  then show ?case ..
next
  case (Cons x xs)
  from Cons.prems [of x] obtain b where "f x = Inr b" by auto
  moreover from Cons.IH Cons.prems obtain b' where "some_list f xs = Inr b'" by auto
  ultimately show ?case by auto
qed

lemma Object_keys_js_total:
  assumes "\<not> nullish ob"
  shows "Object_keys_js ob h =
    Inr (JRef (length h), h @ [Array (map (\<lambda>p. JStr (fst p)) (props h ob))])"
  using assms by (simp add: Object_keys_js_def new_def)

lemma keys_callback_step:
  assumes "\<not> nullish member" "prefix h0 h"
  shows "\<exists>y h'. keys_callback member i h = Inr (y, h') \<and> prefix h0 h'"
proof -
  obtain ob h1 where o: "or_empty_object (own_prop h member ''completion_day_level'') h = (ob, h1)"
    by (cases "or_empty_object (own_prop h member ''completion_day_level'') h")
  from or_empty_object_cases [OF o] assms(2) have "\<not> nullish ob" "prefix h0 h1"
    by (auto intro: prefix_prefix)
  with assms(1) o show ?thesis
    by (simp add: keys_callback_def get_total Object_keys_js_total prefix_prefix)
qed

lemma has_part_total:
  assumes "\<not> nullish member"
  shows "\<exists>b. has_part d p h member = Inr b"
proof -
  from assms have "has_part d p h member =
      Inr (truthy (get_opt h (get_opt h (own_prop h member ''completion_day_level'') d) p))"
    by (simp add: has_part_def get_total)
  then show ?thesis ..
qed

lemma prefix_length: "prefix h0 h \<Longrightarrow> length h0 \<le> length h"
  by (auto simp: prefix_def)

lemma Object_values_js_step:
  assumes "\<not> nullish ob"
  shows "\<exists>h'. Object_values_js ob h = Inr (JRef (length h), h') \<and> prefix h h' \<and>
           cell_at h' (JRef (length h)) = Some (Array (map snd (props h ob)))"
  using assms by (simp add: Object_values_js_def new_def cell_at_new)

lemma flatMap_js_step:
  assumes "cell_at h arr = Some (Array xs)"
    and "\<And>x i h1. x \<in> set xs \<Longrightarrow> prefix h h1 \<Longrightarrow> \<exists>y h2. f x i h1 = Inr (y, h2) \<and> prefix h h2"
  shows "\<exists>a ds h'. flatMap_js arr f h = Inr (JRef a, h') \<and> prefix h h' \<and>
           cell_at h' (JRef a) = Some (Array ds) \<and> length h \<le> a"
proof -
  have "\<exists>ys h1. map_list f xs 0 h = Inr (ys, h1) \<and> prefix h h1"
    by (rule map_list_inv [where I = "prefix h"]) (use assms(2) in auto)
  then obtain ys h1 where m: "map_list f xs 0 h = Inr (ys, h1)" "prefix h h1" by blast
  let ?ds = "concat (map (\<lambda>y. case elems h1 y of Some zs \<Rightarrow> zs | None \<Rightarrow> [y]) ys)"
  from assms(1) m(1) have "flatMap_js arr f h = Inr (JRef (length h1), h1 @ [Array ?ds])"
    by (simp add: flatMap_js_def elems_cell new_def)
  moreover from m(2) have "prefix h (h1 @ [Array ?ds])" by (rule prefix_prefix)
  moreover have "cell_at (h1 @ [Array ?ds]) (JRef (length h1)) = Some (Array ?ds)"
    by (rule cell_at_new)
  moreover from m(2) have "length h \<le> length h1" by (rule prefix_length)
  ultimately show ?thesis by blast
qed

lemma map_js_step:
  assumes "cell_at h arr = Some (Array xs)"
    and "\<And>x i h1. x \<in> set xs \<Longrightarrow> prefix h h1 \<Longrightarrow> \<exists>y h2. f x i h1 = Inr (y, h2) \<and> prefix h h2"
  shows "\<exists>a ys h'. map_js arr f h = Inr (JRef a, h') \<and> prefix h h' \<and>
           cell_at h' (JRef a) = Some (Array ys) \<and> length h \<le> a"
proof -
  have "\<exists>ys h1. map_list f xs 0 h = Inr (ys, h1) \<and> prefix h h1"
    by (rule map_list_inv [where I = "prefix h"]) (use assms(2) in auto)
  then obtain ys h1 where m: "map_list f xs 0 h = Inr (ys, h1)" "prefix h h1" by blast
  from assms(1) m(1) have "map_js arr f h = Inr (JRef (length h1), h1 @ [Array ys])"
    by (simp add: map_js_def elems_cell new_def)
  moreover from m(2) have "prefix h (h1 @ [Array ys])" by (rule prefix_prefix)
  moreover have "cell_at (h1 @ [Array ys]) (JRef (length h1)) = Some (Array ys)"
    by (rule cell_at_new)
  moreover from m(2) have "length h \<le> length h1" by (rule prefix_length)
  ultimately show ?thesis by blast
qed

lemma sort_js_step:
  assumes "cell_at h (JRef a) = Some (Array xs)"
    and "\<And>x y. x \<in> set xs \<Longrightarrow> y \<in> set xs \<Longrightarrow> \<exists>c. cmp h x y = Inr c"
  shows "\<exists>ys. sort_js (JRef a) cmp h = Inr (h[a := Array ys]) \<and> set ys = set xs"
proof -
  have "\<exists>ys. sort_list (cmp h) xs = Inr ys \<and> set ys = set xs"
    by (rule sort_list_total) (use assms(2) in auto)
  with assms(1) show ?thesis by (auto simp: sort_js_def elems_cell)
qed

lemma some_js_step:
  assumes "cell_at h arr = Some (Array xs)" and "\<And>x. x \<in> set xs \<Longrightarrow> \<exists>b. f h x = Inr b"
  shows "\<exists>b. some_js arr f h = Inr b"
  using assms some_list_total [of xs "f h"] by (auto simp: some_js_def elems_cell)

lemma new_eq: "new c h = (JRef (length h), h @ [c])"
  by (simp add: new_def)

lemma findDefaultSelection_js_total:
  assumes "is_leaderboard h lb"
  shows "\<exists>v h'. findDefaultSelection_js lb h = Inr (v, h') \<and> prefix h h'"
proof -
  obtain ob h1 where o: "or_empty_object (get_opt h lb ''members'') h = (ob, h1)"
    by (cases "or_empty_object (get_opt h lb ''members'') h")
  from or_empty_object_cases [OF o] have ob: "\<not> nullish ob" and p1: "prefix h h1"
    by auto
  define vs where "vs = map snd (props h1 ob)"
  from members_of_leaderboard [OF assms o] have vs: "\<And>v. v \<in> set vs \<Longrightarrow> \<not> nullish v"
    by (auto simp: vs_def dest: is_member_ref)
  from Object_values_js_step [OF ob, of h1] obtain h2 where
    v: "Object_values_js ob h1 = Inr (JRef (length h1), h2)" and p2: "prefix h1 h2"
    and c2: "cell_at h2 (JRef (length h1)) = Some (Array vs)"
    by (auto simp: vs_def)
  have "\<exists>a ds h'. flatMap_js (JRef (length h1)) keys_callback h2 = Inr (JRef a, h') \<and>
      prefix h2 h' \<and> cell_at h' (JRef a) = Some (Array ds) \<and> length h2 \<le> a"
    using c2 by (rule flatMap_js_step) (auto intro!: keys_callback_step vs)
  then obtain a3 ds h3 where
    f: "flatMap_js (JRef (length h1)) keys_callback h2 = Inr (JRef a3, h3)"
    and p3: "prefix h2 h3" and c3: "cell_at h3 (JRef a3) = Some (Array ds)" by blast
  have "\<exists>a ys h'. map_js (JRef a3) (\<lambda>d i h. Inr (js_Number d, h)) h3 = Inr (JRef a, h') \<and>
      prefix h3 h' \<and> cell_at h' (JRef a) = Some (Array ys) \<and> length h3 \<le> a"
    using c3 by (rule map_js_step) auto
  then obtain a4 ns h4 where
    m: "map_js (JRef a3) (\<lambda>d i h. Inr (js_Number d, h)) h3 = Inr (JRef a4, h4)"
    and p4: "prefix h3 h4" and c4: "cell_at h4 (JRef a4) = Some (Array ns)"
    and l4: "length h3 \<le> a4" by blast
  have "\<exists>ys. sort_js (JRef a4) (\<lambda>h a b. Inr (compare_result (minus_js a b))) h4 =
      Inr (h4[a4 := Array ys]) \<and> set ys = set ns"
    using c4 by (rule sort_js_step) auto
  then obtain ys where
    s: "sort_js (JRef a4) (\<lambda>h a b. Inr (compare_result (minus_js a b))) h4 =
          Inr (h4[a4 := Array ys])" by blast
  define h5 where "h5 = h4[a4 := Array ys]"
  from p3 p4 have p24: "prefix h2 h4" by (rule prefix_order.trans)
  from p1 p2 have p02: "prefix h h2" by (rule prefix_order.trans)
  from p02 p24 have p04: "prefix h h4" by (rule prefix_order.trans)
  note p14 = p04 p24
  from p02 p3 have "prefix h h3" by (rule prefix_order.trans)
  then have "length h \<le> length h3" by (rule prefix_length)
  with l4 have "length h \<le> a4" by simp
  with p14(1) have p5: "prefix h h5" unfolding h5_def by (rule prefix_update)
  from c2 have "length h1 < length h2" by (auto dest: cell_at_SomeD)
  with p3 l4 have "a4 \<noteq> length h1" by (auto dest: prefix_length)
  moreover from p14(2) c2 have "cell_at h4 (JRef (length h1)) = Some (Array vs)"
    by (rule cell_at_prefix)
  ultimately have c5: "cell_at h5 (JRef (length h1)) = Some (Array vs)"
    by (simp add: h5_def cell_at_update_other)
  define firstDay where
    "firstDay = (if nullish (first_elem h5 (JRef a4)) then ''1''
                 else interpolate (first_elem h5 (JRef a4)))"
  have "\<exists>b. some_js (JRef (length h1)) (has_part firstDay ''2'') h5 = Inr b"
    using c5 by (rule some_js_step) (auto intro!: has_part_total vs)
  then obtain b2 where b2: "some_js (JRef (length h1)) (has_part firstDay ''2'') h5 = Inr b2"
    by blast
  have "\<exists>b. some_js (JRef (length h1)) (has_part firstDay ''1'') h5 = Inr b"
    using c5 by (rule some_js_step) (auto intro!: has_part_total vs)
  then obtain b1 where b1: "some_js (JRef (length h1)) (has_part firstDay ''1'') h5 = Inr b1"
    by blast
  have "findDefaultSelection_js lb h =
      Inr (JRef (length h5),
           h5 @ [Object [(''day'', JStr firstDay),
                         (''part'', JStr (if b2 then ''2'' else if b1 then ''1'' else ''1''))]])"
    using o v f m s b2 b1
    by (simp add: findDefaultSelection_js_def Let_def new_eq flip: h5_def firstDay_def)
  moreover from p5 have "prefix h (h5 @ [Object [(''day'', JStr firstDay),
                         (''part'', JStr (if b2 then ''2'' else if b1 then ''1'' else ''1''))]])"
    by (rule prefix_prefix)
  ultimately show ?thesis by blast
qed

subsection \<open>\<^verbatim>\<open>findDefaultPlayerId\<close> on the heap\<close>

lemma player_ok_prefix: "prefix h h' \<Longrightarrow> player_ok h y \<Longrightarrow> player_ok h' y"
  by (auto simp: player_ok_def dest: cell_at_prefix)

lemma is_memberD:
  assumes "is_member h m"
  shows "\<exists>ps. cell_at h m = Some (Object ps) \<and>
           (map_of ps ''name'' = None \<or> map_of ps ''name'' = Some JNull \<or>
            (\<exists>s. map_of ps ''name'' = Some (JStr s)))"
proof (cases "cell_at h m")
  case None
  with assms show ?thesis by (simp add: is_member_def)
next
  case (Some c)
  show ?thesis
  proof (cases c)
    case (Array xs)
    with Some assms show ?thesis by (simp add: is_member_def)
  next
    case (Object ps)
    show ?thesis
    proof (cases "map_of ps ''name''")
      case None
      with Some Object show ?thesis by simp
    next
      case (Some v)
      with assms \<open>cell_at h m = Some c\<close> Object show ?thesis
        by (cases v) (simp_all add: is_member_def)
    qed
  qed
qed

lemma member_name:
  assumes "is_member h0 m" "prefix h0 h"
  shows "\<exists>s. name_or_anonymous (own_prop h m ''name'') (own_prop h m ''id'') = JStr s"
proof -
  from is_memberD [OF assms(1)] obtain ps where ps: "cell_at h0 m = Some (Object ps)"
    and n: "map_of ps ''name'' = None \<or> map_of ps ''name'' = Some JNull \<or>
            (\<exists>s. map_of ps ''name'' = Some (JStr s))"
    by blast
  from assms(2) ps have "cell_at h m = Some (Object ps)" by (rule cell_at_prefix)
  then have "own_prop h m ''name'' =
      (case map_of ps ''name'' of None \<Rightarrow> JUndefined | Some x \<Rightarrow> x)"
    by (simp add: own_prop_def props_def)
  with n show ?thesis by (auto simp: name_or_anonymous_def)
qed

lemma players_steps:
  assumes "\<And>m. m \<in> set xs \<Longrightarrow> is_member h0 m" "prefix h0 h"
  shows "\<exists>ys h'. map_list player_callback xs i h = Inr (ys, h') \<and> prefix h h' \<and>
           (\<forall>y \<in> set ys. player_ok h' y)"
  using assms
proof (induction xs arbitrary: h i)
  case Nil
  then show ?case by simp
next
  case (Cons m xs)
  from Cons.prems have m: "is_member h0 m" by simp
  then have nn: "\<not> nullish m" by (rule is_member_ref)
  from member_name [OF m Cons.prems(2)] obtain s where
    s: "name_or_anonymous (own_prop h m ''name'') (own_prop h m ''id'') = JStr s" by blast
  let ?c = "Object [(''id'', JStr (interpolate (own_prop h m ''id''))), (''name'', JStr s)]"
  let ?h1 = "h @ [?c]"
  from nn s have step: "player_callback m i h = Inr (JRef (length h), ?h1)"
    by (simp add: player_callback_def get_total new_eq)
  from Cons.prems(2) have p1: "prefix h0 ?h1" by (rule prefix_prefix)
  from Cons.IH [OF _ p1, of "Suc i"] Cons.prems(1) obtain ys h' where
    r: "map_list player_callback xs (Suc i) ?h1 = Inr (ys, h')" "prefix ?h1 h'"
      "\<forall>y \<in> set ys. player_ok h' y" by auto
  have "player_ok ?h1 (JRef (length h))"
    unfolding player_ok_def by (intro exI) (rule cell_at_new)
  with r(2) have "player_ok h' (JRef (length h))" by (rule player_ok_prefix)
  moreover have "prefix h ?h1" by simp
  then have "prefix h h'" using r(2) by (rule prefix_order.trans)
  ultimately show ?case using step r by auto
qed

lemma by_name_total:
  assumes "player_ok h a" "player_ok h b"
  shows "\<exists>c. by_name lc h a b = Inr c"
proof -
  from assms obtain i s j t where
    "cell_at h a = Some (Object [(''id'', i), (''name'', JStr s)])"
    "cell_at h b = Some (Object [(''id'', j), (''name'', JStr t)])"
    by (auto simp: player_ok_def)
  then have "\<not> nullish a" "\<not> nullish b" "own_prop h a ''name'' = JStr s"
    by (auto simp: own_prop_def props_def dest: cell_at_SomeD)
  then show ?thesis by (simp add: by_name_def get_total)
qed

lemma findDefaultPlayerId_js_total:
  assumes "is_leaderboard h lb"
  shows "\<exists>v h'. findDefaultPlayerId_js lc lb h = Inr (v, h') \<and> prefix h h'"
proof -
  obtain ob h1 where o: "or_empty_object (get_opt h lb ''members'') h = (ob, h1)"
    by (cases "or_empty_object (get_opt h lb ''members'') h")
  from or_empty_object_cases [OF o] have ob: "\<not> nullish ob" and p1: "prefix h h1"
    by auto
  define vs where "vs = map snd (props h1 ob)"
  from members_of_leaderboard [OF assms o] have vs: "\<And>v. v \<in> set vs \<Longrightarrow> is_member h v"
    by (auto simp: vs_def)
  from Object_values_js_step [OF ob, of h1] obtain h2 where
    v: "Object_values_js ob h1 = Inr (JRef (length h1), h2)" and p2: "prefix h1 h2"
    and c2: "cell_at h2 (JRef (length h1)) = Some (Array vs)"
    by (auto simp: vs_def)
  from p1 p2 have p02: "prefix h h2" by (rule prefix_order.trans)
  have "\<exists>ys h'. map_list player_callback vs 0 h2 = Inr (ys, h') \<and> prefix h2 h' \<and>
           (\<forall>y \<in> set ys. player_ok h' y)"
    using vs p02 by (rule players_steps)
  then obtain ps h3 where
    m: "map_list player_callback vs 0 h2 = Inr (ps, h3)" and p3: "prefix h2 h3"
    and ok: "\<forall>y \<in> set ps. player_ok h3 y" by blast
  define h4 where "h4 = h3 @ [Array ps]"
  have mj: "map_js (JRef (length h1)) player_callback h2 = Inr (JRef (length h3), h4)"
    using c2 m by (simp add: map_js_def elems_cell new_eq h4_def)
  have c4: "cell_at h4 (JRef (length h3)) = Some (Array ps)"
    unfolding h4_def by (rule cell_at_new)
  have p34: "prefix h3 h4" by (simp add: h4_def)
  have "\<exists>ys. sort_js (JRef (length h3)) (by_name lc) h4 = Inr (h4[length h3 := Array ys]) \<and>
      set ys = set ps"
    using c4
  proof (rule sort_js_step)
    fix x y
    assume "x \<in> set ps" "y \<in> set ps"
    with ok have "player_ok h3 x" "player_ok h3 y" by simp_all
    with p34 have "player_ok h4 x" "player_ok h4 y" by (simp_all add: player_ok_prefix)
    then show "\<exists>c. by_name lc h4 x y = Inr c" by (rule by_name_total)
  qed
  then obtain ys where
    s: "sort_js (JRef (length h3)) (by_name lc) h4 = Inr (h4[length h3 := Array ys])" by blast
  define h5 where "h5 = h4[length h3 := Array ys]"
  from p02 p3 have p03: "prefix h h3" by (rule prefix_order.trans)
  from p03 p34 have "prefix h h4" by (rule prefix_order.trans)
  moreover from p03 have "length h \<le> length h3" by (rule prefix_length)
  ultimately have p5: "prefix h h5" unfolding h5_def by (rule prefix_update)
  have "\<exists>r. findDefaultPlayerId_js lc lb h = Inr (r, h5)"
    using o v mj s by (simp add: findDefaultPlayerId_js_def Let_def flip: h5_def)
  with p5 show ?thesis by blast
qed

subsection \<open>\<^verbatim>\<open>buildPlayerSubmissions\<close> on the heap\<close>

lemma find_list_total:
  assumes "\<And>x. x \<in> set xs \<Longrightarrow> \<exists>b. f x = Inr b"
  shows "\<exists>r. find_list f xs = Inr r"
  using assms
proof (induction xs)
  case Nil
  have "find_list f [] = Inr JUndefined" by simp
  then show ?case ..
next
  case (Cons x xs)
  from Cons.prems [of x] obtain b where "f x = Inr b" by auto
  moreover from Cons.IH Cons.prems obtain r where "find_list f xs = Inr r" by auto
  ultimately show ?case by auto
qed

lemma same_id_total: "\<not> nullish member \<Longrightarrow> \<exists>b. same_id playerId h member = Inr b"
  by (simp add: same_id_def get_total)

lemma rows_inv_new: "rows_inv h0 a h \<Longrightarrow> rows_inv h0 a (h @ [c])"
  by (auto simp: rows_inv_def prefix_prefix cell_at_new_old)

lemma submission_callback_step:
  assumes "\<not> nullish player" "rows_inv h0 a h"
  shows "\<exists>h'. submission_callback L player (JRef a) day part h = Inr h' \<and> rows_inv h0 a h'"
proof -
  let ?completion = "get_opt h (get_opt h (own_prop h player ''completion_day_level'')
    (interpolate day)) (interpolate part)"
  have "\<exists>t. (if truthy ?completion
              then attempt (get h ?completion ''get_star_ts'')
                     (\<lambda>ts. Inr (formatCompletionTime_js L ts))
              else Inr (JStr ''Not completed'')) = Inr t"
    by (auto simp: get_total dest: truthy_not_nullish)
  then obtain t where t: "(if truthy ?completion
              then attempt (get h ?completion ''get_star_ts'')
                     (\<lambda>ts. Inr (formatCompletionTime_js L ts))
              else Inr (JStr ''Not completed'')) = Inr t" ..
  from assms(1) have g: "get h player ''completion_day_level'' =
      Inr (own_prop h player ''completion_day_level'')" by (rule get_total)
  have "submission_callback L player (JRef a) day part h =
      push (JRef a) (JRef (length h))
        (h @ [Object [(''day'', day), (''part'', JStr (interpolate part)), (''completedAt'', t)]])"
    unfolding submission_callback_def Let_def g attempt_Inr t by (simp add: new_eq)
  with push_step [OF assms(2), of "JRef (length h)"] show ?thesis by simp
qed

lemma day_callback_step:
  assumes "\<not> nullish player" "rows_inv h0 a h"
  shows "\<exists>h'. day_callback L player (JRef a) day h = Inr h' \<and> rows_inv h0 a h'"
proof -
  let ?h1 = "h @ [Array [JNum 1, JNum 2]]"
  have e: "elems ?h1 (JRef (length h)) = Some [JNum 1, JNum 2]"
    by (simp add: elems_def cell_at_new)
  have "\<exists>h'. each (submission_callback L player (JRef a) day) [JNum 1, JNum 2] ?h1 = Inr h' \<and>
      rows_inv h0 a h'"
    by (rule each_inv [where I = "rows_inv h0 a"])
      (use assms in \<open>auto intro!: submission_callback_step rows_inv_new\<close>)
  with e show ?thesis by (simp add: day_callback_def new_eq forEach_def)
qed

lemma buildPlayerSubmissions_js_total:
  assumes "is_leaderboard h lb" and "cell_at h dayNumbers = Some (Array ds)"
  shows "\<exists>v h'. buildPlayerSubmissions_js L lb playerId dayNumbers h = Inr (v, h') \<and> prefix h h'"
proof (cases "truthy lb \<and> truthy playerId")
  case False
  then show ?thesis by (auto simp add: buildPlayerSubmissions_js_def new_eq)
next
  case True
  then have nn: "\<not> nullish lb" by (simp add: truthy_not_nullish)
  then have g: "get h lb ''members'' = Inr (get_opt h lb ''members'')"
    by (simp add: get_def get_opt_def)
  obtain ob h1 where o: "or_empty_object (get_opt h lb ''members'') h = (ob, h1)"
    by (cases "or_empty_object (get_opt h lb ''members'') h")
  from or_empty_object_cases [OF o] have ob: "\<not> nullish ob" and p1: "prefix h h1"
    by auto
  define vs where "vs = map snd (props h1 ob)"
  from members_of_leaderboard [OF assms(1) o] have vs: "\<And>v. v \<in> set vs \<Longrightarrow> \<not> nullish v"
    by (auto simp: vs_def dest: is_member_ref)
  from Object_values_js_step [OF ob, of h1] obtain h2 where
    v: "Object_values_js ob h1 = Inr (JRef (length h1), h2)" and p2: "prefix h1 h2"
    and c2: "cell_at h2 (JRef (length h1)) = Some (Array vs)"
    by (auto simp: vs_def)
  from p1 p2 have p02: "prefix h h2" by (rule prefix_order.trans)
  have "\<exists>r. find_list (same_id playerId h2) vs = Inr r"
    by (rule find_list_total) (auto intro!: same_id_total vs)
  then obtain player where
    f: "find_js (JRef (length h1)) (same_id playerId) h2 = Inr player"
    using c2 by (auto simp: find_js_def elems_cell)
  show ?thesis
  proof (cases "truthy player")
    case False
    with True g o v f have "buildPlayerSubmissions_js L lb playerId dayNumbers h =
        Inr (JRef (length h2), h2 @ [Array []])"
      by (simp add: buildPlayerSubmissions_js_def new_eq)
    moreover from p02 have "prefix h (h2 @ [Array []])" by (rule prefix_prefix)
    ultimately show ?thesis by blast
  next
    case player: True
    then have pn: "\<not> nullish player" by (rule truthy_not_nullish)
    define h3 where "h3 = h2 @ [Array []]"
    have i3: "rows_inv h (length h2) h3"
      unfolding rows_inv_def h3_def
    proof (intro conjI exI)
      from p02 show "prefix h (h2 @ [Array []])" by (rule prefix_prefix)
      from p02 show "length h \<le> length h2" by (rule prefix_length)
      show "cell_at (h2 @ [Array []]) (JRef (length h2)) = Some (Array [])" by (rule cell_at_new)
      show "\<forall>x \<in> set []. \<not> nullish x" by simp
    qed
    then have "prefix h h3" by (simp add: rows_inv_def)
    from this assms(2) have "cell_at h3 dayNumbers = Some (Array ds)" by (rule cell_at_prefix)
    then have e3: "elems h3 dayNumbers = Some ds" by (rule elems_cell)
    have "\<exists>h4. each (day_callback L player (JRef (length h2))) ds h3 = Inr h4 \<and>
        rows_inv h (length h2) h4"
      by (rule each_inv [where I = "rows_inv h (length h2)"])
        (use pn i3 in \<open>auto intro!: day_callback_step\<close>)
    then obtain h4 where
      h4: "forEach dayNumbers (day_callback L player (JRef (length h2))) h3 = Inr h4"
      and i4: "rows_inv h (length h2) h4"
      using e3 by (auto simp: forEach_def)
    from True g o v f player h4 have
      "buildPlayerSubmissions_js L lb playerId dayNumbers h = Inr (JRef (length h2), h4)"
      by (simp add: buildPlayerSubmissions_js_def new_eq flip: h3_def)
    moreover from i4 have "prefix h h4" by (simp add: rows_inv_def)
    ultimately show ?thesis by blast
  qed
qed

subsection \<open>\<^verbatim>\<open>computePartAvailability\<close> on the heap\<close>

lemma avail_inv_new: "avail_inv h0 av h \<Longrightarrow> avail_inv h0 av (h @ [c])"
  unfolding avail_inv_def by (fastforce simp: prefix_prefix cell_at_new_old)

lemma pair_ok_new: "pair_ok h e \<Longrightarrow> pair_ok (h @ [c]) e"
  unfolding pair_ok_def by (fastforce simp: cell_at_new_old)

lemma pair_ok_update:
  assumes "pair_ok h e" "cell_at h (JRef a) = Some (Object ps)"
  shows "pair_ok (h[a := c]) e"
proof -
  from assms(1) obtain k x where e: "cell_at h e = Some (Array [JStr k, x])" "\<not> nullish x"
    by (auto simp: pair_ok_def)
  then obtain b where b: "e = JRef b" by (auto dest: cell_at_SomeD)
  with e(1) assms(2) have "a \<noteq> b" by auto
  with e b show ?thesis by (auto simp: pair_ok_def cell_at_update_other)
qed

lemma map_of_set_key: "map_of (set_key k x ps) k = Some x"
  by (induction ps) auto

lemma in_set_key: "p \<in> set (set_key k x ps) \<Longrightarrow> p = (k, x) \<or> p \<in> set ps"
  by (induction ps) (auto split: if_splits)

lemma own_prop_object:
  "cell_at h v = Some (Object ps) \<Longrightarrow>
     own_prop h v k = (case map_of ps k of None \<Rightarrow> JUndefined | Some x \<Rightarrow> x)"
  by (simp add: own_prop_def props_def)

lemma avail_day:
  assumes "avail_inv h0 av h" "\<not> nullish (own_prop h (JRef av) day)"
  shows "\<exists>b cs. own_prop h (JRef av) day = JRef b \<and> length h0 \<le> b \<and> b \<noteq> av \<and>
           cell_at h (JRef b) = Some (Object cs)"
proof -
  from assms(1) obtain ps where ps: "cell_at h (JRef av) = Some (Object ps)"
    and vals: "\<forall>p \<in> set ps. \<exists>b cs. snd p = JRef b \<and> length h0 \<le> b \<and> b \<noteq> av \<and>
                               cell_at h (JRef b) = Some (Object cs)"
    by (auto simp: avail_inv_def)
  from assms(2) obtain x where x: "map_of ps day = Some x" "own_prop h (JRef av) day = x"
    unfolding own_prop_object [OF ps] by (cases "map_of ps day") (auto simp: nullish_def)
  then have "(day, x) \<in> set ps" by (auto dest: map_of_SomeD)
  with vals x(2) show ?thesis by fastforce
qed

lemma ensure_day_step:
  assumes "avail_inv h0 av h"
  shows "\<exists>h2. ensure_day (JRef av) day h = Inr h2 \<and> avail_inv h0 av h2 \<and>
           \<not> nullish (own_prop h2 (JRef av) day) \<and> (\<forall>e. pair_ok h e \<longrightarrow> pair_ok h2 e)"
proof (cases "nullish (own_prop h (JRef av) day)")
  case False
  with assms show ?thesis by (simp add: ensure_day_def get_total)
next
  case True
  from assms obtain ps where p: "prefix h0 h" and l: "length h0 \<le> av"
    and ps: "cell_at h (JRef av) = Some (Object ps)"
    and vals: "\<forall>p \<in> set ps. \<exists>b cs. snd p = JRef b \<and> length h0 \<le> b \<and> b \<noteq> av \<and>
                               cell_at h (JRef b) = Some (Object cs)"
    by (auto simp: avail_inv_def)
  define fresh where "fresh = Object [(''1'', JBool False), (''2'', JBool False)]"
  define h1 where "h1 = h @ [fresh]"
  define h2 where "h2 = h1[av := Object (set_key day (JRef (length h)) ps)]"
  from ps have av: "av < length h" by (auto dest: cell_at_SomeD)
  from ps have ps1: "cell_at h1 (JRef av) = Some (Object ps)"
    unfolding h1_def by (rule cell_at_new_old)
  then have sp: "set_prop (JRef av) day (JRef (length h)) h1 = Inr h2"
    by (simp add: set_prop_def h2_def)
  from True sp have run: "ensure_day (JRef av) day h = Inr h2"
    by (simp add: ensure_day_def get_total new_eq flip: fresh_def h1_def)
  from av have c2: "cell_at h2 (JRef av) = Some (Object (set_key day (JRef (length h)) ps))"
    by (simp add: h2_def h1_def cell_at_update_same)
  have fresh2: "cell_at h2 (JRef (length h)) = Some fresh"
    using av by (simp add: h2_def h1_def cell_at_update_other cell_at_new)
  have old2: "cell_at h2 (JRef b) = Some c" if "cell_at h (JRef b) = Some c" "b \<noteq> av" for b c
    using that by (simp add: h2_def h1_def cell_at_update_other cell_at_new_old)
  from p have "prefix h0 h1" unfolding h1_def by (rule prefix_prefix)
  then have p2: "prefix h0 h2" unfolding h2_def using l by (rule prefix_update)
  have vals2: "\<forall>q \<in> set (set_key day (JRef (length h)) ps).
      \<exists>b cs. snd q = JRef b \<and> length h0 \<le> b \<and> b \<noteq> av \<and>
             cell_at h2 (JRef b) = Some (Object cs)"
  proof
    fix q assume "q \<in> set (set_key day (JRef (length h)) ps)"
    then consider "q = (day, JRef (length h))" | "q \<in> set ps" by (auto dest: in_set_key)
    then show "\<exists>b cs. snd q = JRef b \<and> length h0 \<le> b \<and> b \<noteq> av \<and>
                 cell_at h2 (JRef b) = Some (Object cs)"
    proof cases
      case 1
      with p av fresh2 show ?thesis
        by (auto simp: fresh_def dest: prefix_length)
    next
      case 2
      with vals obtain b cs where "snd q = JRef b" "length h0 \<le> b" "b \<noteq> av"
        "cell_at h (JRef b) = Some (Object cs)" by blast
      with old2 show ?thesis by blast
    qed
  qed
  from p2 l c2 vals2 have inv: "avail_inv h0 av h2"
    unfolding avail_inv_def by blast
  have "own_prop h2 (JRef av) day = JRef (length h)"
    by (simp add: own_prop_object [OF c2] map_of_set_key)
  moreover have "pair_ok h2 e" if "pair_ok h e" for e
    unfolding h2_def
    by (rule pair_ok_update [OF _ ps1]) (use that in \<open>simp add: h1_def pair_ok_new\<close>)
  ultimately show ?thesis using run inv by simp
qed

lemma mark_part_step:
  assumes "avail_inv h0 av h" "\<not> nullish (own_prop h (JRef av) day)" "\<not> nullish parts"
  shows "\<exists>h'. mark_part (JRef av) day parts k h = Inr h' \<and> avail_inv h0 av h' \<and>
           \<not> nullish (own_prop h' (JRef av) day) \<and> (\<forall>e. pair_ok h e \<longrightarrow> pair_ok h' e)"
proof (cases "truthy (own_prop h parts k)")
  case False
  with assms show ?thesis by (simp add: mark_part_def get_total)
next
  case True
  from assms(1) obtain ps where p: "prefix h0 h" and l: "length h0 \<le> av"
    and ps: "cell_at h (JRef av) = Some (Object ps)"
    and vals: "\<forall>p \<in> set ps. \<exists>b cs. snd p = JRef b \<and> length h0 \<le> b \<and> b \<noteq> av \<and>
                               cell_at h (JRef b) = Some (Object cs)"
    by (auto simp: avail_inv_def)
  from avail_day [OF assms(1,2)] obtain b cs where b: "own_prop h (JRef av) day = JRef b"
    "length h0 \<le> b" "b \<noteq> av" "cell_at h (JRef b) = Some (Object cs)" by blast
  define h' where "h' = h[b := Object (set_key k (JBool True) cs)]"
  from b(4) have bl: "b < length h" by (auto dest: cell_at_SomeD)
  from b(1,4) have "set_prop (own_prop h (JRef av) day) k (JBool True) h = Inr h'"
    by (simp add: set_prop_def h'_def)
  with True assms(3) have run: "mark_part (JRef av) day parts k h = Inr h'"
    by (simp add: mark_part_def get_total)
  from b(3) ps have c': "cell_at h' (JRef av) = Some (Object ps)"
    by (simp add: h'_def cell_at_update_other)
  have obj: "\<exists>cs'. cell_at h' (JRef d) = Some (Object cs')"
    if "cell_at h (JRef d) = Some (Object cs0)" for d cs0
    using that bl by (cases "d = b") (simp_all add: h'_def cell_at_update_other cell_at_update_same)
  from p b(2) have p': "prefix h0 h'" unfolding h'_def by (rule prefix_update)
  have vals': "\<forall>q \<in> set ps. \<exists>b cs. snd q = JRef b \<and> length h0 \<le> b \<and> b \<noteq> av \<and>
            cell_at h' (JRef b) = Some (Object cs)"
  proof
    fix q assume "q \<in> set ps"
    with vals obtain d cs0 where d: "snd q = JRef d" "length h0 \<le> d" "d \<noteq> av"
      "cell_at h (JRef d) = Some (Object cs0)" by blast
    from obj [OF d(4)] d(1-3)
    show "\<exists>b cs. snd q = JRef b \<and> length h0 \<le> b \<and> b \<noteq> av \<and>
            cell_at h' (JRef b) = Some (Object cs)" by blast
  qed
  from p' l c' vals' have inv: "avail_inv h0 av h'"
    unfolding avail_inv_def by blast
  have "own_prop h' (JRef av) day = own_prop h (JRef av) day"
    by (simp add: own_prop_object [OF c'] own_prop_object [OF ps])
  with assms(2) have "\<not> nullish (own_prop h' (JRef av) day)" by simp
  moreover have "pair_ok h' e" if "pair_ok h e" for e
    unfolding h'_def using that b(4) by (rule pair_ok_update)
  ultimately show ?thesis using run inv by simp
qed

lemma pair_props:
  assumes "cell_at h e = Some (Array [JStr k, x])"
  shows "own_prop h e ''0'' = JStr k" "own_prop h e ''1'' = x"
  using assms by (simp_all add: own_prop_def props_def toString_small upt_rec)

lemma entry_callback_step:
  assumes "avail_inv h0 av h" "pair_ok h e"
  shows "\<exists>h'. entry_callback (JRef av) e h = Inr h' \<and> avail_inv h0 av h' \<and>
           (\<forall>e'. pair_ok h e' \<longrightarrow> pair_ok h' e')"
proof -
  from assms(2) obtain k x where e: "cell_at h e = Some (Array [JStr k, x])" and x: "\<not> nullish x"
    by (auto simp: pair_ok_def)
  note pr = pair_props [OF e]
  from ensure_day_step [OF assms(1), of k] obtain h1 where
    h1: "ensure_day (JRef av) k h = Inr h1" "avail_inv h0 av h1"
      "\<not> nullish (own_prop h1 (JRef av) k)" "\<forall>e. pair_ok h e \<longrightarrow> pair_ok h1 e" by blast
  from mark_part_step [OF h1(2,3) x, of "''1''"] obtain h2 where
    h2: "mark_part (JRef av) k x ''1'' h1 = Inr h2" "avail_inv h0 av h2"
      "\<not> nullish (own_prop h2 (JRef av) k)" "\<forall>e. pair_ok h1 e \<longrightarrow> pair_ok h2 e" by blast
  from mark_part_step [OF h2(2,3) x, of "''2''"] obtain h3 where
    h3: "mark_part (JRef av) k x ''2'' h2 = Inr h3" "avail_inv h0 av h3"
      "\<forall>e. pair_ok h2 e \<longrightarrow> pair_ok h3 e" by blast
  have "entry_callback (JRef av) e h = Inr h3"
    by (simp add: entry_callback_def Let_def pr h1(1) h2(1) h3(1))
  with h3(2) h1(4) h2(4) h3(3) show ?thesis by blast
qed

lemma is_parts_ref: "is_parts h v \<Longrightarrow> \<not> nullish v"
  by (auto simp: is_parts_def cell_at_def nullish_def split: jsval.splits)

lemma is_daysD:
  assumes "is_days h d"
  shows "\<exists>dps. cell_at h d = Some (Object dps) \<and> (\<forall>p \<in> set dps. \<not> nullish (snd p))"
proof (cases "cell_at h d")
  case None
  with assms show ?thesis by (simp add: is_days_def)
next
  case (Some c)
  with assms show ?thesis
    by (cases c) (auto simp: is_days_def list_all_iff dest: is_parts_ref)
qed

lemma member_days:
  assumes "is_member h m"
  shows "own_prop h m ''completion_day_level'' = JUndefined \<or>
         is_days h (own_prop h m ''completion_day_level'')"
proof (cases "cell_at h m")
  case None
  with assms show ?thesis by (simp add: is_member_def)
next
  case (Some c)
  show ?thesis
  proof (cases c)
    case (Array xs)
    with Some assms show ?thesis by (simp add: is_member_def)
  next
    case (Object ps)
    with Some have o: "cell_at h m = Some (Object ps)" by simp
    show ?thesis
    proof (cases "map_of ps ''completion_day_level''")
      case None
      then show ?thesis by (simp add: own_prop_object [OF o])
    next
      case (Some d)
      with assms o have "is_days h d" by (simp add: is_member_def)
      with Some show ?thesis by (simp add: own_prop_object [OF o])
    qed
  qed
qed

lemma entry_arrays_step:
  assumes "avail_inv h0 av h" "\<forall>p \<in> set ps. \<not> nullish (snd p)"
  shows "\<exists>rs h'. entry_arrays ps h = (rs, h') \<and> prefix h h' \<and> avail_inv h0 av h' \<and>
           (\<forall>e \<in> set rs. pair_ok h' e)"
  using assms
proof (induction ps arbitrary: h)
  case Nil
  then show ?case by simp
next
  case (Cons p ps)
  let ?h1 = "h @ [Array [JStr (fst p), snd p]]"
  from Cons.prems(1) have "avail_inv h0 av ?h1" by (rule avail_inv_new)
  with Cons.IH [of ?h1] Cons.prems(2) obtain rs h' where
    r: "entry_arrays ps ?h1 = (rs, h')" "prefix ?h1 h'" "avail_inv h0 av h'"
      "\<forall>e \<in> set rs. pair_ok h' e" by auto
  from Cons.prems(2) have "pair_ok ?h1 (JRef (length h))"
    by (simp add: pair_ok_def cell_at_new)
  with r(2) have "pair_ok h' (JRef (length h))"
    by (auto simp: pair_ok_def dest: cell_at_prefix)
  moreover have "prefix h ?h1" by simp
  then have "prefix h h'" using r(2) by (rule prefix_order.trans)
  ultimately show ?case using r by (simp add: new_eq)
qed

lemma member_callback_step:
  assumes "is_member h0 m" "avail_inv h0 av h"
  shows "\<exists>h'. member_callback (JRef av) m h = Inr h' \<and> avail_inv h0 av h'"
proof -
  from assms(2) have p: "prefix h0 h" by (simp add: avail_inv_def)
  from assms(1) have nn: "\<not> nullish m" by (rule is_member_ref)
  define d where "d = own_prop h m ''completion_day_level''"
  from is_memberD [OF assms(1)] obtain mps where "cell_at h0 m = Some (Object mps)" by blast
  with p have "cell_at h m = Some (Object mps)" "cell_at h0 m = Some (Object mps)"
    by (auto dest: cell_at_prefix)
  then have "own_prop h m ''completion_day_level'' = own_prop h0 m ''completion_day_level''"
    by (simp add: own_prop_object)
  with member_days [OF assms(1)] have d: "d = JUndefined \<or> is_days h0 d" by (simp add: d_def)
  obtain ob h1 where o: "or_empty_object d h = (ob, h1)" by (cases "or_empty_object d h")
  have "\<not> nullish ob \<and> avail_inv h0 av h1 \<and> (\<forall>q \<in> set (props h1 ob). \<not> nullish (snd q))"
  proof (cases "nullish d")
    case True
    with o have "ob = JRef (length h)" "h1 = h @ [Object []]"
      by (auto simp: or_empty_object_def new_eq)
    with assms(2) show ?thesis by (simp add: avail_inv_new props_empty_object)
  next
    case False
    with o have eq: "ob = d" "h1 = h" by (auto simp: or_empty_object_def)
    from False d have "is_days h0 d" by (auto simp: nullish_def)
    from is_daysD [OF this] obtain dps where "cell_at h0 d = Some (Object dps)"
      "\<forall>q \<in> set dps. \<not> nullish (snd q)" by blast
    with p have "cell_at h d = Some (Object dps)" by (auto dest: cell_at_prefix)
    with \<open>\<forall>q \<in> set dps. \<not> nullish (snd q)\<close> False assms(2) show ?thesis
      by (simp add: eq props_def)
  qed
  then have ob: "\<not> nullish ob" and i1: "avail_inv h0 av h1"
    and vals: "\<forall>q \<in> set (props h1 ob). \<not> nullish (snd q)" by simp_all
  from entry_arrays_step [OF i1 vals] obtain rs h2 where
    r: "entry_arrays (props h1 ob) h1 = (rs, h2)" "avail_inv h0 av h2"
      "\<forall>e \<in> set rs. pair_ok h2 e" by blast
  define h3 where "h3 = h2 @ [Array rs]"
  from ob r(1) have oe: "Object_entries_js ob h1 = Inr (JRef (length h2), h3)"
    by (simp add: Object_entries_js_def new_eq h3_def)
  have e3: "elems h3 (JRef (length h2)) = Some rs"
    by (simp add: h3_def elems_def cell_at_new)
  from r(2,3) have i3: "avail_inv h0 av h3 \<and> (\<forall>e \<in> set rs. pair_ok h3 e)"
    by (simp add: h3_def avail_inv_new pair_ok_new)
  have "\<exists>h'. each (entry_callback (JRef av)) rs h3 = Inr h' \<and>
      (avail_inv h0 av h' \<and> (\<forall>e \<in> set rs. pair_ok h' e))"
  proof (rule each_inv [where I = "\<lambda>h. avail_inv h0 av h \<and> (\<forall>e \<in> set rs. pair_ok h e)"])
    fix e h
    assume "e \<in> set rs" "avail_inv h0 av h \<and> (\<forall>e \<in> set rs. pair_ok h e)"
    with entry_callback_step [of h0 av h e]
    show "\<exists>h'. entry_callback (JRef av) e h = Inr h' \<and>
        (avail_inv h0 av h' \<and> (\<forall>e \<in> set rs. pair_ok h' e))" by blast
  qed (rule i3)
  then obtain h4 where "each (entry_callback (JRef av)) rs h3 = Inr h4" "avail_inv h0 av h4"
    by blast
  with nn o oe e3 show ?thesis
    by (simp add: member_callback_def get_total forEach_def flip: d_def)
qed

lemma avail_inv_or_empty:
  "avail_inv h0 av h \<Longrightarrow> or_empty_object v h = (ob, h1) \<Longrightarrow> avail_inv h0 av h1"
  by (auto simp: or_empty_object_def new_eq avail_inv_new split: if_splits)

lemma computePartAvailability_js_total:
  assumes "is_leaderboard h lb"
  shows "\<exists>v h'. computePartAvailability_js lb h = Inr (v, h') \<and> prefix h h'"
proof -
  define h1 where "h1 = h @ [Object []]"
  have p1: "prefix h h1" by (simp add: h1_def)
  have i1: "avail_inv h (length h) h1"
    by (simp add: avail_inv_def h1_def cell_at_new)
  obtain ob h2 where o: "or_empty_object (get_opt h1 lb ''members'') h1 = (ob, h2)"
    by (cases "or_empty_object (get_opt h1 lb ''members'') h1")
  from or_empty_object_cases [OF o] have ob: "\<not> nullish ob" by simp
  from i1 o have i2: "avail_inv h (length h) h2" by (rule avail_inv_or_empty)
  define vs where "vs = map snd (props h2 ob)"
  from members_of_leaderboard_prefix [OF assms p1 o]
  have vs: "\<And>v. v \<in> set vs \<Longrightarrow> is_member h v" by (auto simp: vs_def)
  define h3 where "h3 = h2 @ [Array vs]"
  from ob have v: "Object_values_js ob h2 = Inr (JRef (length h2), h3)"
    by (simp add: Object_values_js_def new_eq h3_def vs_def)
  have e3: "elems h3 (JRef (length h2)) = Some vs"
    by (simp add: h3_def elems_def cell_at_new)
  from i2 have i3: "avail_inv h (length h) h3" unfolding h3_def by (rule avail_inv_new)
  have "\<exists>h'. each (member_callback (JRef (length h))) vs h3 = Inr h' \<and>
      avail_inv h (length h) h'"
    by (rule each_inv [where I = "avail_inv h (length h)"])
      (use i3 in \<open>auto intro!: member_callback_step vs\<close>)
  then obtain h4 where "each (member_callback (JRef (length h))) vs h3 = Inr h4"
    and i4: "avail_inv h (length h) h4" by blast
  with o v e3 have "computePartAvailability_js lb h = Inr (JRef (length h), h4)"
    by (simp add: computePartAvailability_js_def new_eq forEach_def flip: h1_def)
  moreover from i4 have "prefix h h4" by (simp add: avail_inv_def)
  ultimately show ?thesis by blast
qed

subsection \<open>The example heap\<close>

lemma prefix_take: "prefix h h' \<Longrightarrow> take (length h) h' = h"
  by (auto simp: prefix_def)

lemma example_heap_leaderboard: "is_leaderboard example_heap (JRef 10)"
  by (simp add: is_leaderboard_def is_member_def is_days_def is_parts_def is_completion_def
      cell_at_def example_heap_def day_key_def is_digit_def)

lemma example_heap_days: "cell_at example_heap (JRef 11) = Some (Array [JStr ''1'', JStr ''2''])"
  by (simp add: cell_at_def example_heap_def)

lemma buildLeaderboard_js_example:
  "buildLeaderboard_js toString (JRef 10) (JStr ''1'') (JStr ''1'') example_heap =
     Inr (JRef 18, example_heap @
       [Array [JRef 4, JRef 8],
        Array [JRef 15, JRef 14],
        Object [(''id'', JNum 1), (''name'', JStr ''Ann''),
                (''completedAt'', JStr ''1000000''), (''timestamp'', JNum 1000)],
        Object [(''id'', JNum 2), (''name'', JStr ''Anonymous #2''),
                (''completedAt'', JStr ''500000''), (''timestamp'', JNum 500)],
        Object [(''id'', JNum 2), (''name'', JStr ''Anonymous #2''),
                (''completedAt'', JStr ''500000''), (''timestamp'', JNum 500),
                (''rank'', JNum 1)],
        Object [(''id'', JNum 1), (''name'', JStr ''Ann''),
                (''completedAt'', JStr ''1000000''), (''timestamp'', JNum 1000),
                (''rank'', JNum 2)],
        Array [JRef 16, JRef 17]])"
  by (simp add: buildLeaderboard_js_def get_def get_opt_def own_prop_def props_def cell_at_def
      nullish_def or_empty_object_def Object_values_js_def new_def forEach_def elems_def
      row_callback_def push_def sort_js_def by_timestamp_def map_js_def rank_callback_def
      name_or_anonymous_def formatCompletionTime_js_def js_Number_def minus_js_def
      compare_result_def example_heap_def toString_small Let_def nth_append)

text \<open>A member that is \<^verbatim>\<open>null\<close> makes the document ill-formed, and the function throws.\<close>

lemma null_member_throws:
  "buildLeaderboard_js toString (JRef 10) (JStr ''1'') (JStr ''1'')
     (example_heap[9 := Object [(''1'', JRef 4), (''2'', JNull)]]) = Inl TypeError"
  by (simp add: buildLeaderboard_js_def get_def get_opt_def own_prop_def props_def cell_at_def
      nullish_def or_empty_object_def Object_values_js_def new_def forEach_def elems_def
      row_callback_def push_def name_or_anonymous_def formatCompletionTime_js_def js_Number_def
      example_heap_def toString_small Let_def nth_append)

section \<open>The transformation layer leaves the document as it is\<close>

text \<open>
  Claim C8. Let the heap hold a well-formed leaderboard (or let the leaderboard be
  \<^verbatim>\<open>null\<close>). Then each of \<^verbatim>\<open>findDefaultSelection\<close>, \<^verbatim>\<open>buildLeaderboard\<close>,
  \<^verbatim>\<open>findDefaultPlayerId\<close>, \<^verbatim>\<open>buildPlayerSubmissions\<close> (given an array of day keys) and
  \<^verbatim>\<open>computePartAvailability\<close> returns a value and throws nothing, and the heap it
  leaves begins with the heap it was given: every cell that was there before the call,
  those of the document among them, holds what it held, and all that the function has
  sorted or written to are arrays and objects it has allocated itself. The result is a
  function of the arguments, the heap, and the locale's date format and collation.
\<close>

theorem transformation_layer_frame:
  assumes "is_leaderboard h leaderboard"
  shows "(\<exists>v h'. findDefaultSelection_js leaderboard h = Inr (v, h') \<and>
                 take (length h) h' = h) \<and>
         (\<exists>v h'. buildLeaderboard_js L leaderboard day part h = Inr (v, h') \<and>
                 take (length h) h' = h) \<and>
         (\<exists>v h'. findDefaultPlayerId_js localeCompare leaderboard h = Inr (v, h') \<and>
                 take (length h) h' = h) \<and>
         ((\<exists>ds. cell_at h dayNumbers = Some (Array ds)) \<longrightarrow>
            (\<exists>v h'. buildPlayerSubmissions_js L leaderboard playerId dayNumbers h = Inr (v, h') \<and>
                    take (length h) h' = h)) \<and>
         (\<exists>v h'. computePartAvailability_js leaderboard h = Inr (v, h') \<and>
                 take (length h) h' = h)"
proof (intro conjI impI)
  from findDefaultSelection_js_total [OF assms]
  show "\<exists>v h'. findDefaultSelection_js leaderboard h = Inr (v, h') \<and> take (length h) h' = h"
    by (blast dest: prefix_take)
  from buildLeaderboard_js_total [OF assms]
  show "\<exists>v h'. buildLeaderboard_js L leaderboard day part h = Inr (v, h') \<and>
                 take (length h) h' = h"
    by (blast dest: prefix_take)
  from findDefaultPlayerId_js_total [OF assms]
  show "\<exists>v h'. findDefaultPlayerId_js localeCompare leaderboard h = Inr (v, h') \<and>
                 take (length h) h' = h"
    by (blast dest: prefix_take)
  from computePartAvailability_js_total [OF assms]
  show "\<exists>v h'. computePartAvailability_js leaderboard h = Inr (v, h') \<and>
                 take (length h) h' = h"
    by (blast dest: prefix_take)
next
  assume "\<exists>ds. cell_at h dayNumbers = Some (Array ds)"
  then obtain ds where "cell_at h dayNumbers = Some (Array ds)" ..
  from buildPlayerSubmissions_js_total [OF assms this]
  show "\<exists>v h'. buildPlayerSubmissions_js L leaderboard playerId dayNumbers h = Inr (v, h') \<and>
                    take (length h) h' = h"
    by (blast dest: prefix_take)
qed

theorem transformation_layer_frame_witness:
  "is_leaderboard example_heap (JRef 10) \<and>
   cell_at example_heap (JRef 11) = Some (Array [JStr ''1'', JStr ''2'']) \<and>
   (\<exists>h'. buildLeaderboard_js toString (JRef 10) (JStr ''1'') (JStr ''1'') example_heap =
            Inr (JRef 18, h') \<and> take (length example_heap) h' = example_heap) \<and>
   (\<exists>v h'. buildPlayerSubmissions_js toString (JRef 10) (JStr ''2'') (JRef 11) example_heap =
            Inr (v, h') \<and> take (length example_heap) h' = example_heap) \<and>
   (\<exists>v h'. computePartAvailability_js (JRef 10) example_heap = Inr (v, h') \<and>
            take (length example_heap) h' = example_heap)"
proof -
  note frame = transformation_layer_frame [OF example_heap_leaderboard,
      of toString "JStr ''1''" "JStr ''1''" "\<lambda>a b. 0" "JRef 11" "JStr ''2''"]
  from frame obtain v h' where
    "buildLeaderboard_js toString (JRef 10) (JStr ''1'') (JStr ''1'') example_heap = Inr (v, h')"
    "take (length example_heap) h' = example_heap" by blast
  then have a: "\<exists>h'. buildLeaderboard_js toString (JRef 10) (JStr ''1'') (JStr ''1'')
      example_heap = Inr (JRef 18, h') \<and> take (length example_heap) h' = example_heap"
    unfolding buildLeaderboard_js_example by blast
  from frame example_heap_days have b: "\<exists>v h'. buildPlayerSubmissions_js toString (JRef 10)
      (JStr ''2'') (JRef 11) example_heap = Inr (v, h') \<and>
      take (length example_heap) h' = example_heap" by blast
  from frame have c: "\<exists>v h'. computePartAvailability_js (JRef 10) example_heap = Inr (v, h') \<and>
      take (length example_heap) h' = example_heap" by blast
  from example_heap_leaderboard example_heap_days a b c show ?thesis by (intro conjI)
qed

end
